(* ===== verification/Prelude.thy ===== *)
theory Prelude
  imports Main "HOL-Library.Word" "HOL-Library.Monad_Syntax"
begin

unbundle bit_operations_syntax

text \<open>
  Shared vocabulary of the development: the C integer types, the byte macros of
  util.h, the collections of rewrite rules, and the generic lemmas on lists, options and
  words that the component theories use.
\<close>

section \<open>Types and collections\<close>

type_synonym uchar = "8 word"
type_synonym ushort = "16 word"
type_synonym uint = "32 word"

text \<open>
  \<open>bind_iff\<close> inverts a successful run of the option monad (a C function that
  returned), \<open>byte_simps\<close> computes with the byte macros.
\<close>

named_theorems bind_iff
named_theorems byte_simps

lemma bind_Some_iff [bind_iff]:
  "Option.bind m f = Some y \<longleftrightarrow> (\<exists>x. m = Some x \<and> f x = Some y)"
  by (cases m) auto

lemma bind_pair_iff [bind_iff]:
  "Option.bind m (\<lambda>(a, s). f a s) = Some y \<longleftrightarrow> (\<exists>a s. m = Some (a, s) \<and> f a s = Some y)"
  by (cases m) auto

section \<open>The byte macros of util.h\<close>

definition lo :: "uint \<Rightarrow> uchar" where
  "lo x = ucast (x AND 0x000000ff)"

definition hi :: "uint \<Rightarrow> uchar" where
  "hi x = ucast (drop_bit 8 (x AND 0x0000ff00))"

definition hlo :: "uint \<Rightarrow> uchar" where
  "hlo x = ucast (drop_bit 16 (x AND 0x00ff0000))"

definition hhi :: "uint \<Rightarrow> uchar" where
  "hhi x = ucast (drop_bit 24 (x AND 0xff000000))"

text \<open>Little-endian assembly of bytes, as the receivers write it with shifts and or.\<close>

definition word16_le :: "uchar \<Rightarrow> uchar \<Rightarrow> ushort" where
  "word16_le b0 b1 = (0 OR ucast b0) OR push_bit 8 (ucast b1)"

definition word32_le :: "uchar \<Rightarrow> uchar \<Rightarrow> uchar \<Rightarrow> uchar \<Rightarrow> uint" where
  "word32_le b0 b1 b2 b3 =
     ((ucast b0 OR push_bit 8 (ucast b1)) OR push_bit 16 (ucast b2)) OR push_bit 24 (ucast b3)"

lemma mask_bytes:
  "(0x000000ff :: uint) = mask 8" "(0x0000ff00 :: uint) = push_bit 8 (mask 8)"
  "(0x00ff0000 :: uint) = push_bit 16 (mask 8)" "(0xff000000 :: uint) = push_bit 24 (mask 8)"
  by (simp_all add: mask_eq_exp_minus_1 push_bit_eq_mult)

lemma bit_lo: "bit (lo x) n \<longleftrightarrow> n < 8 \<and> bit x n"
  unfolding lo_def mask_bytes by (auto simp: bit_simps)

lemma bit_hi: "bit (hi x) n \<longleftrightarrow> n < 8 \<and> bit x (n + 8)"
  unfolding hi_def mask_bytes by (auto simp: bit_simps ac_simps)

lemma bit_hlo: "bit (hlo x) n \<longleftrightarrow> n < 8 \<and> bit x (n + 16)"
  unfolding hlo_def mask_bytes by (auto simp: bit_simps ac_simps)

lemma bit_hhi: "bit (hhi x) n \<longleftrightarrow> n < 8 \<and> bit x (n + 24)"
  unfolding hhi_def mask_bytes by (auto simp: bit_simps ac_simps)

lemmas bit_bytes = bit_lo bit_hi bit_hlo bit_hhi

lemma word32_le_bytes [byte_simps]: "word32_le (lo x) (hi x) (hlo x) (hhi x) = x"
proof (rule bit_word_eqI)
  fix n assume "n < LENGTH(32)"
  then show "bit (word32_le (lo x) (hi x) (hlo x) (hhi x)) n \<longleftrightarrow> bit x n"
    by (cases "24 \<le> n"; cases "16 \<le> n"; cases "8 \<le> n")
      (auto simp: word32_le_def bit_simps bit_bytes)
qed

lemma word16_le_bytes [byte_simps]: "word16_le (lo (ucast a)) (hi (ucast a)) = (a :: ushort)"
  unfolding word16_le_def
  by (rule bit_word_eqI) (auto simp: bit_simps bit_bytes not_less)

lemma lo_word16_le [byte_simps]: "lo (ucast (word16_le b0 b1)) = b0"
  unfolding word16_le_def
  by (rule bit_word_eqI) (auto simp: bit_simps bit_bytes)

lemma hi_word16_le [byte_simps]: "hi (ucast (word16_le b0 b1)) = b1"
  unfolding word16_le_def
  by (rule bit_word_eqI) (auto simp: bit_simps bit_bytes dest: bit_imp_le_length)

lemma lo_word32_le [byte_simps]: "lo (word32_le b0 b1 b2 b3) = b0"
  unfolding word32_le_def
  by (rule bit_word_eqI) (auto simp: bit_simps bit_bytes)

lemma word_of_int_short:
  assumes "0 \<le> k" "k < 65536"
  shows "(word_of_int k :: uint) = ucast (word_of_int k :: ushort)"
proof -
  have u: "uint (word_of_int k :: ushort) = k" using assms by (simp add: uint_word_of_int)
  have "ucast (word_of_int k :: ushort) = (word_of_int (uint (word_of_int k :: ushort)) :: uint)" by (rule ucast_eq)
  then show ?thesis using u by simp
qed

section \<open>Lists\<close>

lemma take_drop_chunk:
  "n \<le> length xs \<Longrightarrow> take n xs @ drop n xs = xs"
  by simp

lemma nth_append_shift: "(xs @ ys) ! (length xs + i) = ys ! i"
  by (simp add: nth_append)

lemma takeWhile_append_stop:
  "\<forall>x \<in> set xs. P x \<Longrightarrow> \<not> P y \<Longrightarrow> takeWhile P (xs @ y # ys) = xs"
  by (induction xs) auto

lemma dropWhile_append_stop:
  "\<forall>x \<in> set xs. P x \<Longrightarrow> \<not> P y \<Longrightarrow> dropWhile P (xs @ y # ys) = y # ys"
  by (induction xs) auto

lemma takeWhile_all: "\<forall>x \<in> set xs. P x \<Longrightarrow> takeWhile P xs = xs"
  by (induction xs) auto

section \<open>The data lines\<close>

text \<open>
  What passes between the host and the Commodore at a strobe of the host: \<open>Sent b\<close> while the host
  drives the lines with b; while it listens, \<open>Got b\<close> after it read b, and \<open>Ready\<close> before it read
  anything.
\<close>

datatype bus_event = Sent uchar | Ready | Got uchar

end
