(* ===== verification/Clib.thy ===== *)
theory Clib
  imports Prelude "HOL-Library.Char_ord" "HOL-Library.Sublist"
begin

text \<open>
  The part of the C standard library that the source calls on strings, as executable
  functions: isspace, strtol with base 0, strstr for one character, strcspn, the
  case-insensitive prefix test of strncasecmp, and the printf conversions. A C string is a
  \<open>string\<close> without its terminating zero.
\<close>

section \<open>Characters and digits\<close>

definition isspace :: "char \<Rightarrow> bool" where
  "isspace c \<longleftrightarrow> (of_char c :: int) \<in> {9, 10, 11, 12, 13, 32}"

definition isalpha :: "char \<Rightarrow> bool" where
  "isalpha c \<longleftrightarrow> (let k = (of_char c :: int) in 65 \<le> k \<and> k \<le> 90 \<or> 97 \<le> k \<and> k \<le> 122)"

definition tolower :: "char \<Rightarrow> char" where
  "tolower c = (let k = (of_char c :: int) in if 65 \<le> k \<and> k \<le> 90 then char_of (k + 32) else c)"

definition digit_val :: "char \<Rightarrow> int option" where
  "digit_val c =
     (let k = (of_char c :: int) in
      if 48 \<le> k \<and> k \<le> 57 then Some (k - 48)
      else if 97 \<le> k \<and> k \<le> 122 then Some (k - 87)
      else if 65 \<le> k \<and> k \<le> 90 then Some (k - 55)
      else None)"

definition is_digit :: "int \<Rightarrow> char \<Rightarrow> bool" where
  "is_digit base c = (case digit_val c of None \<Rightarrow> False | Some d \<Rightarrow> d < base)"

definition the_digit :: "char \<Rightarrow> int" where
  "the_digit c = (case digit_val c of None \<Rightarrow> 0 | Some d \<Rightarrow> d)"

section \<open>strtol with base 0\<close>

definition digits_value :: "int \<Rightarrow> string \<Rightarrow> int" where
  "digits_value base ds = foldl (\<lambda>v c. v * base + the_digit c) 0 ds"

fun strtol_sign :: "string \<Rightarrow> bool \<times> string" where
  "strtol_sign (c # s) =
     (if c = CHR ''-'' then (True, s) else if c = CHR ''+'' then (False, s) else (False, c # s))"
| "strtol_sign [] = (False, [])"

fun strtol_base :: "string \<Rightarrow> int \<times> string" where
  "strtol_base (z # x # d # s) =
     (if z = CHR ''0'' then
        if (x = CHR ''x'' \<or> x = CHR ''X'') \<and> is_digit 16 d then (16, d # s)
        else (8, z # x # d # s)
      else (10, z # x # d # s))"
| "strtol_base (z # s) = (if z = CHR ''0'' then (8, z # s) else (10, z # s))"
| "strtol_base [] = (10, [])"

definition long_max :: int where "long_max = 2 ^ 63 - 1"
definition long_min :: int where "long_min = - (2 ^ 63)"

definition strtol :: "string \<Rightarrow> int" where
  "strtol s =
     (let (neg, s1) = strtol_sign (dropWhile isspace s);
          (base, s2) = strtol_base s1;
          v = (digits_value base (takeWhile (is_digit base) s2))
      in max long_min (min long_max (if neg then - v else v)))"

text \<open>The same with base 10.\<close>

definition strtol10 :: "string \<Rightarrow> int" where
  "strtol10 s =
     (let (neg, s1) = strtol_sign (dropWhile isspace s);
          v = (digits_value 10 (takeWhile (is_digit 10) s1))
      in max long_min (min long_max (if neg then - v else v)))"

text \<open>Storing the \<open>long\<close> in an \<open>int\<close>, an unsigned short and an unsigned char.\<close>

definition int_of_long :: "int \<Rightarrow> int" where
  "int_of_long v = (v + 2 ^ 31) mod 2 ^ 32 - 2 ^ 31"

definition strtol_int :: "string \<Rightarrow> int" where
  "strtol_int s = int_of_long (strtol s)"

definition strtol_ushort :: "string \<Rightarrow> ushort" where
  "strtol_ushort s = word_of_int (strtol s)"

definition strtol_uchar :: "string \<Rightarrow> uchar" where
  "strtol_uchar s = word_of_int (strtol s)"

section \<open>Searching and comparing\<close>

definition strcspn :: "string \<Rightarrow> char \<Rightarrow> nat" where
  "strcspn s c = length (takeWhile (\<lambda>x. x \<noteq> c) s)"

text \<open>\<open>strstr(s, "c")\<close> for a one-character needle: the tail that starts at its first occurrence.\<close>

fun strstr1 :: "string \<Rightarrow> char \<Rightarrow> string option" where
  "strstr1 [] c = None"
| "strstr1 (x # s) c = (if x = c then Some (x # s) else strstr1 s c)"

definition strncmp0 :: "string \<Rightarrow> string \<Rightarrow> nat \<Rightarrow> bool" where
  "strncmp0 a b n \<longleftrightarrow> take n a = take n b"

definition strncasecmp0 :: "string \<Rightarrow> string \<Rightarrow> nat \<Rightarrow> bool" where
  "strncasecmp0 a b n \<longleftrightarrow> map tolower (take n a) = map tolower (take n b)"

section \<open>Printing numbers\<close>

definition digit_char :: "int \<Rightarrow> char" where
  "digit_char d = (if d < 10 then char_of (48 + d) else char_of (55 + d))"

function show_base :: "int \<Rightarrow> int \<Rightarrow> string" where
  "show_base b n =
     (if b < 2 \<or> n < b then [digit_char n] else show_base b (n div b) @ [digit_char (n mod b)])"
  by pat_completeness auto
termination
proof (relation "measure (\<lambda>(b, n). nat n)", goal_cases)
  case 1
  then show ?case by simp
next
  case (2 b n)
  then have "n div b < n" by (intro int_div_less_self) auto
  with 2 show ?case by auto
qed

declare show_base.simps [simp del]

definition show_dec :: "int \<Rightarrow> string" where
  "show_dec i = (if i < 0 then CHR ''-'' # show_base 10 (- i) else show_base 10 i)"

definition pad0 :: "nat \<Rightarrow> string \<Rightarrow> string" where
  "pad0 w s = replicate (w - length s) CHR ''0'' @ s"

text \<open>\<open>%04X\<close> and \<open>%02X\<close> of an \<open>int\<close>, which printf reads as unsigned.\<close>

definition show_hex :: "nat \<Rightarrow> int \<Rightarrow> string" where
  "show_hex w i = pad0 w (show_base 16 (i mod 2 ^ 32))"

section \<open>Reading back a printed decimal\<close>

lemma of_digit_char: "0 \<le> d \<Longrightarrow> d < 10 \<Longrightarrow> (of_char (digit_char d) :: int) = 48 + d"
  by (simp add: digit_char_def)

lemma digit_val_digit_char [simp]: "0 \<le> d \<Longrightarrow> d < 10 \<Longrightarrow> digit_val (digit_char d) = Some d"
  by (simp add: digit_val_def of_digit_char)

lemma is_digit_digit_char [simp]: "0 \<le> d \<Longrightarrow> d < 10 \<Longrightarrow> is_digit 10 (digit_char d)"
  by (simp add: is_digit_def)

lemma the_digit_digit_char [simp]: "0 \<le> d \<Longrightarrow> d < 10 \<Longrightarrow> the_digit (digit_char d) = d"
  by (simp add: the_digit_def)

lemma digits_value_snoc: "digits_value b (ds @ [c]) = digits_value b ds * b + the_digit c"
  by (simp add: digits_value_def)

lemma show_base_small: "n < 10 \<Longrightarrow> show_base 10 n = [digit_char n]"
  by (subst show_base.simps) simp

lemma show_base_step:
  "\<not> n < 10 \<Longrightarrow> show_base 10 n = show_base 10 (n div 10) @ [digit_char (n mod 10)]"
  by (subst show_base.simps) simp

lemma show_dec_induct [consumes 1, case_names small step]:
  fixes n :: int
  assumes "0 \<le> n"
    and "\<And>n. 0 \<le> n \<Longrightarrow> n < 10 \<Longrightarrow> P n"
    and "\<And>n. 10 \<le> n \<Longrightarrow> 0 < n div 10 \<Longrightarrow> P (n div 10) \<Longrightarrow> P n"
  shows "P n"
  using assms(1)
proof (induction "nat n" arbitrary: n rule: less_induct)
  case less
  show ?case
  proof (cases "n < 10")
    case True
    with less.prems assms(2) show ?thesis by simp
  next
    case False
    then have "n div 10 < n" by simp
    with False less.prems have "nat (n div 10) < nat n" by simp
    moreover have "0 < n div 10" using False by (simp add: pos_imp_zdiv_pos_iff)
    ultimately have "P (n div 10)" using less.hyps [of "n div 10"] by simp
    with assms(3) False \<open>0 < n div 10\<close> show ?thesis by simp
  qed
qed

lemma digits_value_show: "0 \<le> n \<Longrightarrow> digits_value 10 (show_base 10 n) = n"
proof (induction n rule: show_dec_induct)
  case (small n)
  then show ?case by (simp add: show_base_small digits_value_def)
next
  case (step n)
  then show ?case by (simp add: show_base_step digits_value_snoc)
qed

lemma show_base_digits: "0 \<le> n \<Longrightarrow> \<forall>c \<in> set (show_base 10 n). is_digit 10 c"
proof (induction n rule: show_dec_induct)
  case (small n)
  then show ?case by (simp add: show_base_small)
next
  case (step n)
  then show ?case by (simp add: show_base_step)
qed

lemma show_base_head:
  "0 < n \<Longrightarrow> \<exists>d ds. show_base 10 n = digit_char d # ds \<and> 0 < d \<and> d < 10"
proof -
  have "0 \<le> n \<Longrightarrow> 0 < n \<longrightarrow> (\<exists>d ds. show_base 10 n = digit_char d # ds \<and> 0 < d \<and> d < 10)"
  proof (induction n rule: show_dec_induct)
    case (small n)
    then show ?case by (auto simp: show_base_small)
  next
    case (step n)
    then show ?case by (auto simp: show_base_step)
  qed
  then show "0 < n \<Longrightarrow> ?thesis" by simp
qed

lemma digit_char_plain:
  assumes "0 < d" "d < 10"
  shows "\<not> isspace (digit_char d)" "digit_char d \<noteq> CHR ''-''" "digit_char d \<noteq> CHR ''+''"
    "digit_char d \<noteq> CHR ''0''"
proof -
  have oc: "(of_char (digit_char d) :: int) = 48 + d" using assms by (simp add: of_digit_char)
  then show "\<not> isspace (digit_char d)" using assms by (simp add: isspace_def)
  show "digit_char d \<noteq> CHR ''-''" "digit_char d \<noteq> CHR ''+''" "digit_char d \<noteq> CHR ''0''"
    using oc assms by auto
qed

lemma strtol_base_decimal: "z \<noteq> CHR ''0'' \<Longrightarrow> strtol_base (z # s) = (10, z # s)"
  by (cases s; cases "tl s") auto

lemma takeWhile_digits:
  assumes "\<forall>c \<in> set ds. is_digit b c" and "rest = [] \<or> \<not> is_digit b (hd rest)"
  shows "takeWhile (is_digit b) (ds @ rest) = ds"
  using assms by (cases rest) (auto simp: takeWhile_all takeWhile_append_stop)

text \<open>strtol reads a printed positive decimal back and stops at the first other character.\<close>

lemma strtol_show_dec:
  assumes "0 < n" "n \<le> long_max" and rest: "rest = [] \<or> \<not> is_digit 10 (hd rest)"
  shows "strtol (show_dec n @ rest) = n"
proof -
  obtain d ds where hd: "show_base 10 n = digit_char d # ds" and d: "0 < d" "d < 10"
    using show_base_head [OF assms(1)] by blast
  have tw: "takeWhile (is_digit 10) (show_base 10 n @ rest) = show_base 10 n"
    using assms(1) rest show_base_digits [of n] by (intro takeWhile_digits) auto
  have val: "digits_value 10 (show_base 10 n) = n"
    using assms(1) by (simp add: digits_value_show)
  have "strtol_sign (dropWhile isspace (show_dec n @ rest)) = (False, show_base 10 n @ rest)"
    using assms(1) d by (simp add: show_dec_def hd digit_char_plain)
  moreover have "strtol_base (show_base 10 n @ rest) = (10, show_base 10 n @ rest)"
    using d by (simp add: hd digit_char_plain strtol_base_decimal)
  ultimately show ?thesis
    using assms(1,2) by (simp add: strtol_def tw val long_min_def)
qed

lemma show_dec_head:
  assumes "0 < n"
  shows "\<exists>c s. show_dec n = c # s \<and> \<not> isspace c \<and> c \<noteq> CHR ''-''"
proof -
  obtain d ds where hd: "show_base 10 n = digit_char d # ds" and d: "0 < d" "d < 10"
    using show_base_head [OF assms] by blast
  then show ?thesis using assms by (simp add: show_dec_def digit_char_plain)
qed

lemma minus_not_digit: "is_digit 10 c \<Longrightarrow> c \<noteq> CHR ''-''"
  by (auto simp: is_digit_def digit_val_def)

lemma show_dec_no_minus: "0 \<le> n \<Longrightarrow> CHR ''-'' \<notin> set (show_dec n)"
  using show_base_digits [of n] minus_not_digit by (auto simp: show_dec_def)

lemma int_of_long_id: "- (2 ^ 31) \<le> v \<Longrightarrow> v < 2 ^ 31 \<Longrightarrow> int_of_long v = v"
  by (simp add: int_of_long_def)

lemma strtol_int_show_dec:
  assumes "0 < n" "n < 2 ^ 31" "rest = [] \<or> \<not> is_digit 10 (hd rest)"
  shows "strtol_int (show_dec n @ rest) = n"
  using assms by (simp add: strtol_int_def strtol_show_dec long_max_def int_of_long_id)

lemma strstr1_append: "c \<notin> set a \<Longrightarrow> strstr1 (a @ c # b) c = Some (c # b)"
  by (induction a) auto

lemma isspace_blank [simp]: "isspace CHR '' ''"
  by (simp add: isspace_def)

lemma strip_show_dec:
  assumes "\<forall>c \<in> set sp. c = CHR '' ''" and "0 < n"
  shows "dropWhile isspace (sp @ show_dec n @ t) = show_dec n @ t"
proof -
  obtain c ds where c: "show_dec n = c # ds" "\<not> isspace c"
    using show_dec_head [OF assms(2)] by blast
  have "\<forall>x \<in> set sp. isspace x" using assms(1) isspace_blank by metis
  then show ?thesis using c by (simp add: dropWhile_append_stop)
qed

end
