(* ===== verification/Range_Ops.thy ===== *)
theory Range_Ops
  imports Clib
begin

text \<open>
  The address ranges of range.c. A range has its start, its exclusive end and the bounds
  of the 64K address space; \<open>end = -1\<close> stands for "no end given". The fields are C
  \<open>int\<close>s, modelled as \<open>int\<close>: every value the program stores in them is far from the
  limits of 32 bits.
\<close>

section \<open>The type and its operations\<close>

record range =
  r_start :: int
  r_end :: int
  r_min :: int
  r_max :: int

definition range_new :: "int \<Rightarrow> int \<Rightarrow> range" where
  "range_new s e = \<lparr>r_start = s, r_end = e, r_min = 0, r_max = 0x10000\<rparr>"

definition range_new_from_int :: "uint \<Rightarrow> range" where
  "range_new_from_int r =
     (let s = uint (drop_bit 16 r);
          e = uint (r AND 0xffff);
          e = (if e = 0 then 0x10000 else e)
      in range_new s e)"

definition range_parse :: "string \<Rightarrow> range" where
  "range_parse str =
     (let self = range_new 0 0x10000 in
      if str = [] then self
      else
        let after = map_option tl (strstr1 str CHR ''-'');
            start = dropWhile isspace str;
            self = (if start \<noteq> [] \<and> hd start \<noteq> CHR ''-''
                    then self\<lparr>r_start := strtol_int start\<rparr> else self)
        in case after of
             None \<Rightarrow> self\<lparr>r_end := -1\<rparr>
           | Some e \<Rightarrow>
               (let e = dropWhile isspace e
                in if e \<noteq> [] then self\<lparr>r_end := strtol_int e\<rparr> else self))"

definition range_valid :: "range \<Rightarrow> bool" where
  "range_valid r \<longleftrightarrow>
     r_start r \<ge> r_min r \<and> r_start r \<le> r_max r \<and>
     r_end r \<ge> r_min r \<and> r_end r \<le> r_max r \<and>
     r_end r \<ge> r_start r"

definition range_size :: "range \<Rightarrow> int" where
  "range_size r = r_end r - r_start r"

definition range_equals :: "range \<Rightarrow> range \<Rightarrow> bool" where
  "range_equals a b \<longleftrightarrow> r_start a = r_start b \<and> r_end a = r_end b"

definition range_ends :: "range \<Rightarrow> bool" where
  "range_ends r \<longleftrightarrow> r_end r \<noteq> -1"

definition range_move :: "range \<Rightarrow> int \<Rightarrow> range" where
  "range_move r amount =
     (if amount = 0 then r
      else
        let amount = (if amount > 0 \<and> r_end r + amount > r_max r
                      then amount - ((r_end r + amount) - r_max r) else amount);
            amount = (if amount < 0 \<and> r_start r + amount < r_min r
                      then amount - (r_start r + amount) else amount)
        in r\<lparr>r_start := r_start r + amount, r_end := r_end r + amount\<rparr>)"

definition range_inside :: "range \<Rightarrow> range \<Rightarrow> bool" where
  "range_inside a b \<longleftrightarrow>
     (if range_equals a b then True else r_start a \<ge> r_start b \<and> r_end a \<le> r_end b)"

definition range_outside :: "range \<Rightarrow> range \<Rightarrow> bool" where
  "range_outside a b \<longleftrightarrow> \<not> range_inside a b"

definition range_overlaps :: "range \<Rightarrow> range \<Rightarrow> bool" where
  "range_overlaps a b \<longleftrightarrow>
     (if range_equals a b then True
      else
        (r_start a \<ge> r_start b \<and> r_start a \<le> r_end b) \<or>
        (r_end a \<ge> r_start b \<and> r_end a \<le> r_end b) \<or>
        (r_start b \<ge> r_start a \<and> r_start b \<le> r_end a) \<or>
        (r_end b \<ge> r_start a \<and> r_end b \<le> r_end a))"

text \<open>The text range_print writes.\<close>

definition range_print :: "range \<Rightarrow> string" where
  "range_print r = ''$'' @ show_hex 4 (r_start r) @ ''-$'' @ show_hex 4 (r_end r) @ ''\<newline>''"

section \<open>Addresses covered by a range\<close>

definition range_cells :: "range \<Rightarrow> int set" where
  "range_cells r = {r_start r ..< r_end r}"

lemma range_new_simps [simp]:
  "r_start (range_new s e) = s" "r_end (range_new s e) = e"
  "r_min (range_new s e) = 0" "r_max (range_new s e) = 0x10000"
  by (simp_all add: range_new_def)

lemma range_inside_iff:
  "range_inside a b \<longleftrightarrow> r_start a \<ge> r_start b \<and> r_end a \<le> r_end b"
  by (auto simp: range_inside_def range_equals_def)

lemma range_inside_cells: "range_inside a b \<Longrightarrow> range_cells a \<subseteq> range_cells b"
  by (auto simp: range_inside_iff range_cells_def)

lemma range_overlaps_sym: "range_overlaps a b = range_overlaps b a"
  by (auto simp: range_overlaps_def range_equals_def)

lemma range_overlaps_iff:
  "r_start a \<le> r_end a \<Longrightarrow> r_start b \<le> r_end b \<Longrightarrow>
   range_overlaps a b \<longleftrightarrow> r_start a \<le> r_end b \<and> r_start b \<le> r_end a"
  by (auto simp: range_overlaps_def range_equals_def)

lemma not_overlaps_disjoint:
  "\<not> range_overlaps a b \<Longrightarrow> range_cells a \<inter> range_cells b = {}"
  by (auto simp: range_overlaps_def range_equals_def range_cells_def split: if_splits)

section \<open>Properties\<close>

text \<open>For two well-ordered ranges \<open>range_overlaps\<close> says exactly that the closed intervals
  meet: it never misses a shared address, it is symmetric, and the only pairs it reports
  although they share no address are those where one range is empty or starts right where
  the other ends.\<close>

theorem range_overlaps_exact:
  assumes "r_start a \<le> r_end a" "r_start b \<le> r_end b"
  shows "range_overlaps a b \<longleftrightarrow>
           range_cells a \<inter> range_cells b \<noteq> {} \<or> r_start a = r_end b \<or> r_start b = r_end a
           \<or> (r_start a = r_end a \<and> r_start a \<in> range_cells b)
           \<or> (r_start b = r_end b \<and> r_start b \<in> range_cells a)"
proof
  assume ov: "range_overlaps a b"
  then have le: "r_start a \<le> r_end b" "r_start b \<le> r_end a"
    using assms by (auto simp: range_overlaps_iff)
  show "range_cells a \<inter> range_cells b \<noteq> {} \<or> r_start a = r_end b \<or> r_start b = r_end a
           \<or> (r_start a = r_end a \<and> r_start a \<in> range_cells b)
           \<or> (r_start b = r_end b \<and> r_start b \<in> range_cells a)"
  proof (cases "max (r_start a) (r_start b) < min (r_end a) (r_end b)")
    case True
    then have "max (r_start a) (r_start b) \<in> range_cells a \<inter> range_cells b"
      by (auto simp: range_cells_def)
    then show ?thesis by blast
  next
    case False
    with le assms show ?thesis by (auto simp: range_cells_def)
  qed
next
  assume "range_cells a \<inter> range_cells b \<noteq> {} \<or> r_start a = r_end b \<or> r_start b = r_end a
           \<or> (r_start a = r_end a \<and> r_start a \<in> range_cells b)
           \<or> (r_start b = r_end b \<and> r_start b \<in> range_cells a)"
  then show "range_overlaps a b"
    using assms by (auto simp: range_overlaps_iff range_cells_def)
qed

theorem range_overlaps_exact_witness:
  "range_overlaps (range_new 0x1000 0x2000) (range_new 0x2000 0x2800) \<and>
   range_cells (range_new 0x1000 0x2000) \<inter> range_cells (range_new 0x2000 0x2800) = {}"
proof -
  have "range_overlaps (range_new 0x1000 0x2000) (range_new 0x2000 0x2800)"
    using range_overlaps_exact [of "range_new 0x1000 0x2000" "range_new 0x2000 0x2800"] by simp
  then show ?thesis by (auto simp: range_cells_def)
qed

text \<open>Moving a valid range by any amount keeps it valid and keeps its size, and moves it
  exactly as far as the address space allows.\<close>

theorem range_move_clamps:
  assumes "range_valid r" "r_min r = 0"
  shows "range_valid (range_move r n) \<and> range_size (range_move r n) = range_size r \<and>
         r_start (range_move r n) =
           max 0 (min (r_max r - range_size r) (r_start r + n))"
  using assms by (auto simp: range_move_def range_valid_def range_size_def Let_def)

theorem range_move_clamps_witness:
  "range_valid (range_move (range_new 0x0801 0x3000) 0x80000) \<and>
   r_start (range_move (range_new 0x0801 0x3000) 0x80000) = 0xd801"
  using range_move_clamps [of "range_new 0x0801 0x3000" "0x80000"]
  by (simp add: range_valid_def range_size_def)

text \<open>Writing the decimal start and end of a range around a minus sign, with any spaces
  before each number, and parsing the text gives that range back.\<close>

theorem range_parse_show:
  assumes "0 < s" "s < 2 ^ 31" "0 < e" "e < 2 ^ 31"
    and "\<forall>c \<in> set sp1. c = CHR '' ''" "\<forall>c \<in> set sp2. c = CHR '' ''" "\<forall>c \<in> set sp3. c = CHR '' ''"
  shows "range_parse (sp1 @ show_dec s @ sp2 @ ''-'' @ sp3 @ show_dec e) = range_new s e"
proof -
  define after where "after = sp2 @ CHR ''-'' # sp3 @ show_dec e"
  define str where "str = sp1 @ show_dec s @ after"
  obtain c ds where c: "show_dec s = c # ds" "c \<noteq> CHR ''-''"
    using show_dec_head [OF assms(1)] by blast
  obtain c' ds' where c': "show_dec e = c' # ds'"
    using show_dec_head [OF assms(3)] by blast
  have "CHR ''-'' \<notin> set (sp1 @ show_dec s @ sp2)"
    using assms show_dec_no_minus [of s] by auto
  from strstr1_append [OF this, of "sp3 @ show_dec e"]
  have find: "strstr1 str CHR ''-'' = Some (CHR ''-'' # sp3 @ show_dec e)"
    by (simp add: str_def after_def)
  have start: "dropWhile isspace str = show_dec s @ after"
    using assms(1,5) by (simp add: strip_show_dec str_def)
  have "\<not> is_digit 10 (hd after)"
    using assms(6) by (cases sp2) (auto simp: after_def is_digit_def digit_val_def)
  then have sval: "strtol_int (show_dec s @ after) = s"
    using assms(1,2) by (intro strtol_int_show_dec) auto
  have eval: "strtol_int (show_dec e) = e"
    using strtol_int_show_dec [of e "[]"] assms(3,4) by simp
  have estart: "dropWhile isspace (sp3 @ show_dec e) = show_dec e"
    using strip_show_dec [of sp3 e "[]"] assms(3,7) by simp
  have "str \<noteq> []" using c by (simp add: str_def)
  moreover have "show_dec s @ after \<noteq> []" "hd (show_dec s @ after) \<noteq> CHR ''-''" "show_dec e \<noteq> []"
    using c c' by simp_all
  ultimately have "range_parse str = range_new s e"
    by (simp only: range_parse_def find start Let_def sval option.map option.case list.sel
        estart eval if_True if_False not_False_eq_True not_True_eq_False simp_thms)
      (simp add: range_new_def)
  then show ?thesis by (simp add: str_def after_def)
qed

theorem range_parse_show_witness:
  "range_parse ('' '' @ show_dec 1 @ '' '' @ ''-'' @ '' '' @ show_dec 5) = range_new 1 5"
  by (rule range_parse_show) simp_all

end
