(* ===== verification/Testsuite.thy ===== *)
theory Testsuite
  imports Range_Ops
begin

text \<open>
  testsuite.c: the program's own tests of range.c, run on the model. A failing \<open>check\<close> ends
  the program with its message; the output of the passing ones is not modelled.
\<close>

fun check :: "(bool \<times> string) list \<Rightarrow> string option" where
  "check [] = None"
| "check ((condition, message) # rest) = (if \<not> condition then Some message else check rest)"

definition test_parse :: "string \<Rightarrow> int \<Rightarrow> int \<Rightarrow> (bool \<times> string) list" where
  "test_parse str s e = [(range_equals (range_new s e) (range_parse str), ''Parsing failed...'')]"

definition test_moves :: "(bool \<times> string) list" where
  "test_moves =
     (let r = range_new 0x0801 0x3000; other = range_new 0x0801 0x3000;
          r1 = range_move r 0x1000; r2 = range_move r1 (- 0x1000); r3 = range_move r2 (- 0x1000);
          r4 = range_move r3 0x80000
      in [(r_start r = 0x0801 \<and> r_end r = 0x3000, ''Range not $0801-$3000''),
          (range_size r = 0x27ff, ''Range size is not $27ff''),
          (range_equals r other, ''Ranges are not equal''),
          (r_start r1 = 0x1801 \<and> r_end r1 = 0x4000, ''Range not moved to $1801-$4000''),
          (r_start r2 = 0x0801 \<and> r_end r2 = 0x3000, ''Range not moved back to $0801-$3000''),
          (r_start r3 = 0x0000 \<and> r_end r3 = 0x27ff, ''Range not moved to $0000-$27ff''),
          (r_start r4 = 0xd801 \<and> r_end r4 = 0x10000, ''Range not moved to $d801-$10000'')])"

definition test_from_int :: "(bool \<times> string) list" where
  "test_from_int =
     [(range_equals (range_new_from_int 0xc000d000) (range_new 0xc000 0xd000),
       ''Range from int 0xc000d000 does not equal range $c000-$d000'')]"

definition test_overlaps :: "(bool \<times> string) list" where
  "test_overlaps =
     (let r = range_new 0x1000 0x2000; other = range_new 0x1800 0x2800; moved = range_move other 0x4000
      in [(range_overlaps r other, ''Ranges don't overlap''), (range_overlaps other r, ''Ranges don't overlap''),
          (\<not> range_overlaps r moved, ''Ranges overlap''), (\<not> range_overlaps moved r, ''Ranges overlap'')])"

definition test_inside :: "(bool \<times> string) list" where
  "test_inside =
     (let r = range_new 0x1000 0x2000; other = range_new 0x0800 0x2800;
          other1 = other\<lparr>r_start := 0x1000\<rparr>; other2 = other1\<lparr>r_start := 0x0800, r_end := 0x2000\<rparr>
      in [(range_inside r other, ''Range $1000-$2000 not within Range $0800-$2800''),
          (range_inside r other1, ''Range $1000-$2000 not within Range $1000-$2800''),
          (range_inside r other2, ''Range $1000-$2000 not within Range $0800-$2000'')])"

definition test_valid :: "(bool \<times> string) list" where
  "test_valid =
     (let r = range_new (- 23) 34
      in [(\<not> range_valid r, ''Range -23-34 is falsely considered valid''),
          (range_valid (r\<lparr>r_start := 0\<rparr>), ''Range 0-34 is falsely considered invalid'')])"

definition test_overlaps2 :: "(bool \<times> string) list" where
  "test_overlaps2 =
     (let r = range_new 0x080e 0x0af7; other = range_new 0x0801 0x2b77
      in [(range_overlaps r other, ''Ranges $080e-$0af7 and $0801-$2b77 don't overlap''),
          (range_overlaps other r, ''Ranges $0801-$2b77 and $080e-$0af7 don't overlap'')])"

definition test_parses :: "(bool \<times> string) list" where
  "test_parses =
     test_parse ''1-5'' 1 5 @ test_parse '' 1 - 5'' 1 5 @ test_parse [] 0 0x10000 @ test_parse ''5-'' 5 0x10000 @
     test_parse ''5 -  '' 5 0x10000 @ test_parse ''-200'' 0 200 @ test_parse '' -  200'' 0 200 @
     test_parse ''0xd000-0x10000'' 0xd000 0x10000 @ test_parse ''0xa000'' 0xa000 (- 1)"

definition test_range :: "(bool \<times> string) list" where
  "test_range =
     test_moves @ test_from_int @ test_overlaps @ test_inside @ test_valid @ test_overlaps2 @ test_parses"

lemma test_range_passes: "check test_range = None"
  by code_simp

end
