(* ===== verification/Util.thy ===== *)
theory Util
  imports Clib
begin

text \<open>
  util.c: the string list, the logger with its context stack, the stop watch and chunked
  processing. The stop watch reads the clock of the environment, which is a parameter.
\<close>

section \<open>StringList\<close>

text \<open>The growing array of copied strings is the list of its strings.\<close>

type_synonym stringlist = "string list"

definition stringlist_new :: stringlist where
  "stringlist_new = []"

definition stringlist_append :: "stringlist \<Rightarrow> string \<Rightarrow> stringlist" where
  "stringlist_append self str = self @ [str]"

text \<open>strtok skips leading delimiters and cuts at the next one; the pieces are appended.\<close>

function stringlist_append_tokenized :: "stringlist \<Rightarrow> string \<Rightarrow> string \<Rightarrow> stringlist" where
  "stringlist_append_tokenized self str delim =
     (let start = dropWhile (\<lambda>c. c \<in> set delim) str in
      if start = [] then self
      else
        let sub = takeWhile (\<lambda>c. c \<notin> set delim) start;
            rest = drop (length sub + 1) start
        in stringlist_append_tokenized (stringlist_append self sub) rest delim)"
  by pat_completeness auto
termination
proof (relation "measure (\<lambda>(self, str, delim). length str)", goal_cases)
  case 1
  then show ?case by simp
next
  case (2 self str delim start sub rest)
  from 2 have "length start \<le> length str" by (simp add: length_dropWhile_le)
  moreover have "length rest < length start"
    using 2(2,4) by (cases start) simp_all
  ultimately show ?case by simp
qed

declare stringlist_append_tokenized.simps [simp del]

definition stringlist_last :: "stringlist \<Rightarrow> string option" where
  "stringlist_last self = (if self = [] then None else Some (last self))"

text \<open>Removing from an empty list reads before the array, so there is no result then.\<close>

definition stringlist_remove_last :: "stringlist \<Rightarrow> stringlist option" where
  "stringlist_remove_last self = (if self = [] then None else Some (butlast self))"

lemma remove_last_append [simp]:
  "stringlist_remove_last (stringlist_append xs x) = Some xs"
  by (simp add: stringlist_remove_last_def stringlist_append_def)

section \<open>Logger\<close>

definition LOGLEVEL_NONE :: int where "LOGLEVEL_NONE = 0"
definition LOGLEVEL_ERROR :: int where "LOGLEVEL_ERROR = 1"
definition LOGLEVEL_WARN :: int where "LOGLEVEL_WARN = 2"
definition LOGLEVEL_INFO :: int where "LOGLEVEL_INFO = 3"
definition LOGLEVEL_DEBUG :: int where "LOGLEVEL_DEBUG = 4"
definition LOGLEVEL_TRACE :: int where "LOGLEVEL_TRACE = 5"
definition LOGLEVEL_ALL :: int where "LOGLEVEL_ALL = 6"

lemmas loglevel_defs = LOGLEVEL_NONE_def LOGLEVEL_ERROR_def LOGLEVEL_WARN_def LOGLEVEL_INFO_def
  LOGLEVEL_DEBUG_def LOGLEVEL_TRACE_def LOGLEVEL_ALL_def

text \<open>
  An argument of a format: an \<open>int\<close>, a string, or a \<open>double\<close>, which is given by the text
  that printf renders for it. A log entry is what one call of \<open>logger->log\<close> that passes
  the level test writes: its level, the innermost context, the format and the arguments.
\<close>

datatype arg = Aint int | Astr string | Adbl string

record log_entry =
  le_level :: int
  le_context :: "string option"
  le_format :: string
  le_args :: "arg list"

record logger =
  lg_level :: int
  lg_context :: "stringlist option"
  lg_enabled :: bool
  lg_output :: "log_entry list"

definition logger_init :: logger where
  "logger_init = \<lparr>lg_level = LOGLEVEL_INFO, lg_context = None, lg_enabled = True, lg_output = []\<rparr>"

definition logger_log :: "int \<Rightarrow> string \<Rightarrow> arg list \<Rightarrow> logger \<Rightarrow> logger" where
  "logger_log level fmt args lg =
     (if level > lg_level lg \<or> \<not> lg_enabled lg then lg
      else lg\<lparr>lg_output := lg_output lg @
        [\<lparr>le_level = level,
          le_context = (case lg_context lg of None \<Rightarrow> None | Some c \<Rightarrow> stringlist_last c),
          le_format = fmt, le_args = args\<rparr>]\<rparr>)"

definition logger_error :: "string \<Rightarrow> arg list \<Rightarrow> logger \<Rightarrow> logger" where
  "logger_error = logger_log LOGLEVEL_ERROR"
definition logger_warn :: "string \<Rightarrow> arg list \<Rightarrow> logger \<Rightarrow> logger" where
  "logger_warn = logger_log LOGLEVEL_WARN"
definition logger_info :: "string \<Rightarrow> arg list \<Rightarrow> logger \<Rightarrow> logger" where
  "logger_info = logger_log LOGLEVEL_INFO"
definition logger_debug :: "string \<Rightarrow> arg list \<Rightarrow> logger \<Rightarrow> logger" where
  "logger_debug = logger_log LOGLEVEL_DEBUG"
definition logger_trace :: "string \<Rightarrow> arg list \<Rightarrow> logger \<Rightarrow> logger" where
  "logger_trace = logger_log LOGLEVEL_TRACE"

definition logger_set :: "string \<Rightarrow> logger \<Rightarrow> logger" where
  "logger_set level lg =
     (let current_level = lg_level lg in
      if strncasecmp0 level ''NONE'' 4 then lg\<lparr>lg_level := LOGLEVEL_NONE\<rparr>
      else if strncasecmp0 level ''ERROR'' 5 then lg\<lparr>lg_level := LOGLEVEL_ERROR\<rparr>
      else if strncasecmp0 level ''WARN'' 4 then lg\<lparr>lg_level := LOGLEVEL_WARN\<rparr>
      else if strncasecmp0 level ''INFO'' 4 then lg\<lparr>lg_level := LOGLEVEL_INFO\<rparr>
      else if strncasecmp0 level ''DEBUG'' 5 then lg\<lparr>lg_level := LOGLEVEL_DEBUG\<rparr>
      else if strncasecmp0 level ''TRACE'' 5 then lg\<lparr>lg_level := LOGLEVEL_TRACE\<rparr>
      else if strncasecmp0 level ''ALL'' 3 then lg\<lparr>lg_level := LOGLEVEL_ALL\<rparr>
      else (logger_warn ''unkown loglevel \"%s\"'' [Astr level] (lg\<lparr>lg_level := LOGLEVEL_WARN\<rparr>))
             \<lparr>lg_level := current_level\<rparr>)"

definition logger_inc :: "logger \<Rightarrow> logger" where
  "logger_inc lg = (if lg_level lg < LOGLEVEL_ALL then lg\<lparr>lg_level := lg_level lg + 1\<rparr> else lg)"

definition logger_dec :: "logger \<Rightarrow> logger" where
  "logger_dec lg = (if lg_level lg > LOGLEVEL_NONE then lg\<lparr>lg_level := lg_level lg - 1\<rparr> else lg)"

definition logger_enter :: "string \<Rightarrow> logger \<Rightarrow> logger" where
  "logger_enter ctx lg =
     (let c = (case lg_context lg of None \<Rightarrow> stringlist_new | Some c \<Rightarrow> c)
      in lg\<lparr>lg_context := Some (stringlist_append c ctx)\<rparr>)"

definition logger_leave :: "logger \<Rightarrow> logger option" where
  "logger_leave lg =
     (case lg_context lg of
        None \<Rightarrow> None
      | Some c \<Rightarrow>
          (case stringlist_remove_last c of
             None \<Rightarrow> None
           | Some c' \<Rightarrow> Some (lg\<lparr>lg_context := Some c'\<rparr>)))"

definition logger_suspend :: "logger \<Rightarrow> logger" where
  "logger_suspend lg = lg\<lparr>lg_enabled := False\<rparr>"

definition logger_resume :: "logger \<Rightarrow> logger" where
  "logger_resume lg = lg\<lparr>lg_enabled := True\<rparr>"

text \<open>Only entering and leaving change the context stack.\<close>

lemma logger_context [simp]:
  "lg_context (logger_log level fmt args l) = lg_context l"
  "lg_context (logger_error fmt args l) = lg_context l"
  "lg_context (logger_warn fmt args l) = lg_context l"
  "lg_context (logger_info fmt args l) = lg_context l"
  "lg_context (logger_debug fmt args l) = lg_context l"
  "lg_context (logger_trace fmt args l) = lg_context l"
  "lg_context (logger_suspend l) = lg_context l"
  "lg_context (logger_resume l) = lg_context l"
  by (simp_all add: logger_log_def logger_error_def logger_warn_def logger_info_def logger_debug_def
      logger_trace_def logger_suspend_def logger_resume_def)

lemma logger_set_context [simp]: "lg_context (logger_set level l) = lg_context l"
  by (simp add: logger_set_def Let_def)

section \<open>Rendering of a log entry\<close>

text \<open>
  The loop of \<open>_logger_log\<close> copies a piece of the format into \<open>char format[256]\<close>, prints it
  and goes on behind it. \<open>None\<close> is undefined behaviour: a piece that does not fit the buffer,
  a directive that runs past the end of the format, or a missing argument.
\<close>

definition printf_int :: "string \<Rightarrow> int \<Rightarrow> string \<Rightarrow> string" where
  "printf_int flags i body =
     (if flags \<noteq> [] \<and> hd flags = CHR ''0'' then pad0 (nat (digits_value 10 (tl flags))) body else body)"

definition unsigned_of :: "int \<Rightarrow> int" where
  "unsigned_of i = i mod 2 ^ 32"

fun printf_directive :: "string \<Rightarrow> char \<Rightarrow> arg \<Rightarrow> string" where
  "printf_directive flags c (Aint i) =
     (if c = CHR ''d'' \<or> c = CHR ''i'' then printf_int flags i (show_dec i)
      else if c = CHR ''u'' then printf_int flags i (show_dec (unsigned_of i))
      else if c = CHR ''o'' then printf_int flags i (show_base 8 (unsigned_of i))
      else if c = CHR ''X'' then printf_int flags i (show_base 16 (unsigned_of i))
      else if c = CHR ''x'' then printf_int flags i (map tolower (show_base 16 (unsigned_of i)))
      else [char_of (i mod 256)])"
| "printf_directive flags c (Astr s) = s"
| "printf_directive flags c (Adbl s) = s"

definition is_conversion :: "char \<Rightarrow> bool" where
  "is_conversion c \<longleftrightarrow> c \<in> set ''dioxXucsfeEgGp''"

text \<open>The directive scanner: from the percent sign up to the first letter or a second percent.\<close>

fun scan_directive :: "string \<Rightarrow> (string \<times> char \<times> string) option" where
  "scan_directive [] = None"
| "scan_directive (c # s) =
     (if isalpha c \<or> c = CHR ''%'' then Some ([], c, s)
      else (case scan_directive s of None \<Rightarrow> None | Some (fl, d, r) \<Rightarrow> Some (c # fl, d, r)))"

lemma scan_directive_length: "scan_directive s = Some (fl, d, r) \<Longrightarrow> length r < length s"
  by (induction s arbitrary: fl d r) (auto split: if_splits option.splits)

function render :: "string \<Rightarrow> arg list \<Rightarrow> nat \<Rightarrow> string option" where
  "render [] args count = Some []"
| "render (f # fmt) args count =
     (if f \<noteq> CHR ''%'' then
        (let lit = takeWhile (\<lambda>c. c \<noteq> CHR ''%'') (f # fmt) in
         if length lit \<ge> 256 then None
         else map_option ((@) lit) (render (drop (length lit) (f # fmt)) args (count + length lit)))
      else
        (case scan_directive fmt of
           None \<Rightarrow> None
         | Some (fl, c, rest) \<Rightarrow>
             if length fl + 2 \<ge> 256 then None
             else if c = CHR ''%'' then map_option ((@) ''%'') (render rest args (count + 1))
             else if c = CHR ''n'' then
               (let t = show_dec (int count) in
                map_option ((@) t) (render rest args (count + length t)))
             else if is_conversion c then
               (case args of
                  [] \<Rightarrow> None
                | a # as \<Rightarrow>
                    (let t = printf_directive fl c a in
                     map_option ((@) t) (render rest as (count + length t))))
             else map_option ((@) (''Invalid format specifier '' @ [char_of (39::nat), c, char_of (39::nat)]))
                    (render rest args count)))"
  by pat_completeness auto
termination
proof (relation "measure (\<lambda>(fmt, args, count). length fmt)", goal_cases)
  case 1
  then show ?case by simp
next
  case (2 f fmt args count lit)
  then have "length lit \<noteq> 0" by simp
  then show ?case by simp
qed (auto dest: scan_directive_length)

declare render.simps(2) [simp del]

definition level_prefix :: "int \<Rightarrow> string" where
  "level_prefix level =
     (if level = LOGLEVEL_ERROR then ''error: ''
      else if level = LOGLEVEL_WARN then ''warning: '' else [])"

definition context_prefix :: "string option \<Rightarrow> string" where
  "context_prefix ctx = (case ctx of None \<Rightarrow> [] | Some c \<Rightarrow> c @ '': '')"

definition logger_text :: "log_entry \<Rightarrow> string option" where
  "logger_text e =
     map_option (\<lambda>t. context_prefix (le_context e) @ level_prefix (le_level e) @ t @ ''\<newline>'')
       (render (le_format e) (le_args e) 0)"

section \<open>Watch\<close>

text \<open>
  Times are pairs of seconds and microseconds, as in \<open>struct timeval\<close>. The elapsed time in
  milliseconds is a \<open>double\<close> in the source; the model keeps it exactly, in microseconds.
\<close>

type_synonym timeval = "int \<times> int"

definition watch_elapsed_us :: "timeval \<Rightarrow> timeval \<Rightarrow> int" where
  "watch_elapsed_us start now = (fst now - fst start) * 1000000 + (snd now - snd start)"

text \<open>The comparison \<open>watch_elapsed(watch) >= timeout\<close>.\<close>

definition watch_expired :: "timeval \<Rightarrow> timeval \<Rightarrow> int \<Rightarrow> bool" where
  "watch_expired start now timeout \<longleftrightarrow> watch_elapsed_us start now \<ge> timeout * 1000"

section \<open>Chunked processing\<close>

text \<open>
  The do-while loop of \<open>chunked\<close>. A chunk size of 0 with a positive size never ends, which is
  \<open>None\<close>, as is a callback that does not return.
\<close>

partial_function (option) chunked ::
  "(ushort \<Rightarrow> 's \<Rightarrow> (bool \<times> 's) option) \<Rightarrow> ushort \<Rightarrow> int \<Rightarrow> 's \<Rightarrow> (bool \<times> 's) option" where
  "chunked callback chunk sz s =
     (if sz > uint chunk then
        do { (result, s) \<leftarrow> callback chunk s;
             if \<not> result then Some (result, s)
             else if sz - uint chunk > 0 then chunked callback chunk (sz - uint chunk) s
             else Some (result, s) }
      else
        do { (result, s) \<leftarrow> callback (word_of_int sz) s;
             Some (result, s) })"

declare chunked.simps [code]

text \<open>The reference: the list of chunk sizes, and running a callback on such a list.\<close>

fun chunk_sizes_from :: "nat \<Rightarrow> nat \<Rightarrow> nat \<Rightarrow> ushort list" where
  "chunk_sizes_from 0 c n = []"
| "chunk_sizes_from (Suc k) c n =
     (if n > c then word_of_nat c # chunk_sizes_from k c (n - c) else [word_of_nat n])"

definition chunk_sizes :: "ushort \<Rightarrow> nat \<Rightarrow> ushort list" where
  "chunk_sizes c n = chunk_sizes_from (Suc n) (unat c) n"

fun run_chunks ::
  "(ushort \<Rightarrow> 's \<Rightarrow> (bool \<times> 's) option) \<Rightarrow> ushort list \<Rightarrow> 's \<Rightarrow> (bool \<times> 's) option" where
  "run_chunks cb [] s = Some (True, s)"
| "run_chunks cb (c # cs) s =
     do { (result, s) \<leftarrow> cb c s;
          if \<not> result then Some (False, s) else run_chunks cb cs s }"

lemma chunk_sizes_from_fuel:
  "0 < c \<Longrightarrow> n < k \<Longrightarrow> n < k' \<Longrightarrow> chunk_sizes_from k c n = chunk_sizes_from k' c n"
proof (induction k arbitrary: k' n)
  case 0
  then show ?case by simp
next
  case (Suc k)
  then obtain j where j: "k' = Suc j" by (cases k') auto
  show ?case
  proof (cases "n > c")
    case True
    with Suc.prems j have "n - c < k" "n - c < j" by linarith+
    with True j Suc.IH [of "n - c" j] Suc.prems show ?thesis by simp
  next
    case False
    with j show ?thesis by simp
  qed
qed

lemma unat_pos: "c \<noteq> 0 \<Longrightarrow> 0 < unat (c :: 'a::len word)"
  by (simp add: unat_gt_0)

lemma chunk_sizes_rec:
  assumes "c \<noteq> 0"
  shows "chunk_sizes c n =
    (if n > unat c then c # chunk_sizes c (n - unat c) else [word_of_nat n])"
proof -
  have p: "0 < unat c" using assms by (rule unat_pos)
  then have "n > unat c \<Longrightarrow> chunk_sizes_from n (unat c) (n - unat c)
      = chunk_sizes_from (Suc (n - unat c)) (unat c) (n - unat c)"
    by (intro chunk_sizes_from_fuel) auto
  with p show ?thesis by (simp add: chunk_sizes_def)
qed

lemma word_of_nat_small:
  fixes c :: "'a::len word"
  assumes "n \<le> unat c"
  shows "unat (word_of_nat n :: 'a word) = n"
proof -
  have "n < 2 ^ LENGTH('a)" using assms unsigned_less [of c] by (metis le_less_trans)
  then show ?thesis by (simp add: unat_of_nat take_bit_nat_eq_self)
qed

lemma chunk_sizes_induct [consumes 1, case_names more last]:
  fixes c :: ushort
  assumes "c \<noteq> 0"
    and "\<And>n. n > unat c \<Longrightarrow> P (n - unat c) \<Longrightarrow> P n"
    and "\<And>n. n \<le> unat c \<Longrightarrow> P n"
  shows "P n"
proof (induction n rule: less_induct)
  case (less n)
  show ?case
  proof (cases "n > unat c")
    case True
    have "0 < unat c" using assms(1) by (rule unat_pos)
    with True have "n - unat c < n" by linarith
    with less assms(2) True show ?thesis by blast
  next
    case False
    with assms(3) show ?thesis by simp
  qed
qed

lemma chunk_sizes_sum:
  assumes c: "c \<noteq> 0"
  shows "sum_list (map unat (chunk_sizes c n)) = n"
  using c
proof (induction n rule: chunk_sizes_induct)
  case (more n)
  with c show ?case by (simp add: chunk_sizes_rec [OF c, of n])
next
  case (last n)
  with c show ?case by (simp add: chunk_sizes_rec [OF c, of n] word_of_nat_small)
qed

lemma chunk_sizes_le:
  assumes c: "c \<noteq> 0"
  shows "\<forall>x \<in> set (chunk_sizes c n). unat x \<le> unat c"
  using c
proof (induction n rule: chunk_sizes_induct)
  case (more n)
  with c show ?case by (simp add: chunk_sizes_rec [OF c, of n])
next
  case (last n)
  with c show ?case by (simp add: chunk_sizes_rec [OF c, of n] word_of_nat_small)
qed

text \<open>A positive size cut into chunks leaves no empty chunk.\<close>

lemma chunk_sizes_nonzero:
  assumes c: "c \<noteq> 0"
  shows "0 < n \<longrightarrow> (\<forall>x \<in> set (chunk_sizes c n). x \<noteq> 0)"
  using c
proof (induction n rule: chunk_sizes_induct)
  case (more n)
  with c show ?case by (simp add: chunk_sizes_rec [OF c, of n])
next
  case (last n)
  then have "unat (word_of_nat n :: ushort) = n" by (intro word_of_nat_small)
  with last c show ?case by (auto simp: chunk_sizes_rec [OF c, of n])
qed

lemma chunked_run_chunks:
  assumes c: "c \<noteq> 0"
  shows "chunked cb c (int n) s = run_chunks cb (chunk_sizes c n) s"
  using c
proof (induction n arbitrary: s rule: chunk_sizes_induct)
  case (more n)
  have "uint c = int (unat c)" by simp
  then have eq: "int n - uint c = int (n - unat c)" "uint c < int n" "int (n - unat c) > 0"
    using more.hyps by linarith+
  show ?case
    unfolding chunked.simps [of cb c "int n"] chunk_sizes_rec [OF c, of n] eq(1)
    using more.hyps eq(2,3) more.IH by (cases "cb c s") (auto simp del: of_nat_diff)
next
  case (last n)
  have "uint c = int (unat c)" by simp
  then have "\<not> uint c < int n" using last.hyps by linarith
  then show ?case
    unfolding chunked.simps [of cb c "int n"] chunk_sizes_rec [OF c, of n]
    using last.hyps by (cases "cb (word_of_nat n) s") auto
qed

text \<open>
  The contract between \<open>chunked\<close> and a callback that counts the bytes it has moved: a chunk
  that succeeds counts fully, one that fails counts strictly less.
\<close>

locale chunk_callback =
  fixes cb :: "ushort \<Rightarrow> 's \<Rightarrow> (bool \<times> 's) option"
    and completed :: "'s \<Rightarrow> uint"
  assumes full: "cb c s = Some (True, s') \<Longrightarrow> completed s' = completed s + ucast c"
    and short: "cb c s = Some (False, s') \<Longrightarrow> c \<noteq> 0 \<Longrightarrow>
      \<exists>k < unat c. completed s' = completed s + word_of_nat k"
begin

lemma run_chunks_done:
  "run_chunks cb cs s = Some (True, s') \<Longrightarrow>
   completed s' = completed s + word_of_nat (sum_list (map unat cs))"
proof (induction cs arbitrary: s)
  case Nil
  then show ?case by simp
next
  case (Cons c cs)
  then obtain t where t: "cb c s = Some (True, t)" "run_chunks cb cs t = Some (True, s')"
    by (auto simp: bind_iff split: if_splits)
  from Cons.IH [OF t(2)] full [OF t(1)] show ?case
    by simp
qed

lemma run_chunks_short:
  "run_chunks cb cs s = Some (False, s') \<Longrightarrow> \<forall>c \<in> set cs. c \<noteq> 0 \<Longrightarrow>
   \<exists>k < sum_list (map unat cs). completed s' = completed s + word_of_nat k"
proof (induction cs arbitrary: s)
  case Nil
  then show ?case by simp
next
  case (Cons c cs)
  then obtain r t where t: "cb c s = Some (r, t)"
    and rest: "if r then run_chunks cb cs t = Some (False, s') else t = s'"
    by (auto simp: bind_iff split: if_splits)
  show ?case
  proof (cases r)
    case True
    with rest Cons.IH [of t] Cons.prems(2) obtain k where
      k: "k < sum_list (map unat cs)" "completed s' = completed t + word_of_nat k"
      by auto
    with t True full have "completed s' = completed s + word_of_nat (unat c + k)"
      by simp
    with k(1) show ?thesis by (intro exI [of _ "unat c + k"]) simp
  next
    case False
    with t rest Cons.prems(2) short [of c s s'] obtain k where
      "k < unat c" "completed s' = completed s + word_of_nat k" by auto
    then show ?thesis by (intro exI [of _ k]) simp
  qed
qed

end

context chunk_callback begin

lemma chunked_counts:
  assumes run: "chunked cb c (int n) s = Some (r, s')" and "c \<noteq> 0" "0 < n" "n < 2 ^ 32"
  shows "r \<longleftrightarrow> completed s' = completed s + word_of_nat n"
proof -
  have rc: "run_chunks cb (chunk_sizes c n) s = Some (r, s')"
    using run chunked_run_chunks [OF assms(2), of cb n s] by simp
  have sum: "sum_list (map unat (chunk_sizes c n)) = n"
    using assms(2) by (rule chunk_sizes_sum)
  show ?thesis
  proof (cases r)
    case True
    with rc run_chunks_done [of "chunk_sizes c n" s s'] sum show ?thesis by simp
  next
    case False
    with rc obtain k where k: "k < n" "completed s' = completed s + word_of_nat k"
      using run_chunks_short [of "chunk_sizes c n" s s'] chunk_sizes_nonzero [OF assms(2), of n] assms(3) sum
      by auto
    have "(word_of_nat k :: uint) \<noteq> word_of_nat n"
      using k(1) assms(4) by (auto simp: word_of_nat_eq_iff take_bit_nat_eq_self)
    with False k(2) show ?thesis by simp
  qed
qed

end

text \<open>The parts of a buffer that chunks of the given sizes carry.\<close>

fun pieces :: "ushort list \<Rightarrow> 'a list \<Rightarrow> 'a list list" where
  "pieces [] xs = []"
| "pieces (c # cs) xs = take (unat c) xs # pieces cs (drop (unat c) xs)"

lemma concat_pieces: "length xs \<le> sum_list (map unat cs) \<Longrightarrow> concat (pieces cs xs) = xs"
proof (induction cs arbitrary: xs)
  case (Cons c cs)
  then have "concat (pieces cs (drop (unat c) xs)) = drop (unat c) xs" by simp
  then show ?case by simp
qed simp

lemma pieces_length: "p \<in> set (pieces cs xs) \<Longrightarrow> \<forall>c \<in> set cs. unat c \<le> n \<Longrightarrow> length p \<le> n"
  by (induction cs arbitrary: xs) auto

text \<open>A callback that keeps something keeps it over all chunks.\<close>

lemma chunked_keeps:
  assumes "chunked cb c n s = Some (r, s')"
    and cb: "\<And>c s r s'. cb c s = Some (r, s') \<Longrightarrow> f s' = f s"
  shows "f s' = f s"
proof -
  have "(\<forall>c s r s'. cb c s = Some (r, s') \<longrightarrow> f s' = f s) \<longrightarrow> f (snd (r, s')) = f s"
    by (rule chunked.raw_induct [where P = "\<lambda>cb c n s y. (\<forall>c s r s'. cb c s = Some (r, s') \<longrightarrow> f s' = f s) \<longrightarrow> f (snd y) = f s",
          OF _ assms(1)])
      (fastforce simp: bind_iff split: if_splits)
  with cb show ?thesis by auto
qed

section \<open>Properties\<close>

text \<open>Chunked processing of a size runs the callback on the list of chunks that has the full
  chunk as often as it fits and then the rest, up to the first failure; these chunks are
  at most the chunk size and add up to the size exactly.\<close>

theorem chunked_covers_size:
  assumes "c \<noteq> 0"
  shows "chunked cb c (int n) s = run_chunks cb (chunk_sizes c n) s \<and>
         sum_list (map unat (chunk_sizes c n)) = n \<and>
         (\<forall>x \<in> set (chunk_sizes c n). unat x \<le> unat c)"
  using assms by (simp add: chunked_run_chunks chunk_sizes_sum chunk_sizes_le)

theorem chunked_covers_size_witness:
  "chunked (\<lambda>c s. Some (True, s @ [c])) 16 (int 40) [] = Some (True, [16, 16, 8]) \<and>
   sum_list (map unat (chunk_sizes 16 40)) = 40"
proof -
  have "chunk_sizes 16 40 = [16, 16, 8]"
    by code_simp
  then show ?thesis
    using chunked_covers_size [of 16 "\<lambda>c s. Some (True, s @ [c])" 40 "[]"] by simp
qed

text \<open>A message without directives is printed as it is when it is shorter than the logger's
  256 byte buffer; a longer one overruns the buffer, whatever the arguments are.\<close>

theorem render_literal:
  assumes "CHR ''%'' \<notin> set fmt"
  shows "render fmt args n = (if length fmt < 256 then Some fmt else None)"
proof (cases fmt)
  case Nil
  then show ?thesis by simp
next
  case (Cons f fs)
  have "f \<noteq> CHR ''%''" using assms Cons by (metis list.set_intros(1))
  moreover have "takeWhile (\<lambda>c. c \<noteq> CHR ''%'') (f # fs) = f # fs"
    using assms unfolding Cons by (intro takeWhile_all) metis
  ultimately have "render (f # fs) args n =
      (if length (f # fs) \<ge> 256 then None
       else map_option ((@) (f # fs)) (render (drop (length (f # fs)) (f # fs)) args (n + length (f # fs))))"
    by (subst render.simps(2)) (simp only: Let_def if_True not_False_eq_True)
  also have "\<dots> = (if length (f # fs) < 256 then Some (f # fs) else None)"
    by (simp only: drop_all order_refl render.simps(1) option.map append_Nil2 not_less if_not_P) auto
  finally show ?thesis unfolding Cons .
qed

theorem render_literal_witness:
  "render ''no response from server'' [] 0 = Some ''no response from server''"
  using render_literal [of "''no response from server''" "[]" 0] by simp

end
