(* ===== verification/Cmdline.thy ===== *)
theory Cmdline
  imports Clib Util
begin

text \<open>
  The command line of client.c: command names, options, and the cutting of the argument
  vector into commands. A position in the argument vector is the pair of the word before
  it and the words from it on, as the code looks one word back.
\<close>

section \<open>Commands and their names\<close>

definition COMMAND_NONE :: int where "COMMAND_NONE = 0x00"
definition COMMAND_LOAD :: int where "COMMAND_LOAD = 0x01"
definition COMMAND_SAVE :: int where "COMMAND_SAVE = 0x02"
definition COMMAND_POKE :: int where "COMMAND_POKE = 0x03"
definition COMMAND_PEEK :: int where "COMMAND_PEEK = 0x04"
definition COMMAND_JUMP :: int where "COMMAND_JUMP = 0x05"
definition COMMAND_RUN :: int where "COMMAND_RUN = 0x06"
definition COMMAND_RESET :: int where "COMMAND_RESET = 0x07"
definition COMMAND_HELP :: int where "COMMAND_HELP = 0x08"
definition COMMAND_READY :: int where "COMMAND_READY = 0x0e"
definition COMMAND_PING :: int where "COMMAND_PING = 0x0f"
definition COMMAND_BOOTLOADER :: int where "COMMAND_BOOTLOADER = 0x10"
definition COMMAND_BENCHMARK :: int where "COMMAND_BENCHMARK = 0x11"
definition COMMAND_IDENTIFY :: int where "COMMAND_IDENTIFY = 0x12"
definition COMMAND_SERVER :: int where "COMMAND_SERVER = 0x13"
definition COMMAND_RELOCATE :: int where "COMMAND_RELOCATE = 0x14"
definition COMMAND_KERNAL :: int where "COMMAND_KERNAL = 0x15"
definition COMMAND_FILL :: int where "COMMAND_FILL = 0x16"

lemmas command_ids = COMMAND_NONE_def COMMAND_LOAD_def COMMAND_SAVE_def COMMAND_POKE_def
  COMMAND_PEEK_def COMMAND_JUMP_def COMMAND_RUN_def COMMAND_RESET_def COMMAND_HELP_def
  COMMAND_READY_def COMMAND_PING_def COMMAND_BOOTLOADER_def COMMAND_BENCHMARK_def
  COMMAND_IDENTIFY_def COMMAND_SERVER_def COMMAND_RELOCATE_def COMMAND_KERNAL_def COMMAND_FILL_def

definition str2id :: "string \<Rightarrow> int" where
  "str2id arg =
     (if arg = ''load'' then COMMAND_LOAD
      else if arg = ''save'' then COMMAND_SAVE
      else if arg = ''poke'' then COMMAND_POKE
      else if arg = ''peek'' then COMMAND_PEEK
      else if arg = ''jump'' then COMMAND_JUMP
      else if arg = ''run'' then COMMAND_RUN
      else if arg = ''reset'' then COMMAND_RESET
      else if arg = ''help'' then COMMAND_HELP
      else if arg = ''ready'' then COMMAND_READY
      else if arg = ''ping'' then COMMAND_PING
      else if arg = ''bootloader'' then COMMAND_BOOTLOADER
      else if arg = ''benchmark'' then COMMAND_BENCHMARK
      else if arg = ''identify'' then COMMAND_IDENTIFY
      else if arg = ''server'' then COMMAND_SERVER
      else if arg = ''relocate'' then COMMAND_RELOCATE
      else if arg = ''kernal'' then COMMAND_KERNAL
      else if arg = ''fill'' then COMMAND_FILL
      else COMMAND_NONE)"

definition id2str :: "int \<Rightarrow> string" where
  "id2str id' =
     (if id' = COMMAND_NONE then ''main''
      else if id' = COMMAND_LOAD then ''load''
      else if id' = COMMAND_SAVE then ''save''
      else if id' = COMMAND_POKE then ''poke''
      else if id' = COMMAND_PEEK then ''peek''
      else if id' = COMMAND_JUMP then ''jump''
      else if id' = COMMAND_RUN then ''run''
      else if id' = COMMAND_RESET then ''reset''
      else if id' = COMMAND_HELP then ''help''
      else if id' = COMMAND_READY then ''ready''
      else if id' = COMMAND_PING then ''ping''
      else if id' = COMMAND_BOOTLOADER then ''bootloader''
      else if id' = COMMAND_BENCHMARK then ''benchmark''
      else if id' = COMMAND_IDENTIFY then ''identify''
      else if id' = COMMAND_SERVER then ''server''
      else if id' = COMMAND_RELOCATE then ''relocate''
      else if id' = COMMAND_KERNAL then ''kernal''
      else if id' = COMMAND_FILL then ''fill''
      else ''unknown'')"

definition isCommand :: "string \<Rightarrow> bool" where
  "isCommand str \<longleftrightarrow> str2id str > COMMAND_NONE"

definition isOption :: "string \<Rightarrow> bool" where
  "isOption str \<longleftrightarrow> (case str of [] \<Rightarrow> False | c # _ \<Rightarrow> c = CHR ''-'')"

section \<open>Options\<close>

text \<open>The table of long options: name, whether it takes an argument, and its letter.\<close>

definition options :: "(string \<times> bool \<times> char) list" where
  "options =
     [(''help'', False, CHR ''h''), (''verbose'', False, CHR ''v''), (''quiet'', False, CHR ''q''),
      (''device'', True, CHR ''d''), (''machine'', True, CHR ''M''), (''memory'', True, CHR ''m''),
      (''bank'', True, CHR ''b''), (''address'', True, CHR ''a''), (''skip'', True, CHR ''s''),
      (''force'', True, CHR ''f'')]"

text \<open>The letter that is compared: the one behind the dash, or behind two characters.\<close>

fun optarg_in :: "string \<Rightarrow> (string \<times> bool \<times> char) list \<Rightarrow> bool" where
  "optarg_in opt [] = False"
| "optarg_in opt ((name, has_arg, val) # os) =
     (if \<not> has_arg then optarg_in opt os
      else if length opt = 2 \<and> opt ! 1 = val then True
      else if length opt > 2 \<and> opt ! 2 = val then True
      else optarg_in opt os)"

definition isOptarg :: "string \<Rightarrow> string \<Rightarrow> bool" where
  "isOptarg opt argument \<longleftrightarrow> isOption opt \<and> optarg_in opt options"

definition valid :: "int \<Rightarrow> bool" where
  "valid address \<longleftrightarrow> address \<ge> 0x0000 \<and> address \<le> 0x10000"

section \<open>Commands\<close>

text \<open>The field \<open>cm_argv\<close> starts with the word \<open>getopt\<close> until the options are parsed.\<close>

record command =
  cm_id :: int
  cm_name :: string
  cm_memory :: uchar
  cm_bank :: uchar
  cm_start :: int
  cm_end :: int
  cm_skip :: int
  cm_force :: bool
  cm_argv :: "string list"

definition command_get_name :: "command \<Rightarrow> string" where
  "command_get_name self = id2str (cm_id self)"

definition arity_of :: "int \<Rightarrow> int" where
  "arity_of id' =
     (if id' = COMMAND_NONE then -1
      else if id' \<in> {COMMAND_LOAD, COMMAND_SAVE, COMMAND_POKE, COMMAND_PEEK, COMMAND_JUMP, COMMAND_RUN,
                     COMMAND_HELP, COMMAND_SERVER, COMMAND_RELOCATE} then 1
      else if id' \<in> {COMMAND_KERNAL, COMMAND_FILL} then 2
      else 0)"

definition command_arity :: "command \<Rightarrow> int" where
  "command_arity self = arity_of (cm_id self)"

definition command_append_argument :: "command \<Rightarrow> string \<Rightarrow> command" where
  "command_append_argument self arg = self\<lparr>cm_argv := cm_argv self @ [arg]\<rparr>"

text \<open>
  The for-loop of \<open>command_consume_arguments\<close>. \<open>isFirst\<close> and \<open>previous\<close> are the code's;
  the result is the command, the word before the position reached, and the words left.
\<close>

fun consume_loop :: "int \<Rightarrow> bool \<Rightarrow> string \<Rightarrow> int \<Rightarrow> string list \<Rightarrow> command
    \<Rightarrow> command \<times> string \<times> string list" where
  "consume_loop arity isFirst previous consumed [] self = (self, previous, [])"
| "consume_loop arity isFirst previous consumed (current # rest) self =
     (if isCommand current \<and> \<not> isOptarg previous current then (self, previous, current # rest)
      else if consumed = arity \<and> arity > 0 \<and>
              ((\<not> isFirst \<and> \<not> isOptarg previous current) \<or> \<not> isOption current)
      then (self, previous, current # rest)
      else
        let self = command_append_argument self current;
            consumed =
              (if consumed < arity
               then if (\<not> isFirst \<and> isOptarg previous current) \<or> isOption current then consumed
                    else consumed + 1
               else consumed)
        in consume_loop arity False current consumed rest self)"

fun command_consume_arguments :: "command \<Rightarrow> string \<Rightarrow> string list
    \<Rightarrow> command \<times> string \<times> string list" where
  "command_consume_arguments self previous [] = (self, previous, [])"
| "command_consume_arguments self previous (current # rest) =
     (let self = self\<lparr>cm_name := current, cm_id := str2id current\<rparr>
      in if isCommand current then consume_loop (command_arity self) False current 0 rest self
         else consume_loop (command_arity self) True previous 0 (current # rest) self)"

definition command_new :: "string \<Rightarrow> string list \<Rightarrow> command \<times> string \<times> string list" where
  "command_new previous argv =
     (let command = \<lparr>cm_id = COMMAND_NONE, cm_name = [], cm_memory = 0xff, cm_bank = 0xff,
                     cm_start = -1, cm_end = -1, cm_skip = -1, cm_force = False, cm_argv = []\<rparr>;
          command = command_append_argument command ''getopt''
      in command_consume_arguments command previous argv)"

lemma consume_loop_split:
  "consume_loop ar first p k ws c = (c', p', ws') \<Longrightarrow>
   \<exists>used. ws = used @ ws' \<and> cm_argv c' = cm_argv c @ used \<and> cm_id c' = cm_id c \<and> cm_name c' = cm_name c \<and>
     (first \<and> ws \<noteq> [] \<and> \<not> isCommand (hd ws) \<and> ar \<le> 0 \<longrightarrow> used \<noteq> [])"
proof (induction ar first p k ws c rule: consume_loop.induct)
  case (1 arity isFirst previous consumed self)
  then show ?case by simp
next
  case (2 arity isFirst previous consumed current rest self)
  show ?case
  proof (cases "isCommand current \<and> \<not> isOptarg previous current \<or> (consumed = arity \<and> arity > 0 \<and>
              ((\<not> isFirst \<and> \<not> isOptarg previous current) \<or> \<not> isOption current))")
    case True
    with 2(2) show ?thesis by (auto split: if_splits)
  next
    case False
    define k where "k = (if consumed < arity
               then if (\<not> isFirst \<and> isOptarg previous current) \<or> isOption current then consumed
                    else consumed + 1
               else consumed)"
    from False 2(2) have "consume_loop arity False current k rest (command_append_argument self current) = (c', p', ws')"
      by (auto simp: k_def Let_def split: if_splits)
    with 2(1) False obtain used where "rest = used @ ws'"
        "cm_argv c' = cm_argv self @ current # used" "cm_id c' = cm_id self" "cm_name c' = cm_name self"
      unfolding k_def by (fastforce simp: command_append_argument_def)
    then show ?thesis by (intro exI [of _ "current # used"]) simp
  qed
qed

text \<open>The words that a command was made from.\<close>

definition command_words :: "command \<Rightarrow> string list" where
  "command_words c = (if isCommand (cm_name c) then [cm_name c] else []) @ tl (cm_argv c)"

lemma command_new_split:
  assumes "command_new p ws = (c, p', ws')" "ws \<noteq> []"
  shows "ws = command_words c @ ws' \<and> command_words c \<noteq> [] \<and> cm_id c = str2id (cm_name c) \<and> hd (cm_argv c) = ''getopt''"
proof -
  obtain w rest where ws: "ws = w # rest" using assms(2) by (cases ws) auto
  let ?c = "\<lparr>cm_id = str2id w, cm_name = w, cm_memory = 0xff, cm_bank = 0xff, cm_start = -1, cm_end = -1,
    cm_skip = -1, cm_force = False, cm_argv = [''getopt'']\<rparr>"
  show ?thesis
  proof (cases "isCommand w")
    case True
    with assms(1) ws have "consume_loop (command_arity ?c) False w 0 rest ?c = (c, p', ws')"
      by (simp add: command_new_def command_append_argument_def Let_def del: consume_loop.simps)
    from consume_loop_split [OF this] True ws show ?thesis by (auto simp: command_words_def)
  next
    case False
    with assms(1) ws have run: "consume_loop (command_arity ?c) True p 0 (w # rest) ?c = (c, p', ws')"
      by (simp add: command_new_def command_append_argument_def Let_def del: consume_loop.simps)
    have "command_arity ?c \<le> 0"
      using False by (auto simp: isCommand_def str2id_def command_arity_def arity_of_def command_ids split: if_splits)
    with consume_loop_split [OF run] False ws show ?thesis by (auto simp: command_words_def)
  qed
qed

lemma command_new_shorter:
  "command_new p ws = (c, p', ws') \<Longrightarrow> ws \<noteq> [] \<Longrightarrow> length ws' < length ws"
  using command_new_split [of p ws c p' ws'] by (cases "command_words c") auto

type_synonym commands = "command list"

definition commands_add :: "commands \<Rightarrow> command \<Rightarrow> commands" where
  "commands_add self command = self @ [command]"

text \<open>The loop of \<open>commands_new\<close>, with the commands made so far.\<close>

function commands_new_loop :: "commands \<Rightarrow> string \<Rightarrow> string list \<Rightarrow> commands" where
  "commands_new_loop commands previous argv =
     (if argv = [] then commands
      else case command_new previous argv of
             (command, previous', argv') \<Rightarrow>
               commands_new_loop (commands_add commands command) previous' argv')"
  by pat_completeness auto
termination
  by (relation "measure (\<lambda>(cs, p, argv). length argv)") (auto, metis command_new_shorter)

declare commands_new_loop.simps [simp del]

definition commands_new :: "string \<Rightarrow> string list \<Rightarrow> commands" where
  "commands_new previous argv = commands_new_loop [] previous argv"

section \<open>Properties\<close>

text \<open>Command names and numbers correspond: every known name is the name of its number, and the
  number of the name of each of the seventeen commands is that number.\<close>

theorem command_names_roundtrip:
  "(isCommand s \<longrightarrow> id2str (str2id s) = s) \<and>
   (id' \<in> {1 .. 8} \<union> {0x0e .. 0x16} \<longleftrightarrow> isCommand (id2str id') \<and> str2id (id2str id') = id')"
proof
  show "isCommand s \<longrightarrow> id2str (str2id s) = s"
    by (auto simp: isCommand_def str2id_def id2str_def command_ids split: if_splits)
  have "id' \<in> {1 .. 8} \<union> {0x0e .. 0x16} \<longleftrightarrow> id' \<in> {1, 2, 3, 4, 5, 6, 7, 8, 0x0e, 0x0f, 0x10, 0x11, 0x12, 0x13, 0x14, 0x15, 0x16}"
    by auto
  also have "\<dots> \<longleftrightarrow> isCommand (id2str id') \<and> str2id (id2str id') = id'"
    by (auto simp: isCommand_def str2id_def id2str_def command_ids split: if_splits)
  finally show "id' \<in> {1 .. 8} \<union> {0x0e .. 0x16} \<longleftrightarrow> isCommand (id2str id') \<and> str2id (id2str id') = id'" .
qed

theorem command_names_roundtrip_witness:
  "isCommand ''relocate'' \<and> id2str (str2id ''relocate'') = ''relocate'' \<and> isCommand (id2str 0x14)"
proof -
  have "isCommand ''relocate''" by code_simp
  then show ?thesis
    using command_names_roundtrip [of "''relocate''" "0x14"] by simp
qed

text \<open>C36. The command line is cut without loss: the words of the commands, each with its name and
  its arguments, are together the words of the line in their order, and every command
  carries the number of its name.\<close>

theorem commands_new_partition:
  "concat (map command_words (commands_new p argv)) = argv \<and>
   list_all (\<lambda>c. cm_id c = str2id (cm_name c) \<and> command_words c \<noteq> []) (commands_new p argv)"
proof -
  have "\<exists>new. commands_new_loop cs p argv = cs @ new \<and> concat (map command_words new) = argv \<and>
     list_all (\<lambda>c. cm_id c = str2id (cm_name c) \<and> command_words c \<noteq> []) new" for cs
  proof (induction "length argv" arbitrary: cs p argv rule: less_induct)
    case less
    show ?case
    proof (cases "argv = []")
      case True
      then show ?thesis by (subst commands_new_loop.simps) simp
    next
      case False
      obtain c p' rest where n: "command_new p argv = (c, p', rest)" by (cases "command_new p argv") auto
      obtain new where "commands_new_loop (cs @ [c]) p' rest = (cs @ [c]) @ new"
        "concat (map command_words new) = rest" "list_all (\<lambda>c. cm_id c = str2id (cm_name c) \<and> command_words c \<noteq> []) new"
        using less.hyps [OF command_new_shorter [OF n False]] by blast
      with n False command_new_split [OF n False] show ?thesis
        by (subst commands_new_loop.simps) (auto simp: commands_add_def)
    qed
  qed
  from this [of "[]"] show ?thesis by (auto simp: commands_new_def)
qed

end
