(* ===== verification/Machine.thy ===== *)
theory Machine
  imports Prelude
begin

text \<open>
  The two machines of machine.c. The three function pointers of \<open>xlink_machine_t\<close> lead to
  code that the build generates (server64.c, kernal64.c and their C128 twins), so they are
  not part of the record: the definitions that call them take them as parameters.
\<close>

definition XLINK_MACHINE_C64 :: int where "XLINK_MACHINE_C64 = 0x00"
definition XLINK_MACHINE_C128 :: int where "XLINK_MACHINE_C128 = 0x01"
definition XLINK_SERVER_TYPE_RAM :: int where "XLINK_SERVER_TYPE_RAM = 0x00"
definition XLINK_SERVER_TYPE_ROM :: int where "XLINK_SERVER_TYPE_ROM = 0x01"

lemmas machine_consts = XLINK_MACHINE_C64_def XLINK_MACHINE_C128_def
  XLINK_SERVER_TYPE_RAM_def XLINK_SERVER_TYPE_ROM_def

record xlink_machine =
  m_type :: int
  m_name :: string
  m_memory :: uchar
  m_bank :: uchar
  m_safe_memory :: uchar
  m_safe_bank :: uchar
  m_default_basic_start :: ushort
  m_basic_start :: ushort
  m_basic_end :: ushort
  m_warmstart :: ushort
  m_mode :: ushort
  m_prgmode :: uchar
  m_io :: uint
  m_screenram :: uint
  m_loram :: uint
  m_hiram :: uint
  m_lorom :: uint
  m_hirom :: uint
  m_benchmark :: uint
  m_free_ram_area :: ushort

definition c64 :: xlink_machine where
  "c64 = \<lparr>
     m_type                = XLINK_MACHINE_C64,
     m_name                = ''c64'',
     m_memory              = 0x37,
     m_bank                = 0x00,
     m_safe_memory         = 0x33,
     m_safe_bank           = 0x00,
     m_default_basic_start = 0x0801,
     m_basic_start         = 0x2b,
     m_basic_end           = 0x2d,
     m_warmstart           = 0xfe66,
     m_mode                = 0x9d,
     m_prgmode             = 0x00,
     m_io                  = 0xd000e000,
     m_screenram           = 0x040007e7,
     m_loram               = 0x08010a00,
     m_hiram               = 0xc000d000,
     m_lorom               = 0xa000c000,
     m_hirom               = 0xe0000000,
     m_benchmark           = 0x10008000,
     m_free_ram_area       = 0xc000\<rparr>"

definition c128 :: xlink_machine where
  "c128 = \<lparr>
     m_type                = XLINK_MACHINE_C128,
     m_name                = ''c128'',
     m_memory              = 0x00,
     m_bank                = 0x0f,
     m_safe_memory         = 0x01,
     m_safe_bank           = 0x0e,
     m_default_basic_start = 0x1c01,
     m_basic_start         = 0x2d,
     m_basic_end           = 0x1210,
     m_warmstart           = 0x4003,
     m_mode                = 0x7f,
     m_prgmode             = 0x80,
     m_io                  = 0xd000e000,
     m_screenram           = 0x040007e7,
     m_loram               = 0x13001c01,
     m_hiram               = 0x1c014000,
     m_lorom               = 0x4000d000,
     m_hirom               = 0xe0000000,
     m_benchmark           = 0x20004000,
     m_free_ram_area       = 0x1300\<rparr>"

lemma machine_types [simp]: "m_type c64 = 0" "m_type c128 = 1"
  by (simp_all add: c64_def c128_def machine_consts)

end
