(* ===== verification/Environment.thy ===== *)
theory Environment
  imports Util Machine
begin

text \<open>
  The state of libxlink (the globals of xlink.c and of the drivers), the error macros of
  error.h, and the outside world: the operating system, libusb, the parallel port, the tty
  and the shared memory port are functions over an arbitrary world type \<open>'w\<close>, gathered in
  records that the definitions take as a parameter. Every call that acts on the outside, and every byte read off a port, is
  also noted in \<open>trace\<close>, so that a theorem can say what the program does on the wire in
  every environment.
\<close>

section \<open>The outside world\<close>

datatype os_event =
    OpenFile string int
  | CloseFile int
  | PpClaim int
  | PpRelease int
  | PpFlags int
  | PpControl int uchar
  | PpFrob int uchar uchar
  | PpData int uchar
  | PpRead int uchar
  | UsbInit
  | UsbExit
  | UsbOpen int
  | UsbClose int
  | UsbControl bool int int int "uchar list" int
  | TtySetup int
  | TtyWrite int "uchar list"
  | ShmAttach
  | ShmDetach
  | ShmFlag uchar
  | ShmData uchar
  | ShmRead uchar
  | Kill ushort
  | Sleep int
  | Print string
  | PutFile string "uchar list"

text \<open>The C library and POSIX calls that several parts use.\<close>

record 'w os =
  os_now :: "'w \<Rightarrow> timeval \<times> 'w"
  os_usleep :: "int \<Rightarrow> 'w \<Rightarrow> 'w"
  os_getenv :: "string \<Rightarrow> 'w \<Rightarrow> string option"
  os_stat :: "string \<Rightarrow> 'w \<Rightarrow> (bool \<times> int) option" \<comment> \<open>character device?, major number\<close>
  os_realpath :: "string \<Rightarrow> 'w \<Rightarrow> string option"
  os_strerror :: "'w \<Rightarrow> string"
  os_open :: "string \<Rightarrow> 'w \<Rightarrow> int \<times> 'w"
  os_close :: "int \<Rightarrow> 'w \<Rightarrow> 'w"

text \<open>The ppdev ioctls. A read that fails leaves the variable as it is: \<open>None\<close>.\<close>

record 'w pp_os =
  pp_claim :: "int \<Rightarrow> 'w \<Rightarrow> int \<times> 'w"
  pp_release :: "int \<Rightarrow> 'w \<Rightarrow> 'w"
  pp_setflags :: "int \<Rightarrow> 'w \<Rightarrow> 'w"
  pp_rstatus :: "int \<Rightarrow> 'w \<Rightarrow> uchar option \<times> 'w"
  pp_wcontrol :: "int \<Rightarrow> uchar \<Rightarrow> 'w \<Rightarrow> 'w"
  pp_fcontrol :: "int \<Rightarrow> uchar \<Rightarrow> uchar \<Rightarrow> 'w \<Rightarrow> 'w"
  pp_rdata :: "int \<Rightarrow> 'w \<Rightarrow> uchar option \<times> 'w"
  pp_wdata :: "int \<Rightarrow> uchar \<Rightarrow> 'w \<Rightarrow> 'w"

text \<open>libusb: a negative result is \<open>Inl\<close>; a control transfer gives its result and what it read.\<close>

record 'w usb_os =
  usb_init :: "'w \<Rightarrow> int \<times> 'w"
  usb_exit :: "'w \<Rightarrow> 'w"
  usb_device_list :: "'w \<Rightarrow> (int + int list) \<times> 'w"
  usb_descriptor :: "int \<Rightarrow> 'w \<Rightarrow> (int + int \<times> int \<times> int) \<times> 'w" \<comment> \<open>vendor, product, serial index\<close>
  usb_bus :: "int \<Rightarrow> 'w \<Rightarrow> int"
  usb_address :: "int \<Rightarrow> 'w \<Rightarrow> int"
  usb_open :: "int \<Rightarrow> 'w \<Rightarrow> (int + int) \<times> 'w"
  usb_close :: "int \<Rightarrow> 'w \<Rightarrow> 'w"
  usb_string :: "int \<Rightarrow> int \<Rightarrow> 'w \<Rightarrow> (int + string) \<times> 'w"
  usb_control :: "int \<Rightarrow> bool \<Rightarrow> int \<Rightarrow> int \<Rightarrow> int \<Rightarrow> uchar list \<Rightarrow> int \<Rightarrow> int \<Rightarrow> 'w
                  \<Rightarrow> (int \<times> uchar list) \<times> 'w"

text \<open>The tty: \<open>None\<close> is a read that returned -1.\<close>

record 'w tty_os =
  tty_setup :: "int \<Rightarrow> 'w \<Rightarrow> 'w"
  tty_read :: "int \<Rightarrow> nat \<Rightarrow> 'w \<Rightarrow> uchar list option \<times> 'w"
  tty_write :: "int \<Rightarrow> uchar list \<Rightarrow> 'w \<Rightarrow> 'w"

text \<open>The shared memory port \<open>xlink_port_t\<close>, which the emulator changes concurrently.\<close>

record 'w shm_os =
  shm_attach :: "'w \<Rightarrow> bool \<times> 'w" \<comment> \<open>open, ftok, shmget and shmat\<close>
  shm_detach :: "'w \<Rightarrow> 'w"
  shm_flag :: "'w \<Rightarrow> uchar"
  shm_set_flag :: "uchar \<Rightarrow> 'w \<Rightarrow> 'w"
  shm_pa2 :: "'w \<Rightarrow> uchar \<times> 'w"
  shm_data :: "'w \<Rightarrow> uchar"
  shm_set_data :: "uchar \<Rightarrow> 'w \<Rightarrow> 'w"
  shm_id :: "'w \<Rightarrow> string"
  shm_kill :: "ushort \<Rightarrow> 'w \<Rightarrow> 'w"

record 'w sys =
  sy_os :: "'w os"
  sy_pp :: "'w pp_os"
  sy_usb :: "'w usb_os"
  sy_tty :: "'w tty_os"
  sy_shm :: "'w shm_os"

section \<open>The state of the library\<close>

datatype drv_state = STATE_IDLE | STATE_INPUT | STATE_OUTPUT

text \<open>
  Which functions the pointers \<open>driver->_open\<close>, \<open>driver->_send\<close>, \<dots> hold: before a device is
  set up only \<open>_open\<close> is set, to \<open>_driver_setup_and_open\<close>.
\<close>

datatype backend = BSetup | BParport | BUsb | BShm | BSerial

record 'w xlink =
  drv_path :: string
  drv_device :: int
  drv_timeout :: int
  drv_state :: drv_state
  drv_backend :: backend
  err_code :: int
  err_message :: "string \<times> arg list"
  lg :: logger
  machine :: xlink_machine
  pp_last_status :: uchar
  pp_initialized :: bool
  usb_handle :: "int option"
  usb_response :: uchar
  shm_initialized :: bool
  shm_direction :: drv_state
  shm_last :: uchar
  ser_initialized :: bool
  trace :: "os_event list"
  world :: 'w

definition XLINK_SUCCESS :: int where "XLINK_SUCCESS = 0x00"
definition XLINK_ERROR_DEVICE :: int where "XLINK_ERROR_DEVICE = 0x01"
definition XLINK_ERROR_LIBUSB :: int where "XLINK_ERROR_LIBUSB = 0x02"
definition XLINK_ERROR_PARPORT :: int where "XLINK_ERROR_PARPORT = 0x03"
definition XLINK_ERROR_SERVER :: int where "XLINK_ERROR_SERVER = 0x04"
definition XLINK_ERROR_FILE :: int where "XLINK_ERROR_FILE = 0x05"
definition XLINK_ERROR_SERIAL :: int where "XLINK_ERROR_SERIAL = 0x06"

lemmas error_codes = XLINK_SUCCESS_def XLINK_ERROR_DEVICE_def XLINK_ERROR_LIBUSB_def
  XLINK_ERROR_PARPORT_def XLINK_ERROR_SERVER_def XLINK_ERROR_FILE_def XLINK_ERROR_SERIAL_def

section \<open>The macros of error.h\<close>

definition SET_ERROR :: "int \<Rightarrow> string \<Rightarrow> arg list \<Rightarrow> 'w xlink \<Rightarrow> 'w xlink" where
  "SET_ERROR c f args s =
     s\<lparr>err_code := c, err_message := (f, args), lg := logger_error f args (lg s)\<rparr>"

definition CLEAR_ERROR_IF :: "bool \<Rightarrow> 'w xlink \<Rightarrow> 'w xlink" where
  "CLEAR_ERROR_IF r s =
     (if r then s\<lparr>err_code := XLINK_SUCCESS, err_message := (''Success'', [])\<rparr> else s)"

section \<open>Acting on the world\<close>

definition act :: "os_event \<Rightarrow> ('w \<Rightarrow> 'w) \<Rightarrow> 'w xlink \<Rightarrow> 'w xlink" where
  "act e f s = s\<lparr>trace := trace s @ [e], world := f (world s)\<rparr>"

definition ask :: "('w \<Rightarrow> 'a \<times> 'w) \<Rightarrow> 'w xlink \<Rightarrow> 'a \<times> 'w xlink" where
  "ask f s = (fst (f (world s)), s\<lparr>world := snd (f (world s))\<rparr>)"

definition emit :: "os_event \<Rightarrow> 'w xlink \<Rightarrow> 'w xlink" where
  "emit e s = s\<lparr>trace := trace s @ [e]\<rparr>"

definition usleep :: "'w sys \<Rightarrow> int \<Rightarrow> 'w xlink \<Rightarrow> 'w xlink" where
  "usleep sy us = act (Sleep us) (os_usleep (sy_os sy) us)"

definition now :: "'w sys \<Rightarrow> 'w xlink \<Rightarrow> timeval \<times> 'w xlink" where
  "now sy = ask (os_now (sy_os sy))"

section \<open>The driver vtable of driver.h\<close>

text \<open>
  Every function returns the new state, or \<open>None\<close> when the call does not return: an endless
  loop, or a call through a pointer that is not set, which kills the process. A data
  buffer with its size is a list of bytes.
\<close>

record 'w prims =
  d_input :: "'w xlink \<Rightarrow> 'w xlink option"
  d_output :: "'w xlink \<Rightarrow> 'w xlink option"
  d_strobe :: "'w xlink \<Rightarrow> 'w xlink option"
  d_write :: "uchar \<Rightarrow> 'w xlink \<Rightarrow> 'w xlink option"
  d_read :: "'w xlink \<Rightarrow> (uchar \<times> 'w xlink) option"
  d_wait :: "int \<Rightarrow> 'w xlink \<Rightarrow> (bool \<times> 'w xlink) option"

record 'w driver = "'w prims" +
  d_ready :: "'w xlink \<Rightarrow> (bool \<times> 'w xlink) option"
  d_open :: "'w xlink \<Rightarrow> (bool \<times> 'w xlink) option"
  d_close :: "'w xlink \<Rightarrow> 'w xlink option"
  d_send :: "uchar list \<Rightarrow> 'w xlink \<Rightarrow> (bool \<times> 'w xlink) option"
  d_receive :: "nat \<Rightarrow> 'w xlink \<Rightarrow> ((bool \<times> uchar list) \<times> 'w xlink) option"
  d_ping :: "'w xlink \<Rightarrow> (bool \<times> 'w xlink) option"
  d_reset :: "'w xlink \<Rightarrow> 'w xlink option"
  d_boot :: "'w xlink \<Rightarrow> 'w xlink option"

section \<open>What calls leave alone\<close>

text \<open>
  \<open>frame\<close> is what no driver call changes: machine, timeout, transfer state and the context stack
  of the logger. \<open>seat\<close> adds the back end and the path of its device, which only a set-up
  changes, and \<open>core\<close> the error code and the files opened so far, which the primitive
  operations leave alone. As they are functions, that a call keeps them is an equation.
\<close>

type_synonym frame = "xlink_machine \<times> int \<times> drv_state \<times> stringlist option"

definition frame :: "'w xlink \<Rightarrow> frame" where
  "frame s = (machine s, drv_timeout s, drv_state s, lg_context (lg s))"

definition seat :: "'w xlink \<Rightarrow> frame \<times> backend \<times> string" where
  "seat s = (frame s, drv_backend s, drv_path s)"

fun opens :: "os_event \<Rightarrow> string list" where
  "opens (OpenFile path fd) = [path]"
| "opens _ = []"

definition opened_files :: "'w xlink \<Rightarrow> string list" where
  "opened_files s = concat (map opens (trace s))"

definition core :: "'w xlink \<Rightarrow> (frame \<times> backend \<times> string) \<times> int \<times> string list" where
  "core s = (seat s, err_code s, opened_files s)"

lemmas core_defs = core_def seat_def frame_def opened_files_def
lemmas world_defs = act_def ask_def emit_def usleep_def now_def

text \<open>The collection \<open>core_keep\<close> holds what the primitive operations of the back ends keep.\<close>

named_theorems core_keep

lemma core_seat: "core s = core t \<Longrightarrow> seat s = seat t"
  by (simp add: core_def)

lemma seat_frame: "seat s = seat t \<Longrightarrow> frame s = frame t"
  by (simp add: seat_def)

lemma core_frame: "core s = core t \<Longrightarrow> frame s = frame t"
  by (simp add: core_def seat_def)

lemma core_err: "core s = core t \<Longrightarrow> err_code s = err_code t"
  by (simp add: core_def)

lemma core_opened: "core s = core t \<Longrightarrow> opened_files s = opened_files t"
  by (simp add: core_def)

lemma core_world [simp]:
  "opens e = [] \<Longrightarrow> core (act e f s) = core s" "opens e = [] \<Longrightarrow> core (emit e s) = core s"
  "core (usleep sy n s) = core s"
  "core (snd (ask g s)) = core s" "core (snd (now sy s)) = core s"
  by (simp_all add: core_defs world_defs)

lemma core_updates [simp]:
  "core (s\<lparr>pp_last_status := a\<rparr>) = core s" "core (s\<lparr>pp_initialized := b\<rparr>) = core s"
  "core (s\<lparr>usb_handle := c\<rparr>) = core s" "core (s\<lparr>usb_response := d\<rparr>) = core s"
  "core (s\<lparr>shm_initialized := e\<rparr>) = core s" "core (s\<lparr>shm_direction := f\<rparr>) = core s"
  "core (s\<lparr>shm_last := g\<rparr>) = core s" "core (s\<lparr>ser_initialized := h\<rparr>) = core s"
  "lg_context l = lg_context (lg s) \<Longrightarrow> core (s\<lparr>lg := l\<rparr>) = core s" "core (s\<lparr>drv_device := dev\<rparr>) = core s"
  by (simp_all add: core_defs)

text \<open>The same when the result of a query is named by a case split.\<close>

lemma ask_keeps: "ask g s = (r, t) \<Longrightarrow> core t = core s \<and> trace t = trace s"
  by (auto simp: core_defs world_defs)

lemma now_keeps: "now sy s = (r, t) \<Longrightarrow> core t = core s \<and> trace t = trace s"
  by (auto simp: core_defs world_defs)

lemma ask_seat: "ask g s = (r, t) \<Longrightarrow> seat t = seat s"
  by (auto simp: core_defs world_defs)

lemma err_world [simp]:
  "err_code (act e f s) = err_code s" "err_code (emit e s) = err_code s"
  "err_code (usleep sy n s) = err_code s" "err_code (snd (ask g s)) = err_code s"
  by (simp_all add: world_defs)

lemma seat_updates [simp]:
  "seat (act e f s) = seat s" "seat (emit e s) = seat s" "seat (usleep sy n s) = seat s"
  "seat (snd (ask g s)) = seat s" "seat (s\<lparr>drv_device := d\<rparr>) = seat s"
  "lg_context l = lg_context (lg s) \<Longrightarrow> seat (s\<lparr>lg := l\<rparr>) = seat s" "seat (s\<lparr>usb_handle := h\<rparr>) = seat s"
  "seat (s\<lparr>shm_last := g'\<rparr>) = seat s" "seat (s\<lparr>shm_initialized := b\<rparr>) = seat s"
  "seat (s\<lparr>ser_initialized := c\<rparr>) = seat s"
  by (simp_all add: core_defs world_defs)

lemma trace_world [simp]:
  "trace (act e f s) = trace s @ [e]" "trace (emit e s) = trace s @ [e]"
  "trace (usleep sy n s) = trace s @ [Sleep n]"
  "trace (snd (ask g s)) = trace s" "trace (snd (now sy s)) = trace s"
  by (simp_all add: world_defs)

lemma SET_ERROR_keeps [simp]: "seat (SET_ERROR c f a s) = seat s" "err_code (SET_ERROR c f a s) = c"
  by (simp_all add: core_defs SET_ERROR_def)

lemma CLEAR_ERROR_keeps [simp]:
  "seat (CLEAR_ERROR_IF r s) = seat s"
  "err_code (CLEAR_ERROR_IF r s) = (if r then XLINK_SUCCESS else err_code s)"
  by (simp_all add: core_defs CLEAR_ERROR_IF_def)

end
