(* ===== verification/Handshake.thy ===== *)
theory Handshake
  imports Environment
begin

text \<open>
  The byte-wise transfer that parport.c and shm.c share: put a byte on the port, strobe,
  wait for the acknowledge. Both files hold the same two loops with their own error code.
  The locale states what the loops rely on and proves what they put on the wire.
\<close>

section \<open>The loops\<close>

fun handshake_send :: "int \<Rightarrow> ('w, 'm) prims_scheme \<Rightarrow> int \<Rightarrow> int \<Rightarrow> bool \<Rightarrow> uchar list
    \<Rightarrow> 'w xlink \<Rightarrow> (bool \<times> 'w xlink) option" where
  "handshake_send code d i len result [] s = Some (result, s)"
| "handshake_send code d i len result (b # bs) s =
     do { s \<leftarrow> d_write d b s;
          s \<leftarrow> d_strobe d s;
          (result, s) \<leftarrow> d_wait d (drv_timeout s * 1083) s;
          if \<not> result then
            Some (result, SET_ERROR code ''transfer timeout (%d of %d bytes sent)''
                     [Aint i, Aint len] s)
          else handshake_send code d (i + 1) len result bs s }"

fun handshake_receive :: "int \<Rightarrow> ('w, 'm) prims_scheme \<Rightarrow> int \<Rightarrow> int \<Rightarrow> bool \<Rightarrow> nat \<Rightarrow> uchar list
    \<Rightarrow> 'w xlink \<Rightarrow> ((bool \<times> uchar list) \<times> 'w xlink) option" where
  "handshake_receive code d i len result 0 data s = Some ((result, data), s)"
| "handshake_receive code d i len result (Suc n) data s =
     do { (result, s) \<leftarrow> d_wait d (drv_timeout s * 1083) s;
          if \<not> result then
            Some ((result, data), SET_ERROR code ''transfer timeout (%d of %d bytes received)''
                     [Aint i, Aint len] s)
          else
            do { (b, s) \<leftarrow> d_read d s;
                 s \<leftarrow> d_strobe d s;
                 handshake_receive code d (i + 1) len result n (data @ [b]) s } }"

lemma handshake_send_result:
  assumes prims: "\<And>b s s'. d_write d b s = Some s' \<Longrightarrow> core s' = core s"
    "\<And>s s'. d_strobe d s = Some s' \<Longrightarrow> core s' = core s"
    "\<And>t s r s'. d_wait d t s = Some (r, s') \<Longrightarrow> core s' = core s"
  shows "handshake_send code d i len r0 bs s = Some (r, s') \<Longrightarrow>
    seat s' = seat s \<and> (bs \<noteq> [] \<longrightarrow> \<not> r \<longrightarrow> err_code s' = code)"
proof (induction bs arbitrary: i r0 s)
  case (Cons b bs)
  then obtain s1 s2 q s3 where one: "d_write d b s = Some s1" "d_strobe d s1 = Some s2"
      "d_wait d (drv_timeout s2 * 1083) s2 = Some (q, s3)"
    and rest: "if q then handshake_send code d (i + 1) len True bs s3 = Some (r, s')
      else r = False \<and> s' = SET_ERROR code ''transfer timeout (%d of %d bytes sent)'' [Aint i, Aint len] s3"
    by (auto simp: bind_iff split: if_splits)
  have "core s3 = core s" using prims(1) [OF one(1)] prims(2) [OF one(2)] prims(3) [OF one(3)] by simp
  then have "seat s3 = seat s" by (rule core_seat)
  show ?case
  proof (cases q)
    case True
    with rest have go: "handshake_send code d (i + 1) len True bs s3 = Some (r, s')" by simp
    from Cons.IH [OF go] go \<open>seat s3 = seat s\<close> show ?thesis by (cases bs) auto
  next
    case False
    with rest \<open>seat s3 = seat s\<close> show ?thesis by simp
  qed
qed simp

lemma handshake_receive_result:
  assumes prims: "\<And>b s s'. d_read d s = Some (b, s') \<Longrightarrow> core s' = core s"
    "\<And>s s'. d_strobe d s = Some s' \<Longrightarrow> core s' = core s"
    "\<And>t s r s'. d_wait d t s = Some (r, s') \<Longrightarrow> core s' = core s"
  shows "handshake_receive code d i len r0 n bs s = Some ((r, bs'), s') \<Longrightarrow>
    seat s' = seat s \<and> (n \<noteq> 0 \<longrightarrow> \<not> r \<longrightarrow> err_code s' = code)"
proof (induction n arbitrary: i r0 bs s)
  case (Suc n)
  then obtain q s1 where one: "d_wait d (drv_timeout s * 1083) s = Some (q, s1)"
    and rest: "if q then (\<exists>b s2 s3. d_read d s1 = Some (b, s2) \<and> d_strobe d s2 = Some s3 \<and>
        handshake_receive code d (i + 1) len True n (bs @ [b]) s3 = Some ((r, bs'), s'))
      else r = False \<and> s' = SET_ERROR code ''transfer timeout (%d of %d bytes received)'' [Aint i, Aint len] s1"
    by (auto simp: bind_iff split: if_splits)
  show ?case
  proof (cases q)
    case True
    with rest obtain b s2 s3 where two: "d_read d s1 = Some (b, s2)" "d_strobe d s2 = Some s3"
      and go: "handshake_receive code d (i + 1) len True n (bs @ [b]) s3 = Some ((r, bs'), s')" by auto
    have "core s3 = core s" using prims(3) [OF one] prims(1) [OF two(1)] prims(2) [OF two(2)] by simp
    then have "seat s3 = seat s" by (rule core_seat)
    with Suc.IH [OF go] go show ?thesis by (cases n) auto
  next
    case False
    with rest core_seat [OF prims(3) [OF one]] show ?thesis by simp
  qed
qed simp

section \<open>The contract of a byte port\<close>

text \<open>
  \<open>outp s\<close> says the port drives the data lines, \<open>wire\<close> reads off the trace what was on the
  lines at each strobe, where a byte b sent shows as \<open>put b\<close>.
\<close>

locale byte_port =
  fixes d :: "('w, 'm) prims_scheme"
    and put :: "uchar \<Rightarrow> 'b"
    and outp :: "'w xlink \<Rightarrow> bool"
    and wire :: "os_event list \<Rightarrow> 'b list"
  assumes put_byte:
    "outp s \<Longrightarrow> d_write d b s = Some s1 \<Longrightarrow> d_strobe d s1 = Some s2 \<Longrightarrow> d_wait d t s2 = Some (r, s3) \<Longrightarrow>
     outp s3 \<and> wire (trace s3) = wire (trace s) @ [put b]"
    and outp_error: "outp (SET_ERROR c f a s) = outp s"
begin

lemma send_outp: "handshake_send code d i len r0 data s = Some (r, s') \<Longrightarrow> outp s \<Longrightarrow> outp s'"
proof (induction data arbitrary: i r0 s)
  case (Cons b bs)
  then obtain s1 s2 r1 s3 where
    one: "d_write d b s = Some s1" "d_strobe d s1 = Some s2"
      "d_wait d (drv_timeout s2 * 1083) s2 = Some (r1, s3)"
    and rest: "if r1 then handshake_send code d (i + 1) len True bs s3 = Some (r, s')
      else r = False \<and> s' = SET_ERROR code ''transfer timeout (%d of %d bytes sent)'' [Aint i, Aint len] s3"
    by (auto simp: bind_iff split: if_splits)
  from put_byte [OF Cons.prems(2) one] rest Cons.IH [of "i + 1" True s3] show ?case
    by (auto simp: outp_error split: if_splits)
qed simp

lemma send_wire:
  "handshake_send code d i len r0 data s = Some (r, s') \<Longrightarrow> outp s \<Longrightarrow> data \<noteq> [] \<Longrightarrow>
   (r \<and> wire (trace s') = wire (trace s) @ map put data) \<or>
   (\<not> r \<and> err_code s' = code \<and>
      (\<exists>k < length data. wire (trace s') = wire (trace s) @ map put (take (Suc k) data) \<and>
         err_message s' = (''transfer timeout (%d of %d bytes sent)'', [Aint (i + int k), Aint len])))"
proof (induction data arbitrary: i r0 s)
  case Nil
  then show ?case by simp
next
  case (Cons b bs)
  then obtain s1 s2 r1 s3 where
    one: "d_write d b s = Some s1" "d_strobe d s1 = Some s2"
      "d_wait d (drv_timeout s2 * 1083) s2 = Some (r1, s3)"
    and rest: "if r1 then handshake_send code d (i + 1) len True bs s3 = Some (r, s')
      else r = False \<and> s' = SET_ERROR code ''transfer timeout (%d of %d bytes sent)'' [Aint i, Aint len] s3"
    by (auto simp: bind_iff split: if_splits)
  have p: "outp s3" "wire (trace s3) = wire (trace s) @ [put b]"
    using put_byte [OF Cons.prems(2) one] by auto
  show ?case
  proof (cases "r1 \<and> bs \<noteq> []")
    case True
    with rest have "handshake_send code d (i + 1) len True bs s3 = Some (r, s')" by simp
    from Cons.IH [OF this p(1)] True
    consider "r" "wire (trace s') = wire (trace s3) @ map put bs"
      | k where "\<not> r" "err_code s' = code" "k < length bs" "wire (trace s') = wire (trace s3) @ map put (take (Suc k) bs)"
          "err_message s' = (''transfer timeout (%d of %d bytes sent)'', [Aint (i + 1 + int k), Aint len])"
      by blast
    then show ?thesis
    proof cases
      case 1
      with p show ?thesis by simp
    next
      case (2 k)
      with p show ?thesis by (intro disjI2 conjI exI [of _ "Suc k"]) (auto simp: add.assoc)
    qed
  next
    case False
    with rest p show ?thesis by (auto simp: SET_ERROR_def split: if_splits)
  qed
qed

end

text \<open>
  The other half: \<open>inp s\<close> says the port listens. A byte taken is read off the lines and
  acknowledged with a strobe, which shows on the wire as \<open>got b\<close>; waiting shows nothing.
\<close>

locale byte_source =
  fixes d :: "('w, 'm) prims_scheme"
    and got :: "uchar \<Rightarrow> 'b"
    and inp :: "'w xlink \<Rightarrow> bool"
    and wire :: "os_event list \<Rightarrow> 'b list"
  assumes take_byte: "inp s \<Longrightarrow> d_read d s = Some (b, s1) \<Longrightarrow> d_strobe d s1 = Some s2 \<Longrightarrow>
      inp s2 \<and> wire (trace s2) = wire (trace s) @ [got b]"
    and wait_quiet: "inp s \<Longrightarrow> d_wait d t s = Some (r, s') \<Longrightarrow> inp s' \<and> wire (trace s') = wire (trace s)"
    and inp_error: "inp (SET_ERROR c f a s) = inp s"
begin

lemma receive_wire:
  "handshake_receive code d i len r0 n data s = Some ((r, data'), s') \<Longrightarrow> inp s \<Longrightarrow>
   \<exists>bs. data' = data @ bs \<and> inp s' \<and> wire (trace s') = wire (trace s) @ map got bs \<and>
     (n \<noteq> 0 \<longrightarrow> (r \<and> length bs = n) \<or>
        (\<not> r \<and> length bs < n \<and> err_code s' = code \<and>
         err_message s' = (''transfer timeout (%d of %d bytes received)'', [Aint (i + int (length bs)), Aint len])))"
proof (induction n arbitrary: i r0 data s)
  case (Suc n)
  then obtain q s1 where one: "d_wait d (drv_timeout s * 1083) s = Some (q, s1)"
    and rest: "if q then (\<exists>b s2 s3. d_read d s1 = Some (b, s2) \<and> d_strobe d s2 = Some s3 \<and>
        handshake_receive code d (i + 1) len True n (data @ [b]) s3 = Some ((r, data'), s'))
      else r = False \<and> data' = data \<and> s' = SET_ERROR code ''transfer timeout (%d of %d bytes received)'' [Aint i, Aint len] s1"
    by (auto simp: bind_iff split: if_splits)
  note w = wait_quiet [OF Suc.prems(2) one]
  show ?case
  proof (cases q)
    case True
    with rest obtain b s2 s3 where two: "d_read d s1 = Some (b, s2)" "d_strobe d s2 = Some s3"
      and go: "handshake_receive code d (i + 1) len True n (data @ [b]) s3 = Some ((r, data'), s')" by auto
    have t: "inp s3" "wire (trace s3) = wire (trace s) @ [got b]"
      using take_byte [OF _ two] w by simp_all
    from Suc.IH [OF go t(1)] obtain bs where bs: "data' = data @ b # bs" "inp s'"
      "wire (trace s') = wire (trace s3) @ map got bs"
      "n \<noteq> 0 \<longrightarrow> (r \<and> length bs = n) \<or>
        (\<not> r \<and> length bs < n \<and> err_code s' = code \<and>
         err_message s' = (''transfer timeout (%d of %d bytes received)'', [Aint (i + 1 + int (length bs)), Aint len]))"
      by auto
    have "n = 0 \<Longrightarrow> r \<and> bs = []" using go bs(1) by simp
    with bs t show ?thesis by (intro exI [of _ "b # bs"]) (cases n, auto simp: add.assoc)
  next
    case False
    with rest w show ?thesis by (auto simp: SET_ERROR_def inp_error [unfolded SET_ERROR_def])
  qed
qed simp

end

end
