(* ===== verification/Parport.thy ===== *)
theory Parport
  imports Handshake
begin

text \<open>
  driver/parport.c, the Linux branches: the parallel port through ppdev ioctls. The two
  static variables are \<open>pp_last_status\<close> and \<open>pp_initialized\<close> of the library state.
\<close>

definition HIGH :: uchar where "HIGH = 1"
definition LOW :: uchar where "LOW = 0"

definition PARPORT_CONTROL_STROBE :: uchar where "PARPORT_CONTROL_STROBE = 0x01"
definition PARPORT_CONTROL_INIT :: uchar where "PARPORT_CONTROL_INIT = 0x04"
definition PARPORT_CONTROL_SELECT :: uchar where "PARPORT_CONTROL_SELECT = 0x08"
definition PARPORT_CONTROL_IRQ :: uchar where "PARPORT_CONTROL_IRQ = 0x10"
definition PARPORT_CONTROL_INPUT :: uchar where "PARPORT_CONTROL_INPUT = 0x20"

lemmas parport_consts = HIGH_def LOW_def PARPORT_CONTROL_STROBE_def PARPORT_CONTROL_INIT_def
  PARPORT_CONTROL_SELECT_def PARPORT_CONTROL_IRQ_def PARPORT_CONTROL_INPUT_def

definition parport_read_status :: "'w sys \<Rightarrow> 'w xlink \<Rightarrow> uchar \<times> 'w xlink" where
  "parport_read_status sy s =
     (let (r, s) = ask (pp_rstatus (sy_pp sy) (drv_device s)) s;
          status = (case r of None \<Rightarrow> 0xff | Some v \<Rightarrow> v)
      in (status AND 0x80, s))"

definition parport_set_control :: "'w sys \<Rightarrow> uchar \<Rightarrow> 'w xlink \<Rightarrow> 'w xlink" where
  "parport_set_control sy control s =
     act (PpControl (drv_device s) control) (pp_wcontrol (sy_pp sy) (drv_device s) control) s"

definition parport_frob_control :: "'w sys \<Rightarrow> uchar \<Rightarrow> uchar \<Rightarrow> 'w xlink \<Rightarrow> 'w xlink" where
  "parport_frob_control sy msk state s =
     (let val = (if state = HIGH then msk else LOW)
      in act (PpFrob (drv_device s) msk val) (pp_fcontrol (sy_pp sy) (drv_device s) msk val) s)"

definition parport_init :: "'w sys \<Rightarrow> 'w xlink \<Rightarrow> 'w xlink" where
  "parport_init sy s =
     (let s = act (PpFlags (drv_device s)) (pp_setflags (sy_pp sy) (drv_device s)) s;
          s = parport_set_control sy
                (((PARPORT_CONTROL_SELECT OR PARPORT_CONTROL_INIT) OR PARPORT_CONTROL_INPUT)
                 OR PARPORT_CONTROL_IRQ) s
      in if \<not> pp_initialized s then
           (let (status, s) = parport_read_status sy s
            in s\<lparr>pp_last_status := status, pp_initialized := True\<rparr>)
         else s)"

definition driver_parport_open :: "'w sys \<Rightarrow> 'w xlink \<Rightarrow> (bool \<times> 'w xlink) option" where
  "driver_parport_open sy s =
     (let (fd, s) = ask (os_open (sy_os sy) (drv_path s)) s;
          s = emit (OpenFile (drv_path s) fd) (s\<lparr>drv_device := fd\<rparr>)
      in if fd = -1 then
           Some (False, SET_ERROR XLINK_ERROR_PARPORT ''Couldn't open %s'' [Astr (drv_path s)] s)
         else
           (let (r, s) = ask (pp_claim (sy_pp sy) (drv_device s)) s;
                s = emit (PpClaim (drv_device s)) s
            in if (r = 0) = False then
                 Some (False, SET_ERROR XLINK_ERROR_PARPORT ''Couldn't claim %s'' [Astr (drv_path s)] s)
               else Some (True, CLEAR_ERROR_IF True (parport_init sy s))))"

definition driver_parport_close :: "'w sys \<Rightarrow> 'w xlink \<Rightarrow> 'w xlink option" where
  "driver_parport_close sy s =
     (let s = act (PpRelease (drv_device s)) (pp_release (sy_pp sy) (drv_device s)) s
      in Some (act (CloseFile (drv_device s)) (os_close (sy_os sy) (drv_device s)) s))"

definition driver_parport_strobe :: "'w sys \<Rightarrow> 'w xlink \<Rightarrow> 'w xlink option" where
  "driver_parport_strobe sy s =
     (let s = parport_frob_control sy PARPORT_CONTROL_STROBE LOW s
      in Some (parport_frob_control sy PARPORT_CONTROL_STROBE HIGH s))"

text \<open>The two polling loops of the wait: without and with a time limit in milliseconds.\<close>

partial_function (option) parport_poll :: "'w sys \<Rightarrow> uchar \<Rightarrow> 'w xlink \<Rightarrow> (uchar \<times> 'w xlink) option" where
  "parport_poll sy current s =
     (if current = pp_last_status s then
        parport_poll sy (fst (parport_read_status sy s)) (snd (parport_read_status sy s))
      else Some (current, s))"

declare parport_poll.simps [code]

partial_function (option) parport_poll_timed ::
  "'w sys \<Rightarrow> timeval \<Rightarrow> int \<Rightarrow> uchar \<Rightarrow> 'w xlink \<Rightarrow> (bool \<times> uchar \<times> 'w xlink) option" where
  "parport_poll_timed sy start timeout current s =
     (if current = pp_last_status s then
        (case parport_read_status sy s of (current, s) \<Rightarrow>
           if current \<noteq> pp_last_status s then Some (True, current, s)
           else (case now sy s of (t, s) \<Rightarrow>
             if watch_expired start t timeout then Some (False, current, s)
             else parport_poll_timed sy start timeout current s))
      else Some (True, current, s))"

declare parport_poll_timed.simps [code]

definition driver_parport_wait :: "'w sys \<Rightarrow> int \<Rightarrow> 'w xlink \<Rightarrow> (bool \<times> 'w xlink) option" where
  "driver_parport_wait sy timeout s =
     (let current = pp_last_status s;
          (_, s) = now sy s
      in if timeout \<le> 0 then
           do { (current, s) \<leftarrow> parport_poll sy current s;
                Some (True, s\<lparr>pp_last_status := current\<rparr>) }
         else
           (let (start, s) = now sy s in
            do { (result, current, s) \<leftarrow> parport_poll_timed sy start timeout current s;
                 if result then Some (True, s\<lparr>pp_last_status := current\<rparr>)
                 else Some (False, s) }))"

definition driver_parport_read :: "'w sys \<Rightarrow> 'w xlink \<Rightarrow> (uchar \<times> 'w xlink) option" where
  "driver_parport_read sy s =
     (let (r, s) = ask (pp_rdata (sy_pp sy) (drv_device s)) s;
          value = (case r of None \<Rightarrow> 0xff | Some v \<Rightarrow> v)
      in Some (value, emit (PpRead (drv_device s) value) s))"

definition driver_parport_write :: "'w sys \<Rightarrow> uchar \<Rightarrow> 'w xlink \<Rightarrow> 'w xlink option" where
  "driver_parport_write sy value s =
     Some (act (PpData (drv_device s) value) (pp_wdata (sy_pp sy) (drv_device s) value) s)"

definition driver_parport_send :: "('w, 'm) prims_scheme \<Rightarrow> uchar list \<Rightarrow> 'w xlink
    \<Rightarrow> (bool \<times> 'w xlink) option" where
  "driver_parport_send d data s =
     handshake_send XLINK_ERROR_PARPORT d 0 (int (length data)) False data s"

definition driver_parport_receive :: "('w, 'm) prims_scheme \<Rightarrow> nat \<Rightarrow> 'w xlink
    \<Rightarrow> ((bool \<times> uchar list) \<times> 'w xlink) option" where
  "driver_parport_receive d n s =
     handshake_receive XLINK_ERROR_PARPORT d 0 (int n) False n [] s"

definition driver_parport_input :: "'w sys \<Rightarrow> 'w xlink \<Rightarrow> 'w xlink option" where
  "driver_parport_input sy s = Some (parport_frob_control sy PARPORT_CONTROL_INPUT HIGH s)"

definition driver_parport_output :: "'w sys \<Rightarrow> 'w xlink \<Rightarrow> 'w xlink option" where
  "driver_parport_output sy s = Some (parport_frob_control sy PARPORT_CONTROL_INPUT LOW s)"

definition driver_parport_ping :: "('w, 'm) prims_scheme \<Rightarrow> 'w xlink \<Rightarrow> (bool \<times> 'w xlink) option" where
  "driver_parport_ping d s =
     do { s \<leftarrow> d_output d s;
          s \<leftarrow> d_write d 0xfd s;
          s \<leftarrow> d_strobe d s;
          d_wait d 250 s }"

definition driver_parport_reset :: "'w sys \<Rightarrow> 'w xlink \<Rightarrow> 'w xlink option" where
  "driver_parport_reset sy s =
     (let s = parport_frob_control sy PARPORT_CONTROL_INIT LOW s;
          s = usleep sy (10 * 1000) s
      in Some (parport_frob_control sy PARPORT_CONTROL_INIT HIGH s))"

definition driver_parport_boot :: "'w xlink \<Rightarrow> 'w xlink option" where
  "driver_parport_boot s = Some s"

definition driver_parport_free :: "'w xlink \<Rightarrow> 'w xlink option" where
  "driver_parport_free s = Some s"

section \<open>What the port operations keep, and what they trace\<close>

lemma status_quiet [simp]:
  "core (snd (parport_read_status sy s)) = core s"
  "trace (snd (parport_read_status sy s)) = trace s"
  by (simp_all add: parport_read_status_def case_prod_unfold Let_def)

lemma status_keeps:
  "parport_read_status sy s = (r, t) \<Longrightarrow> core t = core s \<and> trace t = trace s"
  using status_quiet [of sy s] by simp

lemma poll_quiet:
  assumes "parport_poll sy c s = Some (c', s')"
  shows "core s' = core s \<and> trace s' = trace s"
proof -
  have "core (snd (c', s')) = core s \<and> trace (snd (c', s')) = trace s"
    by (rule parport_poll.raw_induct [where P = "\<lambda>sy c s y. core (snd y) = core s \<and> trace (snd y) = trace s",
          OF _ assms])
      (auto split: if_splits)
  then show ?thesis by simp
qed

lemma poll_timed_quiet:
  assumes "parport_poll_timed sy st n c s = Some (r, c', s')"
  shows "core s' = core s \<and> trace s' = trace s"
proof -
  have "core (snd (snd (r, c', s'))) = core s \<and> trace (snd (snd (r, c', s'))) = trace s"
    by (rule parport_poll_timed.raw_induct [where P = "\<lambda>sy st n c s y. core (snd (snd y)) = core s \<and> trace (snd (snd y)) = trace s",
          OF _ assms])
      (auto split: if_splits prod.splits dest!: status_keeps now_keeps)
  then show ?thesis by simp
qed

lemma parport_wait_quiet:
  "driver_parport_wait sy t s = Some (r, s') \<Longrightarrow> core s' = core s \<and> trace s' = trace s"
  unfolding driver_parport_wait_def
  by (auto simp: case_prod_unfold Let_def bind_iff split: if_splits
      dest!: poll_quiet poll_timed_quiet)

lemma parport_core [core_keep]:
  "driver_parport_input sy s = Some s' \<Longrightarrow> core s' = core s"
  "driver_parport_output sy s = Some s' \<Longrightarrow> core s' = core s"
  "driver_parport_strobe sy s = Some s' \<Longrightarrow> core s' = core s"
  "driver_parport_write sy v s = Some s' \<Longrightarrow> core s' = core s"
  "driver_parport_read sy s = Some (v', s') \<Longrightarrow> core s' = core s"
  "driver_parport_wait sy t s = Some (r, s') \<Longrightarrow> core s' = core s"
  "driver_parport_reset sy s = Some s' \<Longrightarrow> core s' = core s"
  "driver_parport_boot s = Some s' \<Longrightarrow> core s' = core s"
  "driver_parport_close sy s = Some s' \<Longrightarrow> core s' = core s"
  by (auto simp: driver_parport_input_def driver_parport_output_def driver_parport_strobe_def
      driver_parport_write_def driver_parport_read_def driver_parport_reset_def driver_parport_boot_def
      driver_parport_close_def parport_frob_control_def Let_def case_prod_unfold
      dest: parport_wait_quiet)

lemma parport_init_core [simp]: "core (parport_init sy s) = core s"
  by (simp add: parport_init_def parport_set_control_def case_prod_unfold Let_def)

lemma parport_init_seat [simp]: "seat (parport_init sy s) = seat s"
  by (rule core_seat) simp

lemma parport_open_result:
  "driver_parport_open sy s = Some (r, s') \<Longrightarrow> seat s' = seat s \<and> (err_code s' = XLINK_SUCCESS \<longleftrightarrow> r)"
  by (auto simp: driver_parport_open_def case_prod_unfold Let_def error_codes split: if_splits)

end
