(* ===== verification/Protocol.thy ===== *)
theory Protocol
  imports Prelude
begin

text \<open>
  The adapter protocol of driver/protocol.h and the 9 byte command frame in which serial.c
  sends it and the servant64 firmware reads it.
\<close>

definition CMD_RESET :: uchar where "CMD_RESET = 0x01"
definition CMD_STROBE :: uchar where "CMD_STROBE = 0x02"
definition CMD_ACKED :: uchar where "CMD_ACKED = 0x03"
definition CMD_INPUT :: uchar where "CMD_INPUT = 0x04"
definition CMD_OUTPUT :: uchar where "CMD_OUTPUT = 0x05"
definition CMD_READ :: uchar where "CMD_READ = 0x06"
definition CMD_WRITE :: uchar where "CMD_WRITE = 0x07"
definition CMD_SEND :: uchar where "CMD_SEND = 0x08"
definition CMD_RECEIVE :: uchar where "CMD_RECEIVE = 0x09"
definition CMD_BOOT :: uchar where "CMD_BOOT = 0x0a"

lemmas cmd_defs = CMD_RESET_def CMD_STROBE_def CMD_ACKED_def CMD_INPUT_def CMD_OUTPUT_def
  CMD_READ_def CMD_WRITE_def CMD_SEND_def CMD_RECEIVE_def CMD_BOOT_def

definition cmd_frame :: "uchar \<Rightarrow> uint \<Rightarrow> uint \<Rightarrow> uchar list" where
  "cmd_frame cmd arg1 arg2 =
     [cmd, lo arg1, hi arg1, hlo arg1, hhi arg1, lo arg2, hi arg2, hlo arg2, hhi arg2]"

lemma length_cmd_frame [simp]: "length (cmd_frame c a b) = 9"
  by (simp add: cmd_frame_def)

end
