(* ===== verification/Usb.thy ===== *)
theory Usb
  imports Environment Protocol
begin

text \<open>
  driver/usb.c, the Linux branches: device discovery over libusb and the adapter's vendor
  control requests. The statics \<open>handle\<close> and \<open>response\<close> are \<open>usb_handle\<close> and
  \<open>usb_response\<close>. A control transfer on a null handle kills the process: \<open>None\<close>.
\<close>

section \<open>Device discovery\<close>

record device_info =
  di_vid :: int
  di_pid :: int
  di_bus :: int
  di_address :: int
  di_serial :: "string option"

definition usb_prefix :: string where "usb_prefix = ''/dev/bus/usb/''"

definition driver_usb_lookup :: "'w sys \<Rightarrow> string \<Rightarrow> 'w xlink \<Rightarrow> device_info option" where
  "driver_usb_lookup sy path s =
     (let info = \<lparr>di_vid = 0x1d50, di_pid = 0x60c8, di_bus = -1, di_address = -1, di_serial = None\<rparr>
      in case os_realpath (sy_os sy) path (world s) of
           None \<Rightarrow> None
         | Some real \<Rightarrow>
             if take (length usb_prefix) real = usb_prefix then
               (let tmp = drop (length usb_prefix) real
                in Some (info\<lparr>di_bus := int_of_long (strtol10 (take 3 tmp)),
                              di_address := int_of_long (strtol10 (drop 4 tmp))\<rparr>))
             else Some info)"

fun usb_find :: "'w sys \<Rightarrow> device_info \<Rightarrow> int list \<Rightarrow> 'w xlink \<Rightarrow> int option \<times> 'w xlink" where
  "usb_find sy info [] s = (None, s)"
| "usb_find sy info (device # devices) s =
     (case ask (usb_descriptor (sy_usb sy) device) s of
        (Inl r, s) \<Rightarrow>
          usb_find sy info devices
            (s\<lparr>lg := logger_debug ''could not get usb device descriptor: %d'' [Aint r] (lg s)\<rparr>)
      | (Inr (idVendor, idProduct, iSerialNumber), s) \<Rightarrow>
          if idVendor = di_vid info \<and> idProduct = di_pid info then
            if di_bus info > -1 \<and> usb_bus (sy_usb sy) device (world s) \<noteq> di_bus info
            then usb_find sy info devices s
            else if di_address info > -1 \<and> usb_address (sy_usb sy) device (world s) \<noteq> di_address info
            then usb_find sy info devices s
            else if di_serial info \<noteq> None \<and> iSerialNumber \<noteq> 0 then
              (case ask (usb_open (sy_usb sy) device) s of
                 (Inl r, s) \<Rightarrow>
                   usb_find sy info devices
                     (s\<lparr>lg := logger_debug ''could not open usb device %03d/%03d''
                          [Aint (usb_bus (sy_usb sy) device (world s)),
                           Aint (usb_address (sy_usb sy) device (world s))] (lg s)\<rparr>)
               | (Inr handle, s) \<Rightarrow>
                   (case ask (usb_string (sy_usb sy) handle iSerialNumber) (emit (UsbOpen handle) s) of
                      (Inl r, s) \<Rightarrow>
                        usb_find sy info devices
                          (act (UsbClose handle) (usb_close (sy_usb sy) handle)
                            (s\<lparr>lg := logger_debug ''could not get serial number from device: %d'' [Aint r] (lg s)\<rparr>))
                    | (Inr serial, s) \<Rightarrow>
                        if Some serial = di_serial info then (Some handle, s)
                        else usb_find sy info devices
                               (act (UsbClose handle) (usb_close (sy_usb sy) handle) s)))
            else
              (case ask (usb_open (sy_usb sy) device) s of
                 (Inl r, s) \<Rightarrow>
                   (None, SET_ERROR XLINK_ERROR_LIBUSB ''could not open usb device %03d/%03d''
                       [Aint (usb_bus (sy_usb sy) device (world s)),
                        Aint (usb_address (sy_usb sy) device (world s))] s)
               | (Inr handle, s) \<Rightarrow> (Some handle, emit (UsbOpen handle) s))
          else usb_find sy info devices s)"

definition driver_usb_open_device :: "'w sys \<Rightarrow> device_info \<Rightarrow> 'w xlink \<Rightarrow> int option \<times> 'w xlink" where
  "driver_usb_open_device sy info s =
     (case ask (usb_device_list (sy_usb sy)) s of
        (Inl r, s) \<Rightarrow> (None, SET_ERROR XLINK_ERROR_LIBUSB ''could not get usb device list: %d'' [Aint r] s)
      | (Inr devices, s) \<Rightarrow>
          (case usb_find sy info devices s of
             (handle, s) \<Rightarrow> (handle, CLEAR_ERROR_IF (handle \<noteq> None) s)))"

section \<open>Control transfers\<close>

definition usb_transfer :: "'w sys \<Rightarrow> bool \<Rightarrow> int \<Rightarrow> int \<Rightarrow> uchar list \<Rightarrow> int \<Rightarrow> 'w xlink
    \<Rightarrow> ((int \<times> uchar list) \<times> 'w xlink) option" where
  "usb_transfer sy inward message value buffer len s =
     (case usb_handle s of
        None \<Rightarrow> None
      | Some handle \<Rightarrow>
          (let index = drv_timeout s mod 2 ^ 16;
               v = value mod 2 ^ 16;
               n = len mod 2 ^ 16;
               (r, s) = ask (usb_control (sy_usb sy) handle inward message v index buffer n
                              ((drv_timeout s + 1) * 1036)) s
           in Some (r, emit (UsbControl inward message v index buffer n) s)))"

definition controlEndpointIn :: "'w sys \<Rightarrow> uchar \<Rightarrow> int \<Rightarrow> 'w xlink
    \<Rightarrow> ((int \<times> uchar list) \<times> 'w xlink) option" where
  "controlEndpointIn sy message len s = usb_transfer sy True (uint message) 0 [] len s"

definition controlEndpointOut :: "'w sys \<Rightarrow> uchar \<Rightarrow> uchar list \<Rightarrow> 'w xlink
    \<Rightarrow> (int \<times> 'w xlink) option" where
  "controlEndpointOut sy message buffer s =
     do { ((n, _), s) \<leftarrow> usb_transfer sy False (uint message) 0 buffer (int (length buffer)) s;
          Some (n, s) }"

definition controlEndpointOutWithValue :: "'w sys \<Rightarrow> uchar \<Rightarrow> int \<Rightarrow> 'w xlink
    \<Rightarrow> (int \<times> 'w xlink) option" where
  "controlEndpointOutWithValue sy message value s =
     do { ((n, _), s) \<leftarrow> usb_transfer sy False (uint message) value [] 0 s;
          Some (n, s) }"

definition usb_ctl :: "'w sys \<Rightarrow> uchar \<Rightarrow> 'w xlink \<Rightarrow> 'w xlink option" where
  "usb_ctl sy message s =
     do { (_, s) \<leftarrow> controlEndpointOut sy message [] s; Some s }"

section \<open>The driver\<close>

definition driver_usb_open :: "'w sys \<Rightarrow> 'w xlink \<Rightarrow> (bool \<times> 'w xlink) option" where
  "driver_usb_open sy s =
     (let (r, s) = ask (usb_init (sy_usb sy)) s; s = emit UsbInit s
      in if r < 0 then
           Some (False, SET_ERROR XLINK_ERROR_LIBUSB ''could not initialize libusb-1.0: %d'' [Aint r] s)
         else
           do { info \<leftarrow> driver_usb_lookup sy (drv_path s) s;
                let (h, s) = driver_usb_open_device sy info s;
                let s = s\<lparr>usb_handle := h\<rparr>;
                if h = None then
                  (let s = SET_ERROR XLINK_ERROR_LIBUSB ''could not open device \"%s\"'' [Astr (drv_path s)] s
                   in Some (False, act UsbExit (usb_exit (sy_usb sy)) s))
                else
                  do { s \<leftarrow> usb_ctl sy CMD_INPUT s;
                       Some (True, CLEAR_ERROR_IF True s) } })"

definition driver_usb_strobe :: "'w sys \<Rightarrow> 'w xlink \<Rightarrow> 'w xlink option" where
  "driver_usb_strobe sy s = usb_ctl sy CMD_STROBE s"

text \<open>Every result but 0, an error too, counts as an answer; the old response is then read.\<close>

definition usb_get_response :: "uchar list \<Rightarrow> 'w xlink \<Rightarrow> 'w xlink" where
  "usb_get_response bs s = (case bs of [] \<Rightarrow> s | b # _ \<Rightarrow> s\<lparr>usb_response := b\<rparr>)"

definition usb_acked :: "'w sys \<Rightarrow> 'w xlink \<Rightarrow> (bool \<times> 'w xlink) option" where
  "usb_acked sy s =
     do { ((n, bs), s) \<leftarrow> controlEndpointIn sy CMD_ACKED 1 s;
          let s = usb_get_response bs s;
          if n \<noteq> 0 then Some (usb_response s = 1, s) else Some (False, s) }"

partial_function (option) usb_wait_ever :: "'w sys \<Rightarrow> 'w xlink \<Rightarrow> (bool \<times> 'w xlink) option" where
  "usb_wait_ever sy s =
     do { (r, s) \<leftarrow> usb_acked sy s;
          if \<not> r then usb_wait_ever sy s else Some (True, s) }"

declare usb_wait_ever.simps [code]

partial_function (option) usb_wait_timed :: "'w sys \<Rightarrow> int \<Rightarrow> bool \<Rightarrow> 'w xlink
    \<Rightarrow> (bool \<times> 'w xlink) option" where
  "usb_wait_timed sy timeout result s =
     (if timeout \<noteq> 0 then
        do { (result, s) \<leftarrow> usb_acked sy s;
             if \<not> result then usb_wait_timed sy (timeout - 10) result (usleep sy (10 * 1000) s)
             else Some (result, s) }
      else Some (result, s))"

declare usb_wait_timed.simps [code]

definition driver_usb_wait :: "'w sys \<Rightarrow> int \<Rightarrow> 'w xlink \<Rightarrow> (bool \<times> 'w xlink) option" where
  "driver_usb_wait sy timeout s =
     (let s = s\<lparr>usb_response := 0\<rparr>
      in if timeout \<le> 0 then usb_wait_ever sy s else usb_wait_timed sy timeout False s)"

definition driver_usb_write :: "'w sys \<Rightarrow> uchar \<Rightarrow> 'w xlink \<Rightarrow> 'w xlink option" where
  "driver_usb_write sy value s =
     do { (_, s) \<leftarrow> controlEndpointOutWithValue sy CMD_WRITE (uint value) s; Some s }"

definition driver_usb_read :: "'w sys \<Rightarrow> 'w xlink \<Rightarrow> (uchar \<times> 'w xlink) option" where
  "driver_usb_read sy s =
     do { ((_, bs), s) \<leftarrow> controlEndpointIn sy CMD_READ 1 s;
          let s = usb_get_response bs s;
          Some (usb_response s, s) }"

definition MAX_PAYLOAD_SIZE :: ushort where "MAX_PAYLOAD_SIZE = 4096"

text \<open>
  The transfer of a chunk: what \<open>transfer->data\<close> points to (bytes still to send, or bytes
  received so far) and how many bytes are completed.
\<close>

record transfer =
  t_data :: "uchar list"
  t_completed :: uint

definition send_chunk :: "'w sys \<Rightarrow> ushort \<Rightarrow> transfer \<times> 'w xlink
    \<Rightarrow> (bool \<times> transfer \<times> 'w xlink) option" where
  "send_chunk sy chunk ts =
     (case ts of (t, s) \<Rightarrow>
        do { (transfered, s) \<leftarrow> controlEndpointOut sy CMD_SEND (take (unat chunk) (t_data t)) s;
             if transfered < 0 then Some (False, t, s)
             else if transfered < uint chunk then
               Some (False, t\<lparr>t_completed := t_completed t + word_of_int transfered\<rparr>, s)
             else
               Some (True, t\<lparr>t_data := drop (unat chunk) (t_data t),
                             t_completed := t_completed t + ucast chunk\<rparr>, s) })"

definition driver_usb_send :: "'w sys \<Rightarrow> uchar list \<Rightarrow> 'w xlink \<Rightarrow> (bool \<times> 'w xlink) option" where
  "driver_usb_send sy data s =
     do { (_, t, s) \<leftarrow> chunked (send_chunk sy) MAX_PAYLOAD_SIZE (int (length data))
                        (\<lparr>t_data = data, t_completed = 0\<rparr>, s);
          let result = (t_completed t = word_of_nat (length data));
          let s = (if \<not> result
                   then SET_ERROR XLINK_ERROR_LIBUSB ''transfer timeout (%d of %d bytes sent)''
                          [Aint (uint (t_completed t)), Aint (int (length data))] s
                   else s);
          Some (result, CLEAR_ERROR_IF result s) }"

definition receive_chunk :: "'w sys \<Rightarrow> ushort \<Rightarrow> transfer \<times> 'w xlink
    \<Rightarrow> (bool \<times> transfer \<times> 'w xlink) option" where
  "receive_chunk sy chunk ts =
     (case ts of (t, s) \<Rightarrow>
        do { ((transfered, bs), s) \<leftarrow> controlEndpointIn sy CMD_RECEIVE (uint chunk) s;
             let t' = t\<lparr>t_data := t_data t @ take (unat chunk) bs\<rparr>;
             if transfered < 0 then Some (False, t', s)
             else if transfered < uint chunk then
               Some (False, t'\<lparr>t_completed := t_completed t + word_of_int transfered\<rparr>, s)
             else Some (True, t'\<lparr>t_completed := t_completed t + ucast chunk\<rparr>, s) })"

definition driver_usb_receive :: "'w sys \<Rightarrow> nat \<Rightarrow> 'w xlink
    \<Rightarrow> ((bool \<times> uchar list) \<times> 'w xlink) option" where
  "driver_usb_receive sy len s =
     do { (_, t, s) \<leftarrow> chunked (receive_chunk sy) MAX_PAYLOAD_SIZE (int len)
                        (\<lparr>t_data = [], t_completed = 0\<rparr>, s);
          let result = (t_completed t = word_of_nat len);
          let s = (if \<not> result
                   then SET_ERROR XLINK_ERROR_LIBUSB ''transfer timeout (%d of %d bytes received)''
                          [Aint (uint (t_completed t)), Aint (int len)] s
                   else s);
          Some ((result, t_data t), CLEAR_ERROR_IF result s) }"

definition driver_usb_input :: "'w sys \<Rightarrow> 'w xlink \<Rightarrow> 'w xlink option" where
  "driver_usb_input sy s = usb_ctl sy CMD_INPUT s"

definition driver_usb_output :: "'w sys \<Rightarrow> 'w xlink \<Rightarrow> 'w xlink option" where
  "driver_usb_output sy s = usb_ctl sy CMD_OUTPUT s"

definition driver_usb_ping :: "('w, 'm) prims_scheme \<Rightarrow> 'w xlink \<Rightarrow> (bool \<times> 'w xlink) option" where
  "driver_usb_ping d s =
     do { s \<leftarrow> d_output d s;
          s \<leftarrow> d_write d 0xfd s;
          s \<leftarrow> d_strobe d s;
          d_wait d 250 s }"

definition driver_usb_reset :: "'w sys \<Rightarrow> 'w xlink \<Rightarrow> 'w xlink option" where
  "driver_usb_reset sy s = usb_ctl sy CMD_RESET s"

definition driver_usb_boot :: "'w sys \<Rightarrow> 'w xlink \<Rightarrow> 'w xlink option" where
  "driver_usb_boot sy s = usb_ctl sy CMD_BOOT s"

definition driver_usb_close :: "'w sys \<Rightarrow> 'w xlink \<Rightarrow> 'w xlink option" where
  "driver_usb_close sy s =
     (case usb_handle s of
        None \<Rightarrow> Some s
      | Some handle \<Rightarrow>
          (let s = act (UsbClose handle) (usb_close (sy_usb sy) handle) s
           in Some (act UsbExit (usb_exit (sy_usb sy)) s)))"

definition driver_usb_free :: "'w xlink \<Rightarrow> 'w xlink option" where
  "driver_usb_free s = Some (s\<lparr>usb_handle := None\<rparr>)"

section \<open>The chunk callbacks\<close>

lemma transfered_word:
  fixes m :: ushort
  assumes "0 \<le> n" "n < uint m"
  shows "\<exists>k < unat m. (word_of_int n :: uint) = word_of_nat k"
proof (intro exI conjI)
  have "uint m = int (unat m)" by simp
  then show "nat n < unat m" using assms by linarith
  show "(word_of_int n :: uint) = word_of_nat (nat n)" using assms(1) by simp
qed

interpretation us: chunk_callback "send_chunk sy" "\<lambda>ts. t_completed (fst ts)" for sy
proof unfold_locales
  fix c :: ushort and s s' :: "transfer \<times> 'a xlink"
  show "send_chunk sy c s = Some (True, s') \<Longrightarrow> t_completed (fst s') = t_completed (fst s) + ucast c"
    by (cases s) (auto simp: send_chunk_def bind_iff split: if_splits)
  show "send_chunk sy c s = Some (False, s') \<Longrightarrow> c \<noteq> 0 \<Longrightarrow>
      \<exists>k < unat c. t_completed (fst s') = t_completed (fst s) + word_of_nat k"
    using transfered_word [of _ c] unat_pos [of c]
    by (cases s) (fastforce simp: send_chunk_def bind_iff split: if_splits)
qed

interpretation ur: chunk_callback "receive_chunk sy" "\<lambda>ts. t_completed (fst ts)" for sy
proof unfold_locales
  fix c :: ushort and s s' :: "transfer \<times> 'a xlink"
  show "receive_chunk sy c s = Some (True, s') \<Longrightarrow> t_completed (fst s') = t_completed (fst s) + ucast c"
    by (cases s) (auto simp: receive_chunk_def Let_def bind_iff split: if_splits)
  show "receive_chunk sy c s = Some (False, s') \<Longrightarrow> c \<noteq> 0 \<Longrightarrow>
      \<exists>k < unat c. t_completed (fst s') = t_completed (fst s) + word_of_nat k"
    using transfered_word [of _ c] unat_pos [of c]
    by (cases s) (fastforce simp: receive_chunk_def Let_def bind_iff split: if_splits)
qed

section \<open>What the operations keep\<close>

lemma usb_transfer_core: "usb_transfer sy i m v bs n s = Some (x, s') \<Longrightarrow> core s' = core s"
  by (auto simp: usb_transfer_def case_prod_unfold Let_def split: option.splits)

lemma usb_ctl_core: "usb_ctl sy m s = Some s' \<Longrightarrow> core s' = core s"
  by (auto simp: usb_ctl_def controlEndpointOut_def bind_iff dest!: usb_transfer_core)

lemma usb_get_response_core [simp]: "core (usb_get_response bs s) = core s"
  by (simp add: usb_get_response_def split: list.splits)

lemma usb_acked_core: "usb_acked sy s = Some (r, s') \<Longrightarrow> core s' = core s"
  by (auto simp: usb_acked_def controlEndpointIn_def bind_iff Let_def split: if_splits dest!: usb_transfer_core)

lemma usb_wait_ever_core:
  assumes "usb_wait_ever sy s = Some (r, s')"
  shows "core s' = core s"
proof -
  have "core (snd (r, s')) = core s"
  proof (rule usb_wait_ever.raw_induct [where P = "\<lambda>sy s y. core (snd y) = core s", OF _ assms])
    fix go sy y and s :: "'b xlink"
    assume IH: "\<And>sy s y. go sy s = Some y \<Longrightarrow> core (snd y) = core s"
      and "do { (r, s) \<leftarrow> usb_acked sy s; if \<not> r then go sy s else Some (True, s) } = Some y"
    then obtain q t where "usb_acked sy s = Some (q, t)" "if q then y = (True, t) else go sy t = Some y"
      by (auto simp: bind_pair_iff split: if_splits)
    with IH [of sy t y] usb_acked_core [of sy s q t] show "core (snd y) = core s"
      by (cases q) simp_all
  qed
  then show ?thesis by simp
qed

lemma usb_wait_timed_core:
  assumes "usb_wait_timed sy n q s = Some (r, s')"
  shows "core s' = core s"
proof -
  have "core (snd (r, s')) = core s"
  proof (rule usb_wait_timed.raw_induct [where P = "\<lambda>sy n q s y. core (snd y) = core s", OF _ assms])
    fix go sy n r y and s :: "'b xlink"
    assume IH: "\<And>sy n q s y. go sy n q s = Some y \<Longrightarrow> core (snd y) = core s"
      and run: "(if n \<noteq> 0 then
        do { (q, s) \<leftarrow> usb_acked sy s;
             if \<not> q then go sy (n - 10) q (usleep sy (10 * 1000) s) else Some (q, s) }
      else Some (r, s)) = Some y"
    show "core (snd y) = core s"
    proof (cases "n = 0")
      case False
      with run obtain q t where "usb_acked sy s = Some (q, t)"
        "if q then y = (q, t) else go sy (n - 10) q (usleep sy (10 * 1000) t) = Some y"
        by (auto simp: bind_pair_iff split: if_splits)
      with IH [of sy "n - 10" q "usleep sy (10 * 1000) t" y] usb_acked_core [of sy s q t]
      show ?thesis by (cases q) simp_all
    qed (use run in auto)
  qed
  then show ?thesis by simp
qed

lemma usb_core [core_keep]:
  "driver_usb_input sy s = Some s' \<Longrightarrow> core s' = core s"
  "driver_usb_output sy s = Some s' \<Longrightarrow> core s' = core s"
  "driver_usb_strobe sy s = Some s' \<Longrightarrow> core s' = core s"
  "driver_usb_write sy v s = Some s' \<Longrightarrow> core s' = core s"
  "driver_usb_read sy s = Some (v', s') \<Longrightarrow> core s' = core s"
  "driver_usb_wait sy t s = Some (r, s') \<Longrightarrow> core s' = core s"
  "driver_usb_reset sy s = Some s' \<Longrightarrow> core s' = core s"
  "driver_usb_boot sy s = Some s' \<Longrightarrow> core s' = core s"
  "driver_usb_close sy s = Some s' \<Longrightarrow> core s' = core s"
  by (auto simp: driver_usb_input_def driver_usb_output_def driver_usb_strobe_def
      driver_usb_write_def driver_usb_read_def driver_usb_reset_def driver_usb_boot_def
      driver_usb_close_def driver_usb_wait_def controlEndpointOutWithValue_def controlEndpointIn_def
      Let_def bind_iff split: if_splits option.splits
      dest!: usb_transfer_core usb_ctl_core usb_wait_ever_core usb_wait_timed_core)

lemma usb_find_seat: "seat (snd (usb_find sy info ds s)) = seat s"
proof (induction ds arbitrary: s)
  case (Cons device devices)
  show ?case
    by (simp add: Cons.IH split: prod.split sum.split) (auto dest!: ask_seat)
qed simp

lemma usb_open_device_seat: "seat (snd (driver_usb_open_device sy info s)) = seat s"
  by (simp add: driver_usb_open_device_def split: prod.split sum.split)
    (auto simp: usb_find_seat [of sy info, simplified] dest!: ask_seat
      dest: arg_cong [of "usb_find sy info _ _" _ "\<lambda>x. seat (snd x)"])

lemma usb_open_result:
  assumes "driver_usb_open sy s = Some (r, s')"
  shows "seat s' = seat s \<and> (err_code s' = XLINK_SUCCESS \<longleftrightarrow> r)"
  using assms
  by (auto simp: driver_usb_open_def case_prod_unfold Let_def error_codes bind_iff usb_open_device_seat
      split: if_splits dest!: usb_ctl_core core_seat)

lemma send_chunk_core: "send_chunk sy c ts = Some (r, ts') \<Longrightarrow> core (snd ts') = core (snd ts)"
  by (cases ts) (auto simp: send_chunk_def controlEndpointOut_def bind_iff split: if_splits dest!: usb_transfer_core)

lemma receive_chunk_core: "receive_chunk sy c ts = Some (r, ts') \<Longrightarrow> core (snd ts') = core (snd ts)"
  by (cases ts) (auto simp: receive_chunk_def controlEndpointIn_def bind_iff Let_def split: if_splits dest!: usb_transfer_core)

lemma usb_transfer_result:
  "driver_usb_send sy bs s = Some (r, s') \<Longrightarrow>
     seat s' = seat s \<and> (err_code s' = XLINK_SUCCESS \<longleftrightarrow> r)"
  "driver_usb_receive sy n s = Some ((r, bs'), s') \<Longrightarrow>
     seat s' = seat s \<and> (err_code s' = XLINK_SUCCESS \<longleftrightarrow> r)"
  by (auto simp: driver_usb_send_def driver_usb_receive_def bind_iff Let_def error_codes
      dest!: chunked_keeps [of _ _ _ _ _ _ "\<lambda>ts. core (snd ts)"] core_seat
      intro: send_chunk_core receive_chunk_core)

end
