(* ===== verification/Shm.thy ===== *)
theory Shm
  imports Handshake
begin

text \<open>
  driver/shm.c, the Linux branches: the shared memory port of the patched VICE emulator.
  The static variables \<open>direction\<close>, \<open>initialized\<close> and \<open>last\<close> are the fields
  \<open>shm_direction\<close>, \<open>shm_initialized\<close> and \<open>shm_last\<close>.
\<close>

definition driver_shm_input :: "'w xlink \<Rightarrow> 'w xlink option" where
  "driver_shm_input s = Some (s\<lparr>shm_direction := STATE_INPUT\<rparr>)"

definition driver_shm_output :: "'w xlink \<Rightarrow> 'w xlink option" where
  "driver_shm_output s = Some (s\<lparr>shm_direction := STATE_OUTPUT\<rparr>)"

definition shm_write_flag :: "'w sys \<Rightarrow> uchar \<Rightarrow> 'w xlink \<Rightarrow> 'w xlink" where
  "shm_write_flag sy v s = act (ShmFlag v) (shm_set_flag (sy_shm sy) v) s"

text \<open>Opening uses \<open>driver->input\<close> through the vtable.\<close>

definition driver_shm_open :: "'w sys \<Rightarrow> ('w, 'm) prims_scheme \<Rightarrow> 'w xlink
    \<Rightarrow> (bool \<times> 'w xlink) option" where
  "driver_shm_open sy d s =
     (let (ok, s) =
        (if \<not> shm_initialized s then
           (let (ok, s) = ask (shm_attach (sy_shm sy)) s;
                s = emit ShmAttach s
            in if ok then (True, (shm_write_flag sy 0 s)\<lparr>shm_initialized := True\<rparr>) else (False, s))
         else (True, s))
      in if \<not> ok then
           Some (False, SET_ERROR XLINK_ERROR_FILE (os_strerror (sy_os sy) (world s)) [] s)
         else
           do { s \<leftarrow> d_input d s;
                let (pa2, s) = ask (shm_pa2 (sy_shm sy)) s;
                Some (True, CLEAR_ERROR_IF True (s\<lparr>shm_last := pa2\<rparr>)) })"

definition driver_shm_strobe :: "'w sys \<Rightarrow> 'w xlink \<Rightarrow> 'w xlink option" where
  "driver_shm_strobe sy s = Some (shm_write_flag sy (shm_flag (sy_shm sy) (world s) + 1) s)"

partial_function (option) shm_poll :: "'w sys \<Rightarrow> uchar \<Rightarrow> 'w xlink \<Rightarrow> 'w xlink option" where
  "shm_poll sy current s =
     (if current = shm_last s then
        (case ask (shm_pa2 (sy_shm sy)) s of (current, s) \<Rightarrow>
           if current \<noteq> shm_last s then Some (s\<lparr>shm_last := current\<rparr>)
           else shm_poll sy current (usleep sy 0 s))
      else Some s)"

declare shm_poll.simps [code]

partial_function (option) shm_poll_timed ::
  "'w sys \<Rightarrow> timeval \<Rightarrow> int \<Rightarrow> uchar \<Rightarrow> 'w xlink \<Rightarrow> (bool \<times> 'w xlink) option" where
  "shm_poll_timed sy start timeout current s =
     (if current = shm_last s then
        (case ask (shm_pa2 (sy_shm sy)) s of (current, s) \<Rightarrow>
           if current \<noteq> shm_last s then Some (True, s\<lparr>shm_last := current\<rparr>)
           else (case now sy (usleep sy 0 s) of (t, s) \<Rightarrow>
             if watch_expired start t timeout then Some (False, s)
             else shm_poll_timed sy start timeout current s))
      else Some (True, s))"

declare shm_poll_timed.simps [code]

definition driver_shm_wait :: "'w sys \<Rightarrow> int \<Rightarrow> 'w xlink \<Rightarrow> (bool \<times> 'w xlink) option" where
  "driver_shm_wait sy timeout s =
     (let current = shm_last s;
          (_, s) = now sy s
      in if timeout \<le> 0 then
           do { s \<leftarrow> shm_poll sy current s; Some (True, s) }
         else
           (let (start, s) = now sy s in shm_poll_timed sy start timeout current s))"

definition driver_shm_read :: "'w sys \<Rightarrow> 'w xlink \<Rightarrow> (uchar \<times> 'w xlink) option" where
  "driver_shm_read sy s =
     (let v = (if shm_direction s = STATE_INPUT then shm_data (sy_shm sy) (world s) else 0xff)
      in Some (v, emit (ShmRead v) s))"

definition driver_shm_write :: "'w sys \<Rightarrow> uchar \<Rightarrow> 'w xlink \<Rightarrow> 'w xlink option" where
  "driver_shm_write sy value s =
     (let v = (if shm_direction s = STATE_OUTPUT then value else 0xff)
      in Some (act (ShmData v) (shm_set_data (sy_shm sy) v) s))"

definition driver_shm_send :: "('w, 'm) prims_scheme \<Rightarrow> uchar list \<Rightarrow> 'w xlink
    \<Rightarrow> (bool \<times> 'w xlink) option" where
  "driver_shm_send d data s =
     handshake_send XLINK_ERROR_FILE d 0 (int (length data)) False data s"

definition driver_shm_receive :: "('w, 'm) prims_scheme \<Rightarrow> nat \<Rightarrow> 'w xlink
    \<Rightarrow> ((bool \<times> uchar list) \<times> 'w xlink) option" where
  "driver_shm_receive d n s =
     handshake_receive XLINK_ERROR_FILE d 0 (int n) False n [] s"

definition driver_shm_ping :: "('w, 'm) prims_scheme \<Rightarrow> 'w xlink \<Rightarrow> (bool \<times> 'w xlink) option" where
  "driver_shm_ping d s =
     do { s \<leftarrow> d_output d s;
          s \<leftarrow> d_write d 0xfd s;
          s \<leftarrow> d_strobe d s;
          d_wait d 250 s }"

text \<open>The process id of the emulator is cut to an unsigned short.\<close>

definition driver_shm_reset :: "'w sys \<Rightarrow> 'w xlink \<Rightarrow> 'w xlink option" where
  "driver_shm_reset sy s =
     (let peer = strtol_ushort (shm_id (sy_shm sy) (world s))
      in if peer \<noteq> 0 then Some (act (Kill peer) (shm_kill (sy_shm sy) peer) s) else Some s)"

definition driver_shm_free :: "'w sys \<Rightarrow> 'w xlink \<Rightarrow> 'w xlink option" where
  "driver_shm_free sy s = Some (act ShmDetach (shm_detach (sy_shm sy)) s)"

definition driver_shm_close :: "'w xlink \<Rightarrow> 'w xlink option" where
  "driver_shm_close s = Some s"

definition driver_shm_boot :: "'w xlink \<Rightarrow> 'w xlink option" where
  "driver_shm_boot s = Some s"

section \<open>What the port operations keep, and what they trace\<close>

lemma shm_poll_quiet:
  assumes "shm_poll sy c s = Some s'"
  shows "core s' = core s"
  by (rule shm_poll.raw_induct [where P = "\<lambda>sy c s y. core y = core s", OF _ assms])
    (auto split: if_splits prod.splits dest!: ask_keeps)

lemma shm_poll_timed_quiet:
  assumes "shm_poll_timed sy st n c s = Some (r, s')"
  shows "core s' = core s"
proof -
  have "core (snd (r, s')) = core s"
    by (rule shm_poll_timed.raw_induct [where P = "\<lambda>sy st n c s y. core (snd y) = core s",
          OF _ assms])
      (auto split: if_splits prod.splits dest!: ask_keeps now_keeps)
  then show ?thesis by simp
qed

lemma shm_wait_core:
  "driver_shm_wait sy t s = Some (r, s') \<Longrightarrow> core s' = core s"
  unfolding driver_shm_wait_def
  by (auto simp: case_prod_unfold Let_def bind_iff split: if_splits
      dest!: shm_poll_quiet shm_poll_timed_quiet)

lemma shm_core [core_keep]:
  "driver_shm_input s = Some s' \<Longrightarrow> core s' = core s"
  "driver_shm_output s = Some s' \<Longrightarrow> core s' = core s"
  "driver_shm_strobe sy s = Some s' \<Longrightarrow> core s' = core s"
  "driver_shm_write sy v s = Some s' \<Longrightarrow> core s' = core s"
  "driver_shm_read sy s = Some (v', s') \<Longrightarrow> core s' = core s"
  "driver_shm_wait sy t s = Some (r, s') \<Longrightarrow> core s' = core s"
  "driver_shm_reset sy s = Some s' \<Longrightarrow> core s' = core s"
  "driver_shm_boot s = Some s' \<Longrightarrow> core s' = core s"
  "driver_shm_close s = Some s' \<Longrightarrow> core s' = core s"
  by (auto simp: driver_shm_input_def driver_shm_output_def driver_shm_strobe_def
      driver_shm_write_def driver_shm_read_def driver_shm_reset_def driver_shm_boot_def
      driver_shm_close_def shm_write_flag_def Let_def split: if_splits
      dest: shm_wait_core)

lemma shm_open_result:
  assumes "driver_shm_open sy d s = Some (r, s')"
    and input: "\<And>s s'. d_input d s = Some s' \<Longrightarrow> core s' = core s"
  shows "seat s' = seat s \<and> (err_code s' = XLINK_SUCCESS \<longleftrightarrow> r)"
  using assms(1)
  by (auto simp: driver_shm_open_def shm_write_flag_def case_prod_unfold Let_def error_codes bind_iff
      split: if_splits dest!: input core_seat)

end
