(* ===== verification/Serial.thy ===== *)
theory Serial
  imports Environment Protocol
begin

text \<open>
  driver/serial.c, the POSIX branches: the servant64 adapter on a serial line. The static
  \<open>initialized\<close> is the field \<open>ser_initialized\<close>.
\<close>

text \<open>
  The loop of \<open>serial_read\<close> adds the result of \<open>read\<close> to its count: a result of -1 steps
  back by one byte, and before the buffer when nothing has been read (undefined: \<open>None\<close>).
\<close>

partial_function (option) serial_read_loop :: "'w sys \<Rightarrow> nat \<Rightarrow> uchar list \<Rightarrow> 'w xlink
    \<Rightarrow> (uchar list \<times> 'w xlink) option" where
  "serial_read_loop sy n got s =
     (if n > length got then
        (case ask (tty_read (sy_tty sy) (drv_device s) (n - length got)) s of (r, s) \<Rightarrow>
           (case r of
              None \<Rightarrow> if got = [] then None else serial_read_loop sy n (butlast got) s
            | Some bs \<Rightarrow> serial_read_loop sy n (got @ take (n - length got) bs) s))
      else Some (got, s))"

declare serial_read_loop.simps [code]

definition serial_read :: "'w sys \<Rightarrow> nat \<Rightarrow> 'w xlink \<Rightarrow> (uchar list \<times> 'w xlink) option" where
  "serial_read sy n s =
     serial_read_loop sy n [] (s\<lparr>lg := logger_debug ''Serial read %d bytes'' [Aint (int n)] (lg s)\<rparr>)"

text \<open>The context of \<open>write_chunk\<close> is what \<open>transfer->data\<close> still points to.\<close>

definition write_chunk :: "'w sys \<Rightarrow> ushort \<Rightarrow> uchar list \<times> 'w xlink
    \<Rightarrow> (bool \<times> uchar list \<times> 'w xlink) option" where
  "write_chunk sy chunk cs =
     (case cs of (data, s) \<Rightarrow>
        (let bytes = take (unat chunk) data;
             s = act (TtyWrite (drv_device s) bytes) (tty_write (sy_tty sy) (drv_device s) bytes) s
         in Some (True, drop (unat chunk) data, s)))"

definition serial_write :: "'w sys \<Rightarrow> uchar list \<Rightarrow> 'w xlink \<Rightarrow> 'w xlink option" where
  "serial_write sy data s =
     (let s = s\<lparr>lg := logger_debug ''Serial write %d bytes'' [Aint (int (length data))] (lg s)\<rparr> in
      do { (_, _, s) \<leftarrow> chunked (write_chunk sy) 16 (int (length data)) (data, s);
           Some s })"

definition serial_cmd :: "'w sys \<Rightarrow> uchar \<Rightarrow> uint \<Rightarrow> uint \<Rightarrow> 'w xlink \<Rightarrow> 'w xlink option" where
  "serial_cmd sy cmd arg1 arg2 s = serial_write sy (cmd_frame cmd arg1 arg2) s"

definition driver_serial_open :: "'w sys \<Rightarrow> ('w, 'm) prims_scheme \<Rightarrow> 'w xlink
    \<Rightarrow> (bool \<times> 'w xlink) option" where
  "driver_serial_open sy d s =
     (let (ok, s) =
        (if \<not> ser_initialized s then
           (let (fd, s) = ask (os_open (sy_os sy) (drv_path s)) s;
                s = emit (OpenFile (drv_path s) fd) (s\<lparr>drv_device := fd\<rparr>)
            in if fd < 0 then (False, s)
               else (True, (act (TtySetup fd) (tty_setup (sy_tty sy) fd) s)\<lparr>ser_initialized := True\<rparr>))
         else (True, s))
      in if \<not> ok then
           Some (False, SET_ERROR XLINK_ERROR_FILE (os_strerror (sy_os sy) (world s)) [] s)
         else
           do { s \<leftarrow> d_input d s;
                Some (True, CLEAR_ERROR_IF True s) })"

definition driver_serial_input :: "'w sys \<Rightarrow> 'w xlink \<Rightarrow> 'w xlink option" where
  "driver_serial_input sy s = serial_cmd sy CMD_INPUT 0 0 s"

definition driver_serial_output :: "'w sys \<Rightarrow> 'w xlink \<Rightarrow> 'w xlink option" where
  "driver_serial_output sy s = serial_cmd sy CMD_OUTPUT 0 0 s"

definition driver_serial_strobe :: "'w sys \<Rightarrow> 'w xlink \<Rightarrow> 'w xlink option" where
  "driver_serial_strobe sy s = serial_cmd sy CMD_STROBE 0 0 s"

definition serial_acked :: "'w sys \<Rightarrow> 'w xlink \<Rightarrow> (bool \<times> 'w xlink) option" where
  "serial_acked sy s =
     do { s \<leftarrow> serial_cmd sy CMD_ACKED 0 0 s;
          (response, s) \<leftarrow> serial_read sy 1 s;
          Some (response ! 0 = 0x55, s) }"

partial_function (option) serial_wait_ever :: "'w sys \<Rightarrow> 'w xlink \<Rightarrow> (bool \<times> 'w xlink) option" where
  "serial_wait_ever sy s =
     do { (r, s) \<leftarrow> serial_acked sy s;
          if \<not> r then serial_wait_ever sy s else Some (True, s) }"

declare serial_wait_ever.simps [code]

partial_function (option) serial_wait_timed :: "'w sys \<Rightarrow> int \<Rightarrow> bool \<Rightarrow> 'w xlink
    \<Rightarrow> (bool \<times> 'w xlink) option" where
  "serial_wait_timed sy timeout result s =
     (if timeout \<noteq> 0 then
        do { (result, s) \<leftarrow> serial_acked sy s;
             if \<not> result then serial_wait_timed sy (timeout - 10) result (usleep sy (10 * 1000) s)
             else Some (result, s) }
      else Some (result, s))"

declare serial_wait_timed.simps [code]

definition driver_serial_wait :: "'w sys \<Rightarrow> int \<Rightarrow> 'w xlink \<Rightarrow> (bool \<times> 'w xlink) option" where
  "driver_serial_wait sy timeout s =
     (if timeout \<le> 0 then serial_wait_ever sy s else serial_wait_timed sy timeout False s)"

definition driver_serial_read :: "'w sys \<Rightarrow> 'w xlink \<Rightarrow> (uchar \<times> 'w xlink) option" where
  "driver_serial_read sy s =
     do { s \<leftarrow> serial_cmd sy CMD_READ 0 0 s;
          (response, s) \<leftarrow> serial_read sy 1 s;
          Some (response ! 0, s) }"

definition driver_serial_write :: "'w sys \<Rightarrow> uchar \<Rightarrow> 'w xlink \<Rightarrow> 'w xlink option" where
  "driver_serial_write sy value s = serial_cmd sy CMD_WRITE (ucast value) 0 s"

text \<open>The 4 byte count is read straight into an \<open>unsigned int\<close> of the little-endian host.\<close>

definition count_of :: "uchar list \<Rightarrow> uint" where
  "count_of bs = word32_le (bs ! 0) (bs ! 1) (bs ! 2) (bs ! 3)"

definition driver_serial_send :: "'w sys \<Rightarrow> uchar list \<Rightarrow> 'w xlink \<Rightarrow> (bool \<times> 'w xlink) option" where
  "driver_serial_send sy data s =
     do { let n = (word_of_nat (length data) :: uint);
          s \<leftarrow> serial_cmd sy CMD_SEND n 2 s;
          s \<leftarrow> serial_write sy data s;
          (count, s) \<leftarrow> serial_read sy 4 s;
          let bytesSent = count_of count;
          let result = (bytesSent = n);
          let s = (if \<not> result
                   then SET_ERROR XLINK_ERROR_SERIAL ''transfer timeout (%d of %d bytes sent)''
                          [Aint (uint bytesSent), Aint (int (length data))] s
                   else s);
          Some (result, CLEAR_ERROR_IF result s) }"

definition driver_serial_receive :: "'w sys \<Rightarrow> nat \<Rightarrow> 'w xlink
    \<Rightarrow> ((bool \<times> uchar list) \<times> 'w xlink) option" where
  "driver_serial_receive sy len s =
     do { let n = (word_of_nat len :: uint);
          s \<leftarrow> serial_cmd sy CMD_RECEIVE n 2 s;
          (data, s) \<leftarrow> serial_read sy len s;
          (count, s) \<leftarrow> serial_read sy 4 s;
          let bytesReceived = count_of count;
          let result = (bytesReceived = n);
          let s = (if \<not> result
                   then SET_ERROR XLINK_ERROR_SERIAL ''transfer timeout (%d of %d bytes received)''
                          [Aint (uint bytesReceived), Aint (int len)] s
                   else s);
          Some ((result, data), CLEAR_ERROR_IF result s) }"

definition driver_serial_ping :: "('w, 'm) prims_scheme \<Rightarrow> 'w xlink \<Rightarrow> (bool \<times> 'w xlink) option" where
  "driver_serial_ping d s =
     do { s \<leftarrow> d_output d s;
          s \<leftarrow> d_write d 0xfd s;
          s \<leftarrow> d_strobe d s;
          d_wait d 250 s }"

definition driver_serial_reset :: "'w sys \<Rightarrow> 'w xlink \<Rightarrow> 'w xlink option" where
  "driver_serial_reset sy s =
     do { s \<leftarrow> serial_cmd sy CMD_RESET 0 0 s;
          Some (usleep sy (250 * 1000) s) }"

definition driver_serial_free :: "'w sys \<Rightarrow> 'w xlink \<Rightarrow> 'w xlink option" where
  "driver_serial_free sy s = Some (act (CloseFile (drv_device s)) (os_close (sy_os sy) (drv_device s)) s)"

definition driver_serial_close :: "'w xlink \<Rightarrow> 'w xlink option" where
  "driver_serial_close s = Some s"

definition driver_serial_boot :: "'w xlink \<Rightarrow> 'w xlink option" where
  "driver_serial_boot s = Some s"

section \<open>What the operations keep\<close>

lemma serial_read_loop_core:
  assumes "serial_read_loop sy n got s = Some (bs, s')"
  shows "core s' = core s"
proof -
  have "core (snd (bs, s')) = core s"
    by (rule serial_read_loop.raw_induct [where P = "\<lambda>sy n got s y. core (snd y) = core s",
          OF _ assms])
      (auto split: if_splits prod.splits option.splits dest!: ask_keeps)
  then show ?thesis by simp
qed

lemma serial_read_core: "serial_read sy n s = Some (bs, s') \<Longrightarrow> core s' = core s"
  by (auto simp: serial_read_def dest: serial_read_loop_core)

lemma serial_write_core: "serial_write sy bs s = Some s' \<Longrightarrow> core s' = core s"
proof -
  assume "serial_write sy bs s = Some s'"
  then obtain r d where "chunked (write_chunk sy) 16 (int (length bs))
      (bs, s\<lparr>lg := logger_debug ''Serial write %d bytes'' [Aint (int (length bs))] (lg s)\<rparr>) = Some (r, d, s')"
    by (auto simp: serial_write_def bind_iff)
  from chunked_keeps [OF this, of "\<lambda>x. core (snd x)"] show ?thesis
    by (auto simp: write_chunk_def Let_def)
qed

lemma serial_cmd_core: "serial_cmd sy c a b s = Some s' \<Longrightarrow> core s' = core s"
  by (auto simp: serial_cmd_def dest: serial_write_core)

lemma serial_acked_core: "serial_acked sy s = Some (r, s') \<Longrightarrow> core s' = core s"
  by (auto simp: serial_acked_def bind_iff dest!: serial_cmd_core serial_read_core)

lemma serial_wait_ever_core:
  assumes "serial_wait_ever sy s = Some (r, s')"
  shows "core s' = core s"
proof -
  have "core (snd (r, s')) = core s"
  proof (rule serial_wait_ever.raw_induct [where P = "\<lambda>sy s y. core (snd y) = core s", OF _ assms])
    fix go sy y and s :: "'b xlink"
    assume IH: "\<And>sy s y. go sy s = Some y \<Longrightarrow> core (snd y) = core s"
      and "do { (r, s) \<leftarrow> serial_acked sy s; if \<not> r then go sy s else Some (True, s) } = Some y"
    then obtain q t where "serial_acked sy s = Some (q, t)" "if q then y = (True, t) else go sy t = Some y"
      by (auto simp: bind_pair_iff split: if_splits)
    with IH [of sy t y] serial_acked_core [of sy s q t] show "core (snd y) = core s"
      by (cases q) simp_all
  qed
  then show ?thesis by simp
qed

lemma serial_wait_timed_core:
  assumes "serial_wait_timed sy n q s = Some (r, s')"
  shows "core s' = core s"
proof -
  have "core (snd (r, s')) = core s"
  proof (rule serial_wait_timed.raw_induct [where P = "\<lambda>sy n q s y. core (snd y) = core s", OF _ assms])
    fix go sy n r y and s :: "'b xlink"
    assume IH: "\<And>sy n q s y. go sy n q s = Some y \<Longrightarrow> core (snd y) = core s"
      and run: "(if n \<noteq> 0 then
        do { (q, s) \<leftarrow> serial_acked sy s;
             if \<not> q then go sy (n - 10) q (usleep sy (10 * 1000) s) else Some (q, s) }
      else Some (r, s)) = Some y"
    show "core (snd y) = core s"
    proof (cases "n = 0")
      case False
      with run obtain q t where "serial_acked sy s = Some (q, t)"
        "if q then y = (q, t) else go sy (n - 10) q (usleep sy (10 * 1000) t) = Some y"
        by (auto simp: bind_pair_iff split: if_splits)
      with IH [of sy "n - 10" q "usleep sy (10 * 1000) t" y] serial_acked_core [of sy s q t]
      show ?thesis by (cases q) simp_all
    qed (use run in auto)
  qed
  then show ?thesis by simp
qed

lemma serial_core [core_keep]:
  "driver_serial_input sy s = Some s' \<Longrightarrow> core s' = core s"
  "driver_serial_output sy s = Some s' \<Longrightarrow> core s' = core s"
  "driver_serial_strobe sy s = Some s' \<Longrightarrow> core s' = core s"
  "driver_serial_write sy v s = Some s' \<Longrightarrow> core s' = core s"
  "driver_serial_read sy s = Some (v', s') \<Longrightarrow> core s' = core s"
  "driver_serial_wait sy t s = Some (r, s') \<Longrightarrow> core s' = core s"
  "driver_serial_reset sy s = Some s' \<Longrightarrow> core s' = core s"
  "driver_serial_boot s = Some s' \<Longrightarrow> core s' = core s"
  "driver_serial_close s = Some s' \<Longrightarrow> core s' = core s"
  by (auto simp: driver_serial_input_def driver_serial_output_def driver_serial_strobe_def
      driver_serial_write_def driver_serial_read_def driver_serial_reset_def driver_serial_boot_def
      driver_serial_close_def driver_serial_wait_def bind_iff split: if_splits
      dest!: serial_cmd_core serial_read_core serial_wait_ever_core serial_wait_timed_core)

lemma serial_transfer_result:
  "driver_serial_send sy bs s = Some (r, s') \<Longrightarrow>
     seat s' = seat s \<and> (err_code s' = XLINK_SUCCESS \<longleftrightarrow> r)"
  "driver_serial_receive sy n s = Some ((r, bs'), s') \<Longrightarrow>
     seat s' = seat s \<and> (err_code s' = XLINK_SUCCESS \<longleftrightarrow> r)"
  by (auto simp: driver_serial_send_def driver_serial_receive_def bind_iff Let_def error_codes
      dest!: serial_cmd_core serial_read_core serial_write_core core_seat)

lemma serial_open_result:
  assumes "driver_serial_open sy d s = Some (r, s')"
    and input: "\<And>s s'. d_input d s = Some s' \<Longrightarrow> core s' = core s"
  shows "seat s' = seat s \<and> (err_code s' = XLINK_SUCCESS \<longleftrightarrow> r)"
  using assms(1)
  by (auto simp: driver_serial_open_def case_prod_unfold Let_def error_codes bind_iff
      split: if_splits dest!: input core_seat)

section \<open>What reaches the tty\<close>

lemma run_write_chunks:
  "\<exists>d t. run_chunks (write_chunk sy) cs (xs, s) = Some (True, d, t) \<and>
     trace t = trace s @ map (TtyWrite (drv_device s)) (pieces cs xs) \<and> drv_device t = drv_device s"
proof (induction cs arbitrary: xs s)
  case Nil
  then show ?case by simp
next
  case (Cons c cs)
  let ?s = "act (TtyWrite (drv_device s) (take (unat c) xs)) (tty_write (sy_tty sy) (drv_device s) (take (unat c) xs)) s"
  obtain d t where "run_chunks (write_chunk sy) cs (drop (unat c) xs, ?s) = Some (True, d, t)"
    "trace t = trace ?s @ map (TtyWrite (drv_device ?s)) (pieces cs (drop (unat c) xs))"
    "drv_device t = drv_device ?s"
    using Cons.IH [of "drop (unat c) xs" ?s] by blast
  moreover have "write_chunk sy c (xs, s) = Some (True, drop (unat c) xs, ?s)"
    by (simp add: write_chunk_def Let_def)
  ultimately show ?case by (auto simp: world_defs)
qed

lemma serial_write_trace:
  "\<exists>t. serial_write sy bs s = Some t \<and>
     trace t = trace s @ map (TtyWrite (drv_device s)) (pieces (chunk_sizes 16 (length bs)) bs) \<and>
     drv_device t = drv_device s"
  using run_write_chunks [of sy "chunk_sizes 16 (length bs)" bs
      "s\<lparr>lg := logger_debug ''Serial write %d bytes'' [Aint (int (length bs))] (lg s)\<rparr>"]
  by (auto simp: serial_write_def chunked_run_chunks)

end
