(* ===== verification/Sample.thy ===== *)
theory Sample
  imports Environment
begin

text \<open>
  A concrete outside world for the witnesses: the world is the list of bytes that the other
  side will answer, time advances with the number of bytes taken, and all devices exist.
\<close>

definition next_byte :: "uchar list \<Rightarrow> uchar \<times> uchar list" where
  "next_byte w = (case w of [] \<Rightarrow> (0, []) | b # bs \<Rightarrow> (b, bs))"

definition sample_sys :: "uchar list sys" where
  "sample_sys =
     \<lparr>sy_os = \<lparr>os_now = \<lambda>w. ((- int (length w), 0), w), os_usleep = \<lambda>n w. w,
        os_getenv = \<lambda>v w. None, os_stat = \<lambda>p w. Some (True, 99), os_realpath = \<lambda>p w. Some p,
        os_strerror = \<lambda>w. ''error'', os_open = \<lambda>p w. (3, w), os_close = \<lambda>fd w. w\<rparr>,
      sy_pp = \<lparr>pp_claim = \<lambda>fd w. (0, w), pp_release = \<lambda>fd w. w, pp_setflags = \<lambda>fd w. w,
        pp_rstatus = \<lambda>fd w. (case next_byte w of (b, w) \<Rightarrow> (Some b, w)),
        pp_wcontrol = \<lambda>fd c w. w, pp_fcontrol = \<lambda>fd m v w. w,
        pp_rdata = \<lambda>fd w. (case next_byte w of (b, w) \<Rightarrow> (Some b, w)), pp_wdata = \<lambda>fd v w. w\<rparr>,
      sy_usb = \<lparr>usb_init = \<lambda>w. (0, w), usb_exit = \<lambda>w. w, usb_device_list = \<lambda>w. (Inr [7], w),
        usb_descriptor = \<lambda>d w. (Inr (0x1d50, 0x60c8, 0), w), usb_bus = \<lambda>d w. 1,
        usb_address = \<lambda>d w. 2, usb_open = \<lambda>d w. (Inr 5, w), usb_close = \<lambda>h w. w,
        usb_string = \<lambda>h i w. (Inr ''xlink'', w),
        usb_control = \<lambda>h inward m v i b n t w.
          (if inward then ((int (length (take (nat n) w)), take (nat n) w), drop (nat n) w) else ((n, []), w))\<rparr>,
      sy_tty = \<lparr>tty_setup = \<lambda>fd w. w, tty_read = \<lambda>fd n w. (Some (take n w), drop n w),
        tty_write = \<lambda>fd bs w. w\<rparr>,
      sy_shm = \<lparr>shm_attach = \<lambda>w. (True, w), shm_detach = \<lambda>w. w, shm_flag = \<lambda>w. 0,
        shm_set_flag = \<lambda>v w. w, shm_pa2 = next_byte, shm_data = \<lambda>w. fst (next_byte w),
        shm_set_data = \<lambda>v w. w, shm_id = \<lambda>w. ''0'', shm_kill = \<lambda>p w. w\<rparr>\<rparr>"

text \<open>The library after a back end was set up, with the answers of the other side.\<close>

definition sample_state :: "backend \<Rightarrow> uchar list \<Rightarrow> uchar list xlink" where
  "sample_state b w =
     \<lparr>drv_path = ''/dev/xlink'', drv_device = 3, drv_timeout = 1, drv_state = STATE_IDLE,
      drv_backend = b, err_code = 0, err_message = (''Success'', []), lg = logger_init,
      machine = c64, pp_last_status = 0, pp_initialized = False, usb_handle = Some 5,
      usb_response = 0, shm_initialized = False, shm_direction = STATE_OUTPUT, shm_last = 0,
      ser_initialized = False, trace = [], world = w\<rparr>"

end
