(* ===== verification/Driver.thy ===== *)
theory Driver
  imports Parport Usb Shm Serial Sample
begin

text \<open>
  driver/driver.c: choosing and setting up a back end, and the public function pointers of
  the \<open>Driver\<close> struct, which forward to the back end that is installed (\<open>drv_backend\<close>).
  Before a device is set up only \<open>_open\<close> is set, so every other call then is a call of a null
  pointer: \<open>None\<close>.
\<close>

section \<open>Device types\<close>

definition XLINK_DRIVER_DEVICE_USB :: int where "XLINK_DRIVER_DEVICE_USB = 189"
definition XLINK_DRIVER_DEVICE_PARPORT :: int where "XLINK_DRIVER_DEVICE_PARPORT = 99"
definition XLINK_DRIVER_DEVICE_SHM :: int where "XLINK_DRIVER_DEVICE_SHM = -1"
definition XLINK_DRIVER_DEVICE_SERIAL :: int where "XLINK_DRIVER_DEVICE_SERIAL = 188"

lemmas device_consts = XLINK_DRIVER_DEVICE_USB_def XLINK_DRIVER_DEVICE_PARPORT_def
  XLINK_DRIVER_DEVICE_SHM_def XLINK_DRIVER_DEVICE_SERIAL_def

definition device_is_parport :: "int \<Rightarrow> bool" where
  "device_is_parport type \<longleftrightarrow> type = XLINK_DRIVER_DEVICE_PARPORT"
definition device_is_usb :: "int \<Rightarrow> bool" where
  "device_is_usb type \<longleftrightarrow> type = XLINK_DRIVER_DEVICE_USB"
definition device_is_shm :: "int \<Rightarrow> bool" where
  "device_is_shm type \<longleftrightarrow> type = XLINK_DRIVER_DEVICE_SHM"
definition device_is_serial :: "int \<Rightarrow> bool" where
  "device_is_serial type \<longleftrightarrow> type = XLINK_DRIVER_DEVICE_SERIAL"

lemmas device_is_defs = device_is_parport_def device_is_usb_def device_is_shm_def device_is_serial_def

definition device_identify :: "'w sys \<Rightarrow> string \<Rightarrow> 'w xlink \<Rightarrow> int option \<times> 'w xlink" where
  "device_identify sy path s =
     (if strncmp0 path ''shm'' 3 then (Some XLINK_DRIVER_DEVICE_SHM, s)
      else
        (case os_stat (sy_os sy) path (world s) of
           None \<Rightarrow> (None, SET_ERROR XLINK_ERROR_DEVICE ''%s: couldn't stat: %s''
                            [Astr path, Astr (os_strerror (sy_os sy) (world s))] s)
         | Some (is_chr, major) \<Rightarrow>
             if \<not> is_chr then
               (None, SET_ERROR XLINK_ERROR_DEVICE ''%s: not a character device'' [Astr path] s)
             else (Some major, CLEAR_ERROR_IF True s)))"

definition device_is_supported :: "string \<Rightarrow> int \<Rightarrow> 'w xlink \<Rightarrow> bool \<times> 'w xlink" where
  "device_is_supported path type s =
     (if \<not> (device_is_parport type \<or> device_is_usb type \<or> device_is_shm type \<or> device_is_serial type)
      then (False, SET_ERROR XLINK_ERROR_DEVICE ''%s: unsupported device major number: %d''
                     [Astr path, Aint type] s)
      else (True, s))"

section \<open>Primitive calls through the vtable\<close>

definition driver_input :: "'w sys \<Rightarrow> 'w xlink \<Rightarrow> 'w xlink option" where
  "driver_input sy s =
     (case drv_backend s of
        BSetup \<Rightarrow> None
      | BParport \<Rightarrow> driver_parport_input sy s
      | BUsb \<Rightarrow> driver_usb_input sy s
      | BShm \<Rightarrow> driver_shm_input s
      | BSerial \<Rightarrow> driver_serial_input sy s)"

definition driver_output :: "'w sys \<Rightarrow> 'w xlink \<Rightarrow> 'w xlink option" where
  "driver_output sy s =
     (case drv_backend s of
        BSetup \<Rightarrow> None
      | BParport \<Rightarrow> driver_parport_output sy s
      | BUsb \<Rightarrow> driver_usb_output sy s
      | BShm \<Rightarrow> driver_shm_output s
      | BSerial \<Rightarrow> driver_serial_output sy s)"

definition driver_strobe :: "'w sys \<Rightarrow> 'w xlink \<Rightarrow> 'w xlink option" where
  "driver_strobe sy s =
     (case drv_backend s of
        BSetup \<Rightarrow> None
      | BParport \<Rightarrow> driver_parport_strobe sy s
      | BUsb \<Rightarrow> driver_usb_strobe sy s
      | BShm \<Rightarrow> driver_shm_strobe sy s
      | BSerial \<Rightarrow> driver_serial_strobe sy s)"

definition driver_write :: "'w sys \<Rightarrow> uchar \<Rightarrow> 'w xlink \<Rightarrow> 'w xlink option" where
  "driver_write sy value s =
     (case drv_backend s of
        BSetup \<Rightarrow> None
      | BParport \<Rightarrow> driver_parport_write sy value s
      | BUsb \<Rightarrow> driver_usb_write sy value s
      | BShm \<Rightarrow> driver_shm_write sy value s
      | BSerial \<Rightarrow> driver_serial_write sy value s)"

definition driver_read :: "'w sys \<Rightarrow> 'w xlink \<Rightarrow> (uchar \<times> 'w xlink) option" where
  "driver_read sy s =
     (case drv_backend s of
        BSetup \<Rightarrow> None
      | BParport \<Rightarrow> driver_parport_read sy s
      | BUsb \<Rightarrow> driver_usb_read sy s
      | BShm \<Rightarrow> driver_shm_read sy s
      | BSerial \<Rightarrow> driver_serial_read sy s)"

definition driver_wait :: "'w sys \<Rightarrow> int \<Rightarrow> 'w xlink \<Rightarrow> (bool \<times> 'w xlink) option" where
  "driver_wait sy timeout s =
     (case drv_backend s of
        BSetup \<Rightarrow> None
      | BParport \<Rightarrow> driver_parport_wait sy timeout s
      | BUsb \<Rightarrow> driver_usb_wait sy timeout s
      | BShm \<Rightarrow> driver_shm_wait sy timeout s
      | BSerial \<Rightarrow> driver_serial_wait sy timeout s)"

definition driver_prims :: "'w sys \<Rightarrow> 'w prims" where
  "driver_prims sy =
     \<lparr>d_input = driver_input sy, d_output = driver_output sy, d_strobe = driver_strobe sy,
      d_write = driver_write sy, d_read = driver_read sy, d_wait = driver_wait sy\<rparr>"

lemma driver_prims_simps [simp]:
  "d_input (driver_prims sy) = driver_input sy" "d_output (driver_prims sy) = driver_output sy"
  "d_strobe (driver_prims sy) = driver_strobe sy" "d_write (driver_prims sy) = driver_write sy"
  "d_read (driver_prims sy) = driver_read sy" "d_wait (driver_prims sy) = driver_wait sy"
  by (simp_all add: driver_prims_def)

section \<open>Transfers, ping, close\<close>

definition driver_send :: "'w sys \<Rightarrow> uchar list \<Rightarrow> 'w xlink \<Rightarrow> (bool \<times> 'w xlink) option" where
  "driver_send sy data s =
     (case drv_backend s of
        BSetup \<Rightarrow> None
      | BParport \<Rightarrow> driver_parport_send (driver_prims sy) data s
      | BUsb \<Rightarrow> driver_usb_send sy data s
      | BShm \<Rightarrow> driver_shm_send (driver_prims sy) data s
      | BSerial \<Rightarrow> driver_serial_send sy data s)"

definition driver_receive :: "'w sys \<Rightarrow> nat \<Rightarrow> 'w xlink \<Rightarrow> ((bool \<times> uchar list) \<times> 'w xlink) option" where
  "driver_receive sy n s =
     (case drv_backend s of
        BSetup \<Rightarrow> None
      | BParport \<Rightarrow> driver_parport_receive (driver_prims sy) n s
      | BUsb \<Rightarrow> driver_usb_receive sy n s
      | BShm \<Rightarrow> driver_shm_receive (driver_prims sy) n s
      | BSerial \<Rightarrow> driver_serial_receive sy n s)"

definition driver_ping :: "'w sys \<Rightarrow> 'w xlink \<Rightarrow> (bool \<times> 'w xlink) option" where
  "driver_ping sy s =
     (case drv_backend s of
        BSetup \<Rightarrow> None
      | BParport \<Rightarrow> driver_parport_ping (driver_prims sy) s
      | BUsb \<Rightarrow> driver_usb_ping (driver_prims sy) s
      | BShm \<Rightarrow> driver_shm_ping (driver_prims sy) s
      | BSerial \<Rightarrow> driver_serial_ping (driver_prims sy) s)"

definition driver_reset :: "'w sys \<Rightarrow> 'w xlink \<Rightarrow> 'w xlink option" where
  "driver_reset sy s =
     (case drv_backend s of
        BSetup \<Rightarrow> None
      | BParport \<Rightarrow> driver_parport_reset sy s
      | BUsb \<Rightarrow> driver_usb_reset sy s
      | BShm \<Rightarrow> driver_shm_reset sy s
      | BSerial \<Rightarrow> driver_serial_reset sy s)"

definition driver_boot :: "'w sys \<Rightarrow> 'w xlink \<Rightarrow> 'w xlink option" where
  "driver_boot sy s =
     (case drv_backend s of
        BSetup \<Rightarrow> None
      | BParport \<Rightarrow> driver_parport_boot s
      | BUsb \<Rightarrow> driver_usb_boot sy s
      | BShm \<Rightarrow> driver_shm_boot s
      | BSerial \<Rightarrow> driver_serial_boot s)"

definition driver_close :: "'w sys \<Rightarrow> 'w xlink \<Rightarrow> 'w xlink option" where
  "driver_close sy s =
     do { s \<leftarrow> driver_input sy s;
          case drv_backend s of
            BSetup \<Rightarrow> None
          | BParport \<Rightarrow> driver_parport_close sy s
          | BUsb \<Rightarrow> driver_usb_close sy s
          | BShm \<Rightarrow> driver_shm_close s
          | BSerial \<Rightarrow> driver_serial_close s }"

text \<open>\<open>_driver_free\<close> calls the back end's free only when one is installed.\<close>

definition driver_free :: "'w sys \<Rightarrow> 'w xlink \<Rightarrow> 'w xlink option" where
  "driver_free sy s =
     (case drv_backend s of
        BSetup \<Rightarrow> Some s
      | BParport \<Rightarrow> driver_parport_free s
      | BUsb \<Rightarrow> driver_usb_free s
      | BShm \<Rightarrow> driver_shm_free sy s
      | BSerial \<Rightarrow> driver_serial_free sy s)"

section \<open>Opening and setting up\<close>

text \<open>
  \<open>driver->open()\<close> when a back end is installed. The full function, \<open>driver_open\<close> below,
  adds the initial \<open>_driver_setup_and_open\<close>, which only calls \<open>open\<close> after installing one.
\<close>

definition backend_open :: "'w sys \<Rightarrow> 'w xlink \<Rightarrow> (bool \<times> 'w xlink) option" where
  "backend_open sy s =
     (case drv_backend s of
        BSetup \<Rightarrow> None
      | BParport \<Rightarrow> driver_parport_open sy s
      | BUsb \<Rightarrow> driver_usb_open sy s
      | BShm \<Rightarrow> driver_shm_open sy (driver_prims sy) s
      | BSerial \<Rightarrow> driver_serial_open sy (driver_prims sy) s)"

definition driver_ready_by :: "'w sys \<Rightarrow> ('w xlink \<Rightarrow> (bool \<times> 'w xlink) option) \<Rightarrow> 'w xlink
    \<Rightarrow> (bool \<times> 'w xlink) option" where
  "driver_ready_by sy opn s =
     do { (result, s) \<leftarrow> opn s;
          s \<leftarrow> (if result then driver_close sy s else Some s);
          Some (result, CLEAR_ERROR_IF result s) }"

text \<open>The four branches of \<open>driver_setup\<close> differ in the functions they install and in a word.\<close>

definition setup_backend :: "'w sys \<Rightarrow> backend \<Rightarrow> string \<Rightarrow> 'w xlink \<Rightarrow> (bool \<times> 'w xlink) option" where
  "setup_backend sy b what s =
     (let s = s\<lparr>lg := logger_debug (''trying to use '' @ what @ '' device \"%s\"...'') [Astr (drv_path s)] (lg s)\<rparr>;
          s = s\<lparr>drv_backend := b\<rparr>
      in do { (result, s) \<leftarrow> driver_ready_by sy (backend_open sy) s;
              Some (result,
                if result
                then s\<lparr>lg := logger_debug (''using '' @ what @ '' device \"%s\"'') [Astr (drv_path s)] (lg s)\<rparr>
                else SET_ERROR XLINK_ERROR_DEVICE (''failed to initialize '' @ what @ '' device \"%s\"'')
                       [Astr (drv_path s)] s) })"

definition driver_setup :: "'w sys \<Rightarrow> string \<Rightarrow> 'w xlink \<Rightarrow> (bool \<times> 'w xlink) option" where
  "driver_setup sy path s =
     (case device_identify sy path (s\<lparr>drv_path := path\<rparr>) of
        (None, s) \<Rightarrow> Some (False, CLEAR_ERROR_IF False s)
      | (Some type, s) \<Rightarrow>
          (case device_is_supported path type s of
             (False, s) \<Rightarrow> Some (False, CLEAR_ERROR_IF False s)
           | (True, s) \<Rightarrow>
               do { (result, s) \<leftarrow>
                      (if device_is_parport type then setup_backend sy BParport ''parallel port'' s
                       else if device_is_usb type then setup_backend sy BUsb ''usb'' s
                       else if device_is_shm type then setup_backend sy BShm ''shm'' s
                       else if device_is_serial type then setup_backend sy BSerial ''serial'' s
                       else Some (False, s));
                    Some (result, CLEAR_ERROR_IF result s) }))"

definition default_usb_device :: string where "default_usb_device = ''/dev/xlink''"
definition default_parport_device :: string where "default_parport_device = ''/dev/parport0''"

text \<open>The part of \<open>_driver_setup_and_open\<close> that picks the device: did it work, was it a guess?\<close>

definition autodetect_setup :: "'w sys \<Rightarrow> 'w xlink \<Rightarrow> (bool \<times> bool \<times> 'w xlink) option" where
  "autodetect_setup sy s =
     (case os_getenv (sy_os sy) ''XLINK_DEVICE'' (world s) of
        Some path \<Rightarrow> do { (r, s) \<leftarrow> driver_setup sy path s; Some (r, False, s) }
      | None \<Rightarrow>
          do { (r, s) \<leftarrow> driver_setup sy default_usb_device s;
               if \<not> r then
                 do { (r, s) \<leftarrow> driver_setup sy default_parport_device s;
                      Some (r, True,
                        if r then s\<lparr>lg := logger_info ''using default parallel port device %s''
                                            [Astr default_parport_device] (lg s)\<rparr>
                        else s) }
               else
                 Some (r, True, s\<lparr>lg := logger_info ''using default usb device \"%s\"''
                                          [Astr default_usb_device] (lg s)\<rparr>) })"

definition driver_setup_and_open :: "'w sys \<Rightarrow> 'w xlink \<Rightarrow> (bool \<times> 'w xlink) option" where
  "driver_setup_and_open sy s =
     do { (result, autodetect, s) \<leftarrow> autodetect_setup sy s;
          (result, s) \<leftarrow>
            (if result then backend_open sy s
             else Some (result,
               if autodetect
               then SET_ERROR XLINK_ERROR_DEVICE ''failed to initialize \"%s\" or \"%s\" (autodetect)''
                      [Astr default_usb_device, Astr default_parport_device] s
               else s));
          Some (result, CLEAR_ERROR_IF result s) }"

definition driver_open :: "'w sys \<Rightarrow> 'w xlink \<Rightarrow> (bool \<times> 'w xlink) option" where
  "driver_open sy s =
     (case drv_backend s of BSetup \<Rightarrow> driver_setup_and_open sy s | _ \<Rightarrow> backend_open sy s)"

definition driver_ready :: "'w sys \<Rightarrow> 'w xlink \<Rightarrow> (bool \<times> 'w xlink) option" where
  "driver_ready sy s = driver_ready_by sy (driver_open sy) s"

text \<open>The vtable that \<open>libxlink_initialize\<close> fills.\<close>

definition libxlink_driver :: "'w sys \<Rightarrow> 'w driver" where
  "libxlink_driver sy =
     \<lparr>d_input = driver_input sy, d_output = driver_output sy, d_strobe = driver_strobe sy,
      d_write = driver_write sy, d_read = driver_read sy, d_wait = driver_wait sy,
      d_ready = driver_ready sy, d_open = driver_open sy, d_close = driver_close sy,
      d_send = driver_send sy, d_receive = driver_receive sy, d_ping = driver_ping sy,
      d_reset = driver_reset sy, d_boot = driver_boot sy\<rparr>"

section \<open>What the vtable guarantees\<close>

lemma driver_core [core_keep]:
  "driver_input sy s = Some s' \<Longrightarrow> core s' = core s"
  "driver_output sy s = Some s' \<Longrightarrow> core s' = core s"
  "driver_strobe sy s = Some s' \<Longrightarrow> core s' = core s"
  "driver_write sy v s = Some s' \<Longrightarrow> core s' = core s"
  "driver_read sy s = Some (v', s') \<Longrightarrow> core s' = core s"
  "driver_wait sy t s = Some (r, s') \<Longrightarrow> core s' = core s"
  "driver_reset sy s = Some s' \<Longrightarrow> core s' = core s"
  "driver_boot sy s = Some s' \<Longrightarrow> core s' = core s"
  unfolding driver_input_def driver_output_def driver_strobe_def driver_write_def driver_read_def
    driver_wait_def driver_reset_def driver_boot_def
  by (auto split: backend.splits dest: core_keep)

lemma driver_close_core [core_keep]: "driver_close sy s = Some s' \<Longrightarrow> core s' = core s"
proof -
  assume "driver_close sy s = Some s'"
  then obtain t where "driver_input sy s = Some t" and rest: "(case drv_backend t of
            BSetup \<Rightarrow> None
          | BParport \<Rightarrow> driver_parport_close sy t
          | BUsb \<Rightarrow> driver_usb_close sy t
          | BShm \<Rightarrow> driver_shm_close t
          | BSerial \<Rightarrow> driver_serial_close t) = Some s'"
    by (auto simp: driver_close_def bind_Some_iff)
  then have "core t = core s" by (simp add: driver_core)
  with rest show "core s' = core s" by (cases "drv_backend t") (auto dest: core_keep)
qed

lemma driver_ping_core [core_keep]: "driver_ping sy s = Some (r, s') \<Longrightarrow> core s' = core s"
  by (auto simp: driver_ping_def driver_parport_ping_def driver_usb_ping_def driver_shm_ping_def
      driver_serial_ping_def bind_iff split: backend.splits dest!: driver_core)

lemma driver_send_result:
  "driver_send sy bs s = Some (r, s') \<Longrightarrow>
   seat s' = seat s \<and> (bs \<noteq> [] \<longrightarrow> \<not> r \<longrightarrow> err_code s' \<noteq> XLINK_SUCCESS)"
  using handshake_send_result [of "driver_prims sy", OF _ _ _, simplified, OF driver_core(4,3,6)]
  by (auto simp: driver_send_def driver_parport_send_def driver_shm_send_def error_codes
      split: backend.splits dest: usb_transfer_result serial_transfer_result)

lemma driver_receive_result:
  "driver_receive sy n s = Some ((r, bs), s') \<Longrightarrow>
   seat s' = seat s \<and> (n \<noteq> 0 \<longrightarrow> \<not> r \<longrightarrow> err_code s' \<noteq> XLINK_SUCCESS)"
  using handshake_receive_result [of "driver_prims sy", OF _ _ _, simplified, OF driver_core(5,3,6)]
  by (auto simp: driver_receive_def driver_parport_receive_def driver_shm_receive_def error_codes
      split: backend.splits dest: usb_transfer_result serial_transfer_result)

lemma backend_open_result:
  "backend_open sy s = Some (r, s') \<Longrightarrow> seat s' = seat s \<and> (err_code s' = XLINK_SUCCESS \<longleftrightarrow> r)"
  using shm_open_result [of sy "driver_prims sy", simplified, OF _ driver_core(1)]
    serial_open_result [of sy "driver_prims sy", simplified, OF _ driver_core(1)]
  by (auto simp: backend_open_def split: backend.splits dest: parport_open_result usb_open_result)

lemma driver_ready_by_result:
  assumes "driver_ready_by sy opn s = Some (r, s')"
    and opn: "\<And>r t. opn s = Some (r, t) \<Longrightarrow> f t = f s \<and> (err_code t = XLINK_SUCCESS \<longleftrightarrow> r)"
    and f: "\<And>s t. seat s = seat t \<Longrightarrow> f s = f t"
  shows "f s' = f s \<and> (err_code s' = XLINK_SUCCESS \<longleftrightarrow> r)"
proof -
  have clear: "f (CLEAR_ERROR_IF q t) = f t" for q t by (rule f) simp
  from assms(1) obtain t u where t: "opn s = Some (r, t)"
    and u: "if r then driver_close sy t = Some u else u = t" and s': "s' = CLEAR_ERROR_IF r u"
    by (auto simp: driver_ready_by_def bind_iff split: if_splits)
  from u have "core u = core t" by (auto split: if_splits dest: driver_close_core)
  with opn [OF t] s' show ?thesis
    using f [OF core_seat, of u t] core_err [of u t] by (simp add: clear)
qed

lemma setup_backend_result:
  "setup_backend sy b w s = Some (r, s') \<Longrightarrow>
   frame s' = frame s \<and> drv_backend s' = b \<and> (err_code s' = XLINK_SUCCESS \<longleftrightarrow> r)"
proof -
  assume "setup_backend sy b w s = Some (r, s')"
  then obtain s1 s2 where run: "driver_ready_by sy (backend_open sy) s1 = Some (r, s2)"
    and s1: "frame s1 = frame s" "drv_backend s1 = b"
    and s': "seat s' = seat s2" "err_code s' = (if r then err_code s2 else XLINK_ERROR_DEVICE)"
    by (auto simp: setup_backend_def bind_iff Let_def frame_def)
  have "seat s2 = seat s1 \<and> (err_code s2 = XLINK_SUCCESS \<longleftrightarrow> r)"
    by (rule driver_ready_by_result [OF run]) (auto dest: backend_open_result)
  with s1 s' show ?thesis by (auto simp: seat_def error_codes)
qed

lemma device_identify_result:
  "device_identify sy path s = (t, s') \<Longrightarrow> seat s' = seat s \<and> (t = None \<longrightarrow> err_code s' \<noteq> XLINK_SUCCESS)"
  by (auto simp: device_identify_def error_codes split: if_splits option.splits prod.splits)

lemma device_is_supported_result:
  "device_is_supported path t s = (r, s') \<Longrightarrow> seat s' = seat s \<and>
   (r \<longleftrightarrow> device_is_parport t \<or> device_is_usb t \<or> device_is_shm t \<or> device_is_serial t) \<and>
   (\<not> r \<longrightarrow> err_code s' \<noteq> XLINK_SUCCESS)"
  by (auto simp: device_is_supported_def error_codes split: if_splits)

lemma driver_setup_result:
  assumes "driver_setup sy path s = Some (r, s')"
  shows "frame s' = frame s \<and> (r \<longrightarrow> drv_backend s' \<noteq> BSetup) \<and> (err_code s' = XLINK_SUCCESS \<longleftrightarrow> r)"
proof -
  obtain t s1 where id: "device_identify sy path (s\<lparr>drv_path := path\<rparr>) = (t, s1)" by fastforce
  have s1: "frame s1 = frame s" using device_identify_result [OF id] by (simp add: core_defs)
  show ?thesis
  proof (cases t)
    case None
    with assms id device_identify_result [OF id] s1 show ?thesis
      by (auto simp: driver_setup_def seat_def CLEAR_ERROR_IF_def)
  next
    case (Some type)
    obtain ok s2 where sup: "device_is_supported path type s1 = (ok, s2)" by fastforce
    note sup' = device_is_supported_result [OF sup]
    show ?thesis
    proof (cases ok)
      case False
      with assms id Some sup sup' s1 show ?thesis
        by (auto simp: driver_setup_def seat_def CLEAR_ERROR_IF_def)
    next
      case True
      with assms id Some sup obtain s3 where
        run: "(if device_is_parport type then setup_backend sy BParport ''parallel port'' s2
           else if device_is_usb type then setup_backend sy BUsb ''usb'' s2
           else if device_is_shm type then setup_backend sy BShm ''shm'' s2
           else if device_is_serial type then setup_backend sy BSerial ''serial'' s2
           else Some (False, s2)) = Some (r, s3)" and s': "s' = CLEAR_ERROR_IF r s3"
        by (auto simp: driver_setup_def bind_pair_iff)
      then have "frame s3 = frame s2 \<and> drv_backend s3 \<noteq> BSetup \<and> (err_code s3 = XLINK_SUCCESS \<longleftrightarrow> r)"
        using sup' True by (auto split: if_splits dest: setup_backend_result)
      with s' sup' s1 show ?thesis by (auto simp: CLEAR_ERROR_IF_def seat_def frame_def)
    qed
  qed
qed

lemma autodetect_setup_result:
  "autodetect_setup sy s = Some (r, a, s') \<Longrightarrow>
   frame s' = frame s \<and> (r \<longrightarrow> drv_backend s' \<noteq> BSetup) \<and> (err_code s' = XLINK_SUCCESS \<longleftrightarrow> r)"
proof (cases "os_getenv (sy_os sy) ''XLINK_DEVICE'' (world s)")
  case (Some path)
  moreover assume "autodetect_setup sy s = Some (r, a, s')"
  ultimately have "driver_setup sy path s = Some (r, s')"
    by (auto simp: autodetect_setup_def bind_pair_iff)
  then show ?thesis by (rule driver_setup_result)
next
  case None
  moreover assume run: "autodetect_setup sy s = Some (r, a, s')"
  ultimately obtain q t where q: "driver_setup sy default_usb_device s = Some (q, t)"
    by (cases "driver_setup sy default_usb_device s") (auto simp: autodetect_setup_def)
  note q' = driver_setup_result [OF q]
  show ?thesis
  proof (cases q)
    case True
    with None run q q' show ?thesis by (auto simp: autodetect_setup_def frame_def)
  next
    case False
    with None run q obtain u where u: "driver_setup sy default_parport_device t = Some (r, u)"
      and s': "frame s' = frame u \<and> drv_backend s' = drv_backend u \<and> err_code s' = err_code u"
      by (auto simp: autodetect_setup_def bind_pair_iff frame_def)
    with driver_setup_result [OF u] q' show ?thesis by simp
  qed
qed

lemma driver_setup_and_open_result:
  assumes "driver_setup_and_open sy s = Some (r, s')"
  shows "frame s' = frame s \<and> (r \<longrightarrow> drv_backend s' \<noteq> BSetup) \<and> (err_code s' = XLINK_SUCCESS \<longleftrightarrow> r)"
proof -
  obtain q a s1 where one: "autodetect_setup sy s = Some (q, a, s1)"
    using assms by (cases "autodetect_setup sy s") (auto simp: driver_setup_and_open_def)
  show ?thesis
  proof (cases q)
    case True
    with assms one obtain s2 where "backend_open sy s1 = Some (r, s2)" "s' = CLEAR_ERROR_IF r s2"
      by (auto simp: driver_setup_and_open_def bind_iff)
    with backend_open_result [of sy s1 r s2] autodetect_setup_result [OF one] True show ?thesis
      by (auto simp: CLEAR_ERROR_IF_def seat_def frame_def)
  next
    case False
    with assms one autodetect_setup_result [OF one] show ?thesis
      by (auto simp: driver_setup_and_open_def CLEAR_ERROR_IF_def SET_ERROR_def frame_def error_codes
          split: if_splits)
  qed
qed

lemma driver_open_result:
  "driver_open sy s = Some (r, s') \<Longrightarrow>
   frame s' = frame s \<and> (r \<longrightarrow> drv_backend s' \<noteq> BSetup) \<and> (err_code s' = XLINK_SUCCESS \<longleftrightarrow> r)"
  by (auto simp: driver_open_def seat_def split: backend.splits
      dest: driver_setup_and_open_result backend_open_result)

lemma driver_ready_result:
  assumes "driver_ready sy s = Some (r, s')"
  shows "frame s' = frame s \<and> (err_code s' = XLINK_SUCCESS \<longleftrightarrow> r)"
  using assms unfolding driver_ready_def
  by (rule driver_ready_by_result) (auto dest: driver_open_result seat_frame)

end
