(* ===== verification/Wire.thy ===== *)
theory Wire
  imports Driver
begin

text \<open>
  What the two adapter back ends put on the wire: the serial line and the usb adapter carry the
  bytes of a send in chunks.
\<close>

section \<open>The wire\<close>

definition tty_out :: "os_event list \<Rightarrow> uchar list" where
  "tty_out tr = concat (map (\<lambda>e. case e of TtyWrite fd bs \<Rightarrow> bs | _ \<Rightarrow> []) tr)"

definition usb_out :: "os_event list \<Rightarrow> uchar list" where
  "usb_out tr = concat (map (\<lambda>e. case e of
     UsbControl inward m v i bs n \<Rightarrow> (if \<not> inward \<and> m = uint CMD_SEND then bs else []) | _ \<Rightarrow> []) tr)"

lemma tty_out_append [simp]: "tty_out (a @ b) = tty_out a @ tty_out b"
  by (simp add: tty_out_def)

lemma usb_out_append [simp]: "usb_out (a @ b) = usb_out a @ usb_out b"
  by (simp add: usb_out_def)

lemma tty_out_writes: "tty_out (map (TtyWrite fd) ps) = concat ps"
  by (induction ps) (auto simp: tty_out_def)

lemma serial_write_out:
  assumes "serial_write sy bs s = Some t"
  shows "tty_out (trace t) = tty_out (trace s) @ bs"
proof -
  have "length bs \<le> sum_list (map unat (chunk_sizes 16 (length bs)))"
    by (simp add: chunk_sizes_sum)
  then show ?thesis
    using assms serial_write_trace [of sy bs s]
    by (auto simp: tty_out_writes concat_pieces)
qed

lemma serial_read_out:
  assumes "serial_read sy n s = Some (bs, s')"
  shows "trace s' = trace s"
proof -
  have "trace (snd y) = trace t" if "serial_read_loop sy n got t = Some y" for got t y
    by (rule serial_read_loop.raw_induct [where P = "\<lambda>sy n got s y. trace (snd y) = trace s",
          OF _ that])
      (auto split: if_splits prod.splits option.splits dest!: ask_keeps)
  from this [of "[]" _ "(bs, s')"] assms show ?thesis by (auto simp: serial_read_def)
qed

lemma run_send_chunks:
  "run_chunks (send_chunk sy) cs (t, s) = Some (r, t', s') \<Longrightarrow>
   \<exists>ks. usb_out (trace s') = usb_out (trace s) @ concat (pieces ks (t_data t)) \<and>
     prefix ks cs \<and> (r \<longrightarrow> ks = cs)"
proof (induction cs arbitrary: t s)
  case Nil
  then show ?case by (intro exI [of _ "[]"]) simp
next
  case (Cons c cs)
  then obtain q t1 s1 where one: "send_chunk sy c (t, s) = Some (q, t1, s1)"
    and rest: "if q then run_chunks (send_chunk sy) cs (t1, s1) = Some (r, t', s') else (r, t', s') = (False, t1, s1)"
    by (cases "send_chunk sy c (t, s)") (auto split: if_splits)
  have out: "usb_out (trace s1) = usb_out (trace s) @ take (unat c) (t_data t)"
    and data: "q \<Longrightarrow> t_data t1 = drop (unat c) (t_data t)"
    using one by (auto simp: send_chunk_def controlEndpointOut_def usb_transfer_def bind_iff Let_def
        case_prod_unfold usb_out_def split: option.splits if_splits)
  show ?case
  proof (cases q)
    case True
    with rest Cons.IH [of t1 s1] data obtain ks where
      "usb_out (trace s') = usb_out (trace s1) @ concat (pieces ks (drop (unat c) (t_data t)))"
      "prefix ks cs" "r \<longrightarrow> ks = cs" by auto
    with out show ?thesis by (intro exI [of _ "c # ks"]) auto
  next
    case False
    with rest out show ?thesis by (intro exI [of _ "[c]"]) auto
  qed
qed

lemma concat_pieces_take: "concat (pieces ks xs) = take (sum_list (map unat ks)) xs"
  by (induction ks arbitrary: xs) (auto simp: take_add)

section \<open>Properties\<close>

text \<open>A send over the serial adapter writes the command frame with the data's length and then
  exactly the data, whatever the adapter answers, and its result and the error code agree
  with whether the adapter counted every byte.\<close>

theorem serial_send_stream:
  assumes "driver_send sy data s = Some (r, s')" "drv_backend s = BSerial"
  shows "tty_out (trace s') = tty_out (trace s) @ cmd_frame CMD_SEND (word_of_nat (length data)) 2 @ data \<and>
    (err_code s' = XLINK_SUCCESS \<longleftrightarrow> r)"
proof -
  have run: "driver_serial_send sy data s = Some (r, s')" using assms by (simp add: driver_send_def)
  then obtain s1 s2 c s3 where a: "serial_cmd sy CMD_SEND (word_of_nat (length data)) 2 s = Some s1"
    and b: "serial_write sy data s1 = Some s2" and c: "serial_read sy 4 s2 = Some (c, s3)" "trace s' = trace s3"
    by (auto simp: driver_serial_send_def bind_iff Let_def SET_ERROR_def CLEAR_ERROR_IF_def split: if_splits)
  show ?thesis
    using serial_write_out [OF a [unfolded serial_cmd_def]] serial_write_out [OF b]
      serial_read_out [OF c(1)] c(2) serial_transfer_result(1) [OF run] by simp
qed

theorem serial_send_stream_witness:
  "map_option (\<lambda>(r, s). tty_out (trace s)) (driver_send sample_sys [1, 2] (sample_state BSerial [2, 0, 0, 0])) =
   Some [8, 2, 0, 0, 0, 2, 0, 0, 0, 1, 2]"
proof -
  let ?run = "driver_send sample_sys [1, 2] (sample_state BSerial [2, 0, 0, 0])"
  have "map_option fst ?run = Some True" by code_simp
  then obtain s' where run: "?run = Some (True, s')" by auto
  have "tty_out (trace (sample_state BSerial [2, 0, 0, 0])) = []" by code_simp
  moreover have "cmd_frame CMD_SEND 2 2 = [8, 2, 0, 0, 0, 2, 0, 0, 0]" by code_simp
  ultimately show ?thesis using serial_send_stream [OF run] run by (simp add: sample_state_def)
qed

text \<open>A send over the usb adapter reports success exactly when the error code says so; then the
  payloads of its send requests are together the data, and otherwise a prefix of it.\<close>

theorem usb_send_payload:
  assumes "driver_send sy data s = Some (r, s')" "drv_backend s = BUsb" "data \<noteq> []" "length data < 2 ^ 32"
  shows "(err_code s' = XLINK_SUCCESS \<longleftrightarrow> r) \<and>
    (\<exists>n. usb_out (trace s') = usb_out (trace s) @ take n data \<and> (r \<longrightarrow> n = length data))"
proof -
  have run: "driver_usb_send sy data s = Some (r, s')" using assms by (simp add: driver_send_def)
  let ?t = "\<lparr>t_data = data, t_completed = 0\<rparr> :: transfer"
  have m: "MAX_PAYLOAD_SIZE \<noteq> 0" by (simp add: MAX_PAYLOAD_SIZE_def)
  from run obtain q t s1 where ch: "chunked (send_chunk sy) MAX_PAYLOAD_SIZE (int (length data)) (?t, s) = Some (q, t, s1)"
    and r: "r = (t_completed t = word_of_nat (length data))" and tr: "trace s' = trace s1"
    by (auto simp: driver_usb_send_def bind_iff Let_def SET_ERROR_def CLEAR_ERROR_IF_def split: if_splits)
  have "r = q" using us.chunked_counts [OF ch m] assms(3,4) r by simp
  from ch obtain ks where ks: "usb_out (trace s1) = usb_out (trace s) @ take (sum_list (map unat ks)) data"
    "q \<longrightarrow> ks = chunk_sizes MAX_PAYLOAD_SIZE (length data)"
    using run_send_chunks [of sy "chunk_sizes MAX_PAYLOAD_SIZE (length data)" ?t s q t s1]
    by (auto simp: chunked_run_chunks [OF m] concat_pieces_take)
  with \<open>r = q\<close> tr usb_transfer_result(1) [OF run] show ?thesis
    by (auto simp: chunk_sizes_sum [OF m])
qed

theorem usb_send_payload_witness:
  "map_option (\<lambda>(r, s). usb_out (trace s)) (driver_send sample_sys [1, 2] (sample_state BUsb [])) = Some [1, 2]"
proof -
  let ?run = "driver_send sample_sys [1, 2] (sample_state BUsb [])"
  have "map_option fst ?run = Some True" by code_simp
  then obtain s' where run: "?run = Some (True, s')" by auto
  have "usb_out (trace (sample_state BUsb [])) = []" by code_simp
  with usb_send_payload [OF run] run show ?thesis by (simp add: sample_state_def)
qed

section \<open>The time limit of the adapter waits\<close>

text \<open>How often the usb adapter was asked whether the other side has acknowledged.\<close>

definition usb_polls :: "os_event list \<Rightarrow> nat" where
  "usb_polls tr = length [e \<leftarrow> tr. case e of
     UsbControl inward m v i bs n \<Rightarrow> inward \<and> m = uint CMD_ACKED | _ \<Rightarrow> False]"

lemma usb_polls_append [simp]: "usb_polls (a @ b) = usb_polls a + usb_polls b"
  by (simp add: usb_polls_def)

lemma usb_polls_sleep [simp]: "usb_polls [Sleep n] = 0"
  by (simp add: usb_polls_def)

lemma usb_acked_returns:
  assumes "usb_handle s = Some h"
  shows "\<exists>r s'. usb_acked sy s = Some (r, s') \<and> usb_handle s' = Some h \<and>
    usb_polls (trace s') = Suc (usb_polls (trace s))"
  using assms
  by (auto simp: usb_acked_def controlEndpointIn_def usb_transfer_def case_prod_unfold Let_def
      usb_get_response_def world_defs usb_polls_def split: list.splits)

lemma usb_wait_timed_returns:
  "usb_handle s = Some h \<Longrightarrow> \<exists>r s'. usb_wait_timed sy (10 * int k) q s = Some (r, s') \<and>
     usb_handle s' = Some h \<and> usb_polls (trace s') \<le> usb_polls (trace s) + k"
proof (induction k arbitrary: q s)
  case 0
  then show ?case by (simp add: usb_wait_timed.simps)
next
  case (Suc k)
  obtain r t where t: "usb_acked sy s = Some (r, t)" "usb_handle t = Some h"
    "usb_polls (trace t) = Suc (usb_polls (trace s))"
    using usb_acked_returns [OF Suc.prems] by blast
  show ?case
  proof (cases r)
    case True
    with t show ?thesis
      by (intro exI [of _ True] exI [of _ t]) (simp add: usb_wait_timed.simps)
  next
    case False
    let ?u = "usleep sy (10 * 1000) t"
    have h: "usb_handle ?u = Some h" using t(2) by (simp add: usleep_def act_def)
    have "10 * int (Suc k) - 10 = 10 * int k" by simp
    then have eq: "usb_wait_timed sy (10 * int (Suc k)) q s = usb_wait_timed sy (10 * int k) r ?u"
      using t(1) False by (subst usb_wait_timed.simps) simp
    obtain r' s' where u: "usb_wait_timed sy (10 * int k) r ?u = Some (r', s')" "usb_handle s' = Some h"
      "usb_polls (trace s') \<le> usb_polls (trace ?u) + k"
      using Suc.IH [OF h] by blast
    have "usb_polls (trace s') \<le> usb_polls (trace s) + Suc k"
      using u(3) t(3) by simp
    with u(1,2) show ?thesis unfolding eq by blast
  qed
qed

lemma usb_ctl_returns:
  assumes "usb_handle s = Some h" "drv_backend s = BUsb"
  shows "\<exists>s'. usb_ctl sy m s = Some s' \<and> usb_handle s' = Some h \<and> drv_backend s' = BUsb \<and>
    usb_polls (trace s') = usb_polls (trace s)"
  using assms
  by (auto simp: usb_ctl_def controlEndpointOut_def usb_transfer_def case_prod_unfold Let_def
      world_defs usb_polls_def)

text \<open>With an adapter opened, a ping over usb always returns, after at most 25 requests for the
  acknowledge, whatever the adapter answers.\<close>

theorem usb_ping_returns:
  assumes "usb_handle s = Some h" "drv_backend s = BUsb"
  shows "\<exists>r s'. driver_ping sy s = Some (r, s') \<and> usb_polls (trace s') \<le> usb_polls (trace s) + 25"
proof -
  obtain s1 where 1: "driver_output sy s = Some s1" "usb_handle s1 = Some h" "drv_backend s1 = BUsb"
    "usb_polls (trace s1) = usb_polls (trace s)"
    using usb_ctl_returns [OF assms] by (auto simp: driver_output_def driver_usb_output_def assms)
  obtain s2 where 2: "driver_write sy 0xfd s1 = Some s2" "usb_handle s2 = Some h" "drv_backend s2 = BUsb"
    "usb_polls (trace s2) = usb_polls (trace s1)"
    using 1 by (auto simp: driver_write_def driver_usb_write_def controlEndpointOutWithValue_def
        usb_transfer_def case_prod_unfold Let_def world_defs usb_polls_def)
  obtain s3 where 3: "driver_strobe sy s2 = Some s3" "usb_handle s3 = Some h" "drv_backend s3 = BUsb"
    "usb_polls (trace s3) = usb_polls (trace s2)"
    using usb_ctl_returns [OF 2(2,3)] by (auto simp: driver_strobe_def driver_usb_strobe_def 2)
  obtain r s4 where 4: "driver_wait sy 250 s3 = Some (r, s4)" "usb_polls (trace s4) \<le> usb_polls (trace s3) + 25"
    using usb_wait_timed_returns [of "s3\<lparr>usb_response := 0\<rparr>" h sy 25 False] 3
    by (auto simp: driver_wait_def driver_usb_wait_def)
  show ?thesis
    using 1 2 3 4 assms by (auto simp: driver_ping_def driver_usb_ping_def)
qed

theorem usb_ping_returns_witness:
  "\<exists>r s'. driver_ping sample_sys (sample_state BUsb []) = Some (r, s') \<and> usb_polls (trace s') \<le> 25"
  using usb_ping_returns [of "sample_state BUsb []" 5 sample_sys]
  by (simp add: sample_state_def usb_polls_def)

lemma usb_wait_timed_diverges:
  assumes silent: "\<And>h m v i b n t w. fst (usb_control (sy_usb sy) h True m v i b n t w) = (0, [])"
    and "\<not> 10 dvd n"
  shows "usb_wait_timed sy n q s = None"
proof (rule ccontr)
  assume "usb_wait_timed sy n q s \<noteq> None"
  then obtain y where y: "usb_wait_timed sy n q s = Some y" by blast
  let ?silent = "\<lambda>sy :: 'a sys. \<forall>h m v i b n t w. fst (usb_control (sy_usb sy) h True m v i b n t w) = (0, [])"
  have "?silent sy \<longrightarrow> (10 :: int) dvd n"
  proof (rule usb_wait_timed.raw_induct [where P = "\<lambda>sy n q s y. ?silent sy \<longrightarrow> (10 :: int) dvd n", OF _ y])
    fix go sy r y and n :: int and s :: "'a xlink"
    assume IH: "\<And>sy n q s y. go sy n q s = Some y \<Longrightarrow> ?silent sy \<longrightarrow> (10 :: int) dvd n"
      and run: "(if n \<noteq> 0 then
        do { (q, s) \<leftarrow> usb_acked sy s;
             if \<not> q then go sy (n - 10) q (usleep sy (10 * 1000) s) else Some (q, s) }
      else Some (r, s)) = Some y"
    show "?silent sy \<longrightarrow> (10 :: int) dvd n"
    proof (cases "n = 0")
      case False
      with run obtain q t where a: "usb_acked sy s = Some (q, t)"
        and b: "if q then y = (q, t) else go sy (n - 10) q (usleep sy (10 * 1000) t) = Some y"
        by (auto simp: bind_pair_iff split: if_splits)
      show ?thesis
      proof
        assume s: "?silent sy"
        then have "\<not> q" using a
          by (auto simp: usb_acked_def controlEndpointIn_def usb_transfer_def case_prod_unfold ask_def Let_def
              bind_iff split: option.splits)
        with b IH [of sy "n - 10"] s have "10 dvd n - 10" by auto
        then show "10 dvd n" by presburger
      qed
    qed simp
  qed
  with assms show False by blast
qed

text \<open>The wait of the usb driver with a time limit that is not a multiple of 10 ms never returns
  while the adapter stays silent: its count-down steps over zero.\<close>

theorem usb_wait_overshoots:
  assumes "\<And>h m v i b n t w. fst (usb_control (sy_usb sy) h True m v i b n t w) = (0, [])"
    and "0 < timeout" "\<not> 10 dvd timeout"
  shows "driver_usb_wait sy timeout s = None"
  using assms usb_wait_timed_diverges [of sy timeout] by (simp add: driver_usb_wait_def)

definition silent_sys :: "uchar list sys" where
  "silent_sys = sample_sys\<lparr>sy_usb := (sy_usb sample_sys)\<lparr>usb_control := \<lambda>h inward m v i b n t w. ((0, []), w)\<rparr>\<rparr>"

theorem usb_wait_overshoots_witness: "driver_usb_wait silent_sys 15 (sample_state BUsb []) = None"
  by (rule usb_wait_overshoots) (simp_all add: silent_sys_def)

end
