(* ===== verification/Xlink.thy ===== *)
theory Xlink
  imports Wire
begin

text \<open>
  xlink.c: the library interface. Every function talks to the adapter through the vtable
  \<open>d\<close>, as the code does through the global \<open>driver\<close>; \<open>libxlink_driver\<close> of Driver is the
  vtable that the library installs. The contract between the two is the locale
  \<open>driver_laws\<close>.
\<close>

section \<open>Constants and the server description\<close>

definition XLINK_COMMAND_LOAD :: uchar where "XLINK_COMMAND_LOAD = 0x01"
definition XLINK_COMMAND_SAVE :: uchar where "XLINK_COMMAND_SAVE = 0x02"
definition XLINK_COMMAND_POKE :: uchar where "XLINK_COMMAND_POKE = 0x03"
definition XLINK_COMMAND_PEEK :: uchar where "XLINK_COMMAND_PEEK = 0x04"
definition XLINK_COMMAND_JUMP :: uchar where "XLINK_COMMAND_JUMP = 0x05"
definition XLINK_COMMAND_RUN :: uchar where "XLINK_COMMAND_RUN = 0x06"
definition XLINK_COMMAND_INJECT :: uchar where "XLINK_COMMAND_INJECT = 0x07"
definition XLINK_COMMAND_IDENTIFY :: uchar where "XLINK_COMMAND_IDENTIFY = 0xfe"

lemmas command_codes = XLINK_COMMAND_LOAD_def XLINK_COMMAND_SAVE_def XLINK_COMMAND_POKE_def
  XLINK_COMMAND_PEEK_def XLINK_COMMAND_JUMP_def XLINK_COMMAND_RUN_def XLINK_COMMAND_INJECT_def
  XLINK_COMMAND_IDENTIFY_def

definition XLINK_DEFAULT_TIMEOUT :: int where "XLINK_DEFAULT_TIMEOUT = 1"
definition XLINK_GO64 :: ushort where "XLINK_GO64 = 0xff4d"
definition XLINK_VERSION :: uchar where "XLINK_VERSION = 0x10"

text \<open>The field \<open>si_id\<close> is the 16 byte buffer of the server's name.\<close>

record xlink_server_info =
  si_id :: "uchar list"
  si_version :: uchar
  si_machine :: uchar
  si_type :: uchar
  si_start :: ushort
  si_end :: ushort
  si_length :: ushort
  si_memtop :: ushort

definition blank_server :: xlink_server_info where
  "blank_server = \<lparr>si_id = replicate 16 0, si_version = 0, si_machine = 0, si_type = 0,
     si_start = 0, si_end = 0, si_length = 0, si_memtop = 0\<rparr>"

definition xlink_version :: uchar where
  "xlink_version = XLINK_VERSION"

definition xlink_set_debug :: "bool \<Rightarrow> 'w xlink \<Rightarrow> 'w xlink" where
  "xlink_set_debug enabled s =
     s\<lparr>lg := (lg s)\<lparr>lg_level := (if enabled then LOGLEVEL_ALL else LOGLEVEL_NONE)\<rparr>\<rparr>"

section \<open>Start and end of the library\<close>

text \<open>
  The constructor. The world, the statics of the drivers and the default machine
  \<open>&c64\<close> are those of program start; the logger is the one of util.c.
\<close>

definition program_start :: "'w \<Rightarrow> 'w xlink" where
  "program_start w =
     \<lparr>drv_path = [], drv_device = 0, drv_timeout = 0, drv_state = STATE_IDLE,
      drv_backend = BSetup, err_code = 0, err_message = ([], []), lg = logger_init, machine = c64,
      pp_last_status = 0, pp_initialized = False, usb_handle = None, usb_response = 0,
      shm_initialized = False, shm_direction = STATE_INPUT, shm_last = 0, ser_initialized = False,
      trace = [], world = w\<rparr>"

definition libxlink_initialize :: "'w sys \<Rightarrow> 'w xlink \<Rightarrow> 'w xlink" where
  "libxlink_initialize sy s =
     (let s = s\<lparr>drv_path := [], drv_timeout := XLINK_DEFAULT_TIMEOUT, drv_state := STATE_IDLE,
                drv_backend := BSetup\<rparr>;
          s = (case os_getenv (sy_os sy) ''XLINK_MACHINE'' (world s) of
                 None \<Rightarrow> s
               | Some m \<Rightarrow>
                   (let s = (if strncmp0 m ''c64'' 3 then s\<lparr>machine := c64\<rparr> else s)
                    in if strncmp0 m ''c128'' 4 then s\<lparr>machine := c128\<rparr> else s))
      in xlink_set_debug False (CLEAR_ERROR_IF True s))"

definition libxlink_finalize :: "'w sys \<Rightarrow> 'w xlink \<Rightarrow> 'w xlink option" where
  "libxlink_finalize sy s = driver_free sy s"

definition xlink_set_device :: "'w sys \<Rightarrow> string \<Rightarrow> 'w xlink \<Rightarrow> (bool \<times> 'w xlink) option" where
  "xlink_set_device sy path s = driver_setup sy path s"

definition xlink_get_device :: "'w xlink \<Rightarrow> string" where
  "xlink_get_device s = drv_path s"

definition xlink_has_device :: "('w, 'm) driver_scheme \<Rightarrow> 'w xlink \<Rightarrow> (bool \<times> 'w xlink) option" where
  "xlink_has_device d s =
     do { let s = s\<lparr>lg := logger_suspend (lg s)\<rparr>;
          (result, s) \<leftarrow> d_ready d s;
          Some (result, s\<lparr>lg := logger_resume (lg s)\<rparr>) }"

section \<open>Sessions\<close>

text \<open>
  The frame that all transfers share: open the driver, run the body, and
  \<open>CLEAR_ERROR_IF(result)\<close> at the label \<open>done\<close>. \<open>ok\<close> reads the boolean off the result;
  when the driver does not open, the result is the initial one. Every path through a body
  ends in \<open>closing\<close>: the call of \<open>driver->close()\<close> of the good path and of the label \<open>error\<close>.
\<close>

definition session :: "('w, 'm) driver_scheme \<Rightarrow> ('r \<Rightarrow> bool) \<Rightarrow> 'r
    \<Rightarrow> ('w xlink \<Rightarrow> ('r \<times> 'w xlink) option) \<Rightarrow> 'w xlink \<Rightarrow> ('r \<times> 'w xlink) option" where
  "session d ok initial body s =
     do { (opened, s) \<leftarrow> d_open d s;
          (result, s) \<leftarrow> (if opened then body s else Some (initial, s));
          Some (result, CLEAR_ERROR_IF (ok result) s) }"

definition closing :: "('w, 'm) driver_scheme \<Rightarrow> 'r \<Rightarrow> 'w xlink \<Rightarrow> ('r \<times> 'w xlink) option" where
  "closing d result s = do { s \<leftarrow> d_close d s; Some (result, s) }"

text \<open>
  The head of a request: ping, \<open>output\<close>, and send of the command bytes; when the ping or the
  send fails, the error exit with result \<open>bad\<close>.
\<close>

definition request :: "('w, 'm) driver_scheme \<Rightarrow> 'r \<Rightarrow> uchar list
    \<Rightarrow> ('w xlink \<Rightarrow> ('r \<times> 'w xlink) option) \<Rightarrow> 'w xlink \<Rightarrow> ('r \<times> 'w xlink) option" where
  "request d bad bytes rest s =
     do { (pong, s) \<leftarrow> d_ping d s;
          if \<not> pong then closing d bad (SET_ERROR XLINK_ERROR_SERVER ''no response from server'' [] s)
          else
            do { s \<leftarrow> d_output d s;
                 (sent, s) \<leftarrow> d_send d bytes s;
                 if \<not> sent then closing d bad s else rest s } }"

text \<open>The turn-round before the answer: \<open>driver->input(); driver->strobe();\<close>.\<close>

definition turn :: "('w, 'm) driver_scheme \<Rightarrow> 'w xlink \<Rightarrow> 'w xlink option" where
  "turn d s = do { s \<leftarrow> d_input d s; d_strobe d s }"

section \<open>Ping, reset, identify\<close>

definition xlink_ping :: "('w, 'm) driver_scheme \<Rightarrow> 'w xlink \<Rightarrow> (bool \<times> 'w xlink) option" where
  "xlink_ping d =
     session d id False (\<lambda>s. do { (result, s) \<leftarrow> d_ping d s; closing d result s })"

text \<open>\<open>while(xlink_ping());\<close>\<close>

partial_function (option) ping_while_up :: "('w, 'm) driver_scheme \<Rightarrow> 'w xlink \<Rightarrow> 'w xlink option" where
  "ping_while_up d s =
     do { (up, s) \<leftarrow> xlink_ping d s;
          if up then ping_while_up d s else Some s }"

declare ping_while_up.simps [code]

definition xlink_reset :: "('w, 'm) driver_scheme \<Rightarrow> 'w xlink \<Rightarrow> (bool \<times> 'w xlink) option" where
  "xlink_reset d s =
     do { (opened, s) \<leftarrow> d_open d s;
          if opened then
            do { s \<leftarrow> d_reset d s;
                 s \<leftarrow> d_close d s;
                 s \<leftarrow> (if m_type (machine s) = XLINK_MACHINE_C128 then ping_while_up d s else Some s);
                 Some (True, s) }
          else Some (False, CLEAR_ERROR_IF False s) }"

text \<open>The and of the nine bytes is 0xff when no server put anything on the bus.\<close>

definition identify_checksum :: "uchar list \<Rightarrow> uchar" where
  "identify_checksum bytes = foldl (\<lambda>c b. c AND b) 0xff bytes"

definition identify_fields :: "uchar list \<Rightarrow> xlink_server_info \<Rightarrow> xlink_server_info" where
  "identify_fields bytes server =
     (let start = word16_le (bytes ! 3) (bytes ! 4);
          end' = word16_le (bytes ! 5) (bytes ! 6)
      in server\<lparr>si_version := bytes ! 0, si_machine := bytes ! 1, si_type := bytes ! 2,
                si_start := start, si_end := end', si_memtop := word16_le (bytes ! 7) (bytes ! 8),
                si_length := end' - start\<rparr>)"

definition xlink_identify :: "('w, 'm) driver_scheme \<Rightarrow> xlink_server_info \<Rightarrow> 'w xlink
    \<Rightarrow> ((bool \<times> xlink_server_info) \<times> 'w xlink) option" where
  "xlink_identify d server =
     session d fst (False, server)
       (request d (False, server) [XLINK_COMMAND_IDENTIFY] (\<lambda>s.
          do { s \<leftarrow> turn d s;
               ((ok, b), s) \<leftarrow> d_receive d 1 s;
               if \<not> ok then closing d (False, server) s
               else
                 do { let len = unat (hd b AND 0x0f);
                      ((ok, name), s) \<leftarrow> d_receive d len s;
                      let server = server\<lparr>si_id := name @ drop (length name) (si_id server)\<rparr>;
                      if \<not> ok then closing d (False, server) s
                      else
                        do { ((ok, bytes), s) \<leftarrow> d_receive d 9 s;
                             if \<not> ok then closing d (False, server) s
                             else if identify_checksum bytes = 0xff then
                               closing d (False, server)
                                 (SET_ERROR XLINK_ERROR_SERVER
                                    ''unknown server (does not support identification)'' [] s)
                             else
                               closing d (True, identify_fields bytes
                                 (server\<lparr>si_id := (si_id server)[len := 0]\<rparr>)) s } } }))"

section \<open>Memory access\<close>

text \<open>The command bytes of load and save: the end address wraps at 16 bits.\<close>

definition range_command :: "uchar \<Rightarrow> uchar \<Rightarrow> uchar \<Rightarrow> ushort \<Rightarrow> nat \<Rightarrow> uchar list" where
  "range_command cmd memory bank address len =
     (let start = address;
          end' = start + word_of_nat len
      in [cmd, memory, bank, lo (ucast start), hi (ucast start), lo (ucast end'), hi (ucast end')])"

definition xlink_load :: "('w, 'm) driver_scheme \<Rightarrow> uchar \<Rightarrow> uchar \<Rightarrow> ushort \<Rightarrow> uchar list \<Rightarrow> 'w xlink
    \<Rightarrow> (bool \<times> 'w xlink) option" where
  "xlink_load d memory bank address bytes =
     session d id False
       (request d False (range_command XLINK_COMMAND_LOAD memory bank address (length bytes)) (\<lambda>s.
          do { (sent, s) \<leftarrow> d_send d bytes s;
               closing d sent s }))"

definition xlink_save :: "('w, 'm) driver_scheme \<Rightarrow> uchar \<Rightarrow> uchar \<Rightarrow> ushort \<Rightarrow> nat \<Rightarrow> 'w xlink
    \<Rightarrow> ((bool \<times> uchar list) \<times> 'w xlink) option" where
  "xlink_save d memory bank address len =
     session d fst (False, [])
       (request d (False, []) (range_command XLINK_COMMAND_SAVE memory bank address len) (\<lambda>s.
          do { s \<leftarrow> turn d s;
               (answer, s) \<leftarrow> d_receive d len s;
               closing d answer s }))"

definition xlink_peek :: "('w, 'm) driver_scheme \<Rightarrow> uchar \<Rightarrow> uchar \<Rightarrow> ushort \<Rightarrow> 'w xlink
    \<Rightarrow> ((bool \<times> uchar list) \<times> 'w xlink) option" where
  "xlink_peek d memory bank address =
     session d fst (False, [])
       (request d (False, [])
         [XLINK_COMMAND_PEEK, memory, bank, lo (ucast address), hi (ucast address)] (\<lambda>s.
          do { s \<leftarrow> turn d s;
               (answer, s) \<leftarrow> d_receive d 1 s;
               closing d answer s }))"

definition xlink_poke :: "('w, 'm) driver_scheme \<Rightarrow> uchar \<Rightarrow> uchar \<Rightarrow> ushort \<Rightarrow> uchar \<Rightarrow> 'w xlink
    \<Rightarrow> (bool \<times> 'w xlink) option" where
  "xlink_poke d memory bank address value =
     session d id False
       (request d False
         [XLINK_COMMAND_POKE, memory, bank, lo (ucast address), hi (ucast address), value]
         (closing d True))"

definition xlink_fill :: "('w, 'm) driver_scheme \<Rightarrow> uchar \<Rightarrow> uchar \<Rightarrow> ushort \<Rightarrow> uchar \<Rightarrow> nat \<Rightarrow> 'w xlink
    \<Rightarrow> (bool \<times> 'w xlink) option" where
  "xlink_fill d memory bank address value len s =
     xlink_load d memory bank address (replicate len value) s"

text \<open>A jump address goes out high byte first.\<close>

definition xlink_jump :: "('w, 'm) driver_scheme \<Rightarrow> uchar \<Rightarrow> uchar \<Rightarrow> ushort \<Rightarrow> 'w xlink
    \<Rightarrow> (bool \<times> 'w xlink) option" where
  "xlink_jump d memory bank address =
     session d id False
       (request d False
         [XLINK_COMMAND_JUMP, memory, bank, hi (ucast address), lo (ucast address)]
         (closing d True))"

definition xlink_run :: "('w, 'm) driver_scheme \<Rightarrow> 'w xlink \<Rightarrow> (bool \<times> 'w xlink) option" where
  "xlink_run d = session d id False (request d False [XLINK_COMMAND_RUN] (closing d True))"

definition xlink_inject :: "('w, 'm) driver_scheme \<Rightarrow> ushort \<Rightarrow> uchar list \<Rightarrow> 'w xlink
    \<Rightarrow> (bool \<times> 'w xlink) option" where
  "xlink_inject d address code s =
     do { (loaded, s) \<leftarrow> xlink_load d (m_memory (machine s)) (m_bank (machine s)) address code s;
          if \<not> loaded then Some (False, CLEAR_ERROR_IF False s)
          else
            (let address = address - 1 in
             session d id False
               (request d False [XLINK_COMMAND_INJECT, hi (ucast address), lo (ucast address)]
                 (closing d True)) s) }"

section \<open>Readiness\<close>

definition xlink_bootloader :: "('w, 'm) driver_scheme \<Rightarrow> 'w xlink \<Rightarrow> (bool \<times> 'w xlink) option" where
  "xlink_bootloader d =
     session d id False (\<lambda>s. do { s \<leftarrow> d_boot d s; closing d True s })"

function server_wait_loop :: "'w sys \<Rightarrow> ('w, 'm) driver_scheme \<Rightarrow> int \<Rightarrow> int \<Rightarrow> 'w xlink
    \<Rightarrow> (bool \<times> 'w xlink) option" where
  "server_wait_loop sy d elapsed ms s =
     (if ms > 0 then
        do { let elapsed = elapsed + 250;
             (up, s) \<leftarrow> xlink_ping d s;
             if up then
               Some (True, usleep sy (250 * 1000)
                 (s\<lparr>lg := logger_trace ''server ready after less than %dms'' [Aint elapsed] (lg s)\<rparr>))
             else server_wait_loop sy d elapsed (ms - 250) s }
      else Some (False, s))"
  by pat_completeness auto
termination
  by (relation "measure (\<lambda>(sy, d, elapsed, ms, s). nat ms)") auto

declare server_wait_loop.simps [simp del]

definition server_ready_after :: "'w sys \<Rightarrow> ('w, 'm) driver_scheme \<Rightarrow> int \<Rightarrow> 'w xlink
    \<Rightarrow> (bool \<times> 'w xlink) option" where
  "server_ready_after sy d ms s =
     server_wait_loop sy d 0 ms
       (s\<lparr>lg := logger_trace ''waiting at most %dms for server...'' [Aint ms] (lg s)\<rparr>)"

text \<open>
  The parts of \<open>xlink_ready\<close>, in its order: reach the server, with a reset when two pings
  fail; switch a server of the other machine to the mode wanted, where the flag says whether
  the code goes straight to \<open>done\<close>; leave a running basic program.
\<close>

definition log_trace :: "string \<Rightarrow> 'w xlink \<Rightarrow> 'w xlink" where
  "log_trace m s = s\<lparr>lg := logger_trace m [] (lg s)\<rparr>"

definition ready_reach :: "'w sys \<Rightarrow> ('w, 'm) driver_scheme \<Rightarrow> 'w xlink \<Rightarrow> (bool \<times> 'w xlink) option" where
  "ready_reach sy d s =
     do { (first, s) \<leftarrow> xlink_ping d s;
          (both, s) \<leftarrow> (if first then xlink_ping d s else Some (False, s));
          if \<not> both then
            do { let s = log_trace ''server not reachable, resetting...'' s;
                 (_, s) \<leftarrow> xlink_reset d s;
                 server_ready_after sy d 3000 (usleep sy (100 * 1000) s) }
          else Some (True, s) }"

definition ready_switch_c64 :: "'w sys \<Rightarrow> ('w, 'm) driver_scheme \<Rightarrow> 'w xlink
    \<Rightarrow> (bool \<times> bool \<times> 'w xlink) option" where
  "ready_switch_c64 sy d s =
     do { ((result, remote), s) \<leftarrow> xlink_identify d blank_server s;
          if result \<and> uint (si_machine remote) = XLINK_MACHINE_C128 then
            do { let s = log_trace ''C128 server identified, switching to C64 mode'' s;
                 (result, s) \<leftarrow> xlink_jump d (m_memory c128) (m_bank c128) XLINK_GO64 s;
                 if result then
                   do { (result, s) \<leftarrow> server_ready_after sy d 3000 s; Some (result, True, s) }
                 else Some (False, False, s) }
          else Some (result, False, s) }"

definition ready_switch_c128 :: "'w sys \<Rightarrow> ('w, 'm) driver_scheme \<Rightarrow> 'w xlink
    \<Rightarrow> (bool \<times> bool \<times> 'w xlink) option" where
  "ready_switch_c128 sy d s =
     do { ((result, remote), s) \<leftarrow> xlink_identify d blank_server s;
          if result \<and> uint (si_machine remote) = XLINK_MACHINE_C64 then
            do { let s = log_trace ''C64 server identified, switching to C128 mode'' s;
                 (result, s) \<leftarrow> xlink_reset d s;
                 if result then
                   do { (result, s) \<leftarrow> server_ready_after sy d 3000 s; Some (result, True, s) }
                 else Some (False, False, s) }
          else Some (result, False, s) }"

definition ready_warmstart :: "'w sys \<Rightarrow> ('w, 'm) driver_scheme \<Rightarrow> 'w xlink
    \<Rightarrow> (bool \<times> 'w xlink) option" where
  "ready_warmstart sy d s =
     do { ((result, mode), s) \<leftarrow>
            xlink_peek d (m_memory (machine s)) (m_bank (machine s)) (m_mode (machine s)) s;
          if result \<and> hd mode = m_prgmode (machine s) then
            do { let s = s\<lparr>lg := logger_debug ''basic program running, performing basic warmstart...'' [] (lg s)\<rparr>;
                 (result, s) \<leftarrow>
                   xlink_jump d (m_memory (machine s)) (m_bank (machine s)) (m_warmstart (machine s)) s;
                 Some (result, if result then usleep sy (250 * 1000) s else s) }
          else Some (result, s) }"

definition xlink_ready :: "'w sys \<Rightarrow> ('w, 'm) driver_scheme \<Rightarrow> 'w xlink \<Rightarrow> (bool \<times> 'w xlink) option" where
  "xlink_ready sy d s =
     do { (up, s) \<leftarrow> d_ready d s;
          (result, s) \<leftarrow>
            (if \<not> up then Some (False, s)
             else
               do { (reached, s) \<leftarrow> ready_reach sy d s;
                    if \<not> reached then Some (False, s)
                    else
                      do { (result, finished, s) \<leftarrow>
                             (if m_type (machine s) = XLINK_MACHINE_C64 then ready_switch_c64 sy d s
                              else Some (True, False, s));
                           if finished then Some (result, s)
                           else
                             do { (result, finished, s) \<leftarrow>
                                    (if m_type (machine s) = XLINK_MACHINE_C128 then ready_switch_c128 sy d s
                                     else Some (result, False, s));
                                  if finished \<or> \<not> result then Some (result, s)
                                  else ready_warmstart sy d s } } });
          Some (result, CLEAR_ERROR_IF result s) }"

section \<open>Raw transfers\<close>

definition xlink_begin :: "'w xlink \<Rightarrow> 'w xlink" where
  "xlink_begin s = s\<lparr>drv_state := STATE_IDLE\<rparr>"

definition xlink_end :: "'w xlink \<Rightarrow> 'w xlink" where
  "xlink_end s = s\<lparr>drv_state := STATE_IDLE\<rparr>"

definition xlink_send :: "('w, 'm) driver_scheme \<Rightarrow> uchar list \<Rightarrow> 'w xlink \<Rightarrow> (bool \<times> 'w xlink) option" where
  "xlink_send d bytes =
     session d id False (\<lambda>s.
       do { s \<leftarrow> (if drv_state s = STATE_INPUT then do { (_, s) \<leftarrow> d_wait d 0 s; Some s } else Some s);
            s \<leftarrow> d_output d s;
            (sent, s) \<leftarrow> d_send d bytes (s\<lparr>drv_state := STATE_OUTPUT\<rparr>);
            closing d sent s })"

definition xlink_receive :: "('w, 'm) driver_scheme \<Rightarrow> nat \<Rightarrow> 'w xlink
    \<Rightarrow> ((bool \<times> uchar list) \<times> 'w xlink) option" where
  "xlink_receive d len =
     session d fst (False, []) (\<lambda>s.
       do { s \<leftarrow> d_input d s;
            s \<leftarrow> (if drv_state s = STATE_OUTPUT
                   then do { s \<leftarrow> d_strobe d s; Some (s\<lparr>drv_state := STATE_INPUT\<rparr>) }
                   else Some s);
            (answer, s) \<leftarrow> d_receive d len s;
            closing d answer s })"

text \<open>The unsigned timeout is stored in the driver's \<open>int\<close>.\<close>

definition int_of_uint :: "uint \<Rightarrow> int" where
  "int_of_uint n = sint n"

definition xlink_send_with_timeout :: "('w, 'm) driver_scheme \<Rightarrow> uchar list \<Rightarrow> uint \<Rightarrow> 'w xlink
    \<Rightarrow> (bool \<times> 'w xlink) option" where
  "xlink_send_with_timeout d bytes timeout s =
     do { (result, s) \<leftarrow> xlink_send d bytes (s\<lparr>drv_timeout := int_of_uint timeout\<rparr>);
          Some (result, s\<lparr>drv_timeout := XLINK_DEFAULT_TIMEOUT\<rparr>) }"

definition xlink_receive_with_timeout :: "('w, 'm) driver_scheme \<Rightarrow> nat \<Rightarrow> uint \<Rightarrow> 'w xlink
    \<Rightarrow> ((bool \<times> uchar list) \<times> 'w xlink) option" where
  "xlink_receive_with_timeout d len timeout s =
     do { (answer, s) \<leftarrow> xlink_receive d len (s\<lparr>drv_timeout := int_of_uint timeout\<rparr>);
          Some (answer, s\<lparr>drv_timeout := XLINK_DEFAULT_TIMEOUT\<rparr>) }"

section \<open>Relocation of the server\<close>

text \<open>
  \<open>server_code\<close> stands for \<open>machine->server\<close>, which the build generates: the program file
  for an address, or \<open>None\<close> for a null pointer. The code does not look for a null pointer:
  reading from it kills the process.
\<close>

type_synonym server_code = "xlink_machine \<Rightarrow> ushort \<Rightarrow> uchar list option"

definition xlink_relocate :: "('w, 'm) driver_scheme \<Rightarrow> server_code \<Rightarrow> ushort \<Rightarrow> 'w xlink
    \<Rightarrow> (bool \<times> 'w xlink) option" where
  "xlink_relocate d server_code address s =
     (case server_code (machine s) address of
        None \<Rightarrow> None
      | Some server \<Rightarrow>
          (let memory = m_memory (machine s) OR 0x80;
               bank = m_bank (machine s)
           in do { (result, s) \<leftarrow> xlink_load d memory bank address (drop 2 server) s;
                   (result, s) \<leftarrow> (if result then xlink_jump d memory bank address s else Some (False, s));
                   Some (result, CLEAR_ERROR_IF result s) }))"

end
