(* ===== verification/Relocation.thy ===== *)
theory Relocation
  imports Cmdline Range_Ops Xlink
begin

text \<open>
  The placing of a RAM based server in client.c: whether the data of a command would hit the
  running server, and where it can go instead. The three search loops of
  \<open>command_server_relocation_possible\<close> are the same loop over three areas.
\<close>

section \<open>Definitions\<close>

definition data_range :: "command \<Rightarrow> range" where
  "data_range self = range_new (cm_start self) (cm_end self)"

definition server_range :: "xlink_server_info \<Rightarrow> range" where
  "server_range server = range_new (uint (si_start server)) (uint (si_end server))"

text \<open>The test and the debug message that goes with it.\<close>

definition command_requires_server_relocation :: "command \<Rightarrow> xlink_server_info \<Rightarrow> 'w xlink \<Rightarrow> bool \<times> 'w xlink" where
  "command_requires_server_relocation self server s =
     (if uint (si_type server) = XLINK_SERVER_TYPE_ROM then (False, s)
      else if range_overlaps (data_range self) (server_range server) then
        (True, s\<lparr>lg := logger_debug
           ''relocation required: data ($%04X-$%04X) overlaps server ($%04X-$%04X)''
           [Aint (cm_start self), Aint (cm_end self), Aint (uint (si_start server)), Aint (uint (si_end server))]
           (lg s)\<rparr>)
      else (False, s))"

text \<open>
  \<open>while(range_inside(code, area))\<close>: \<open>Some None\<close> when the loop ends without a place. With an
  area that starts at 0 the move by -1 can stick and the loop never ends: \<open>None\<close>.
\<close>

partial_function (option) search_area :: "range \<Rightarrow> range \<Rightarrow> range \<Rightarrow> int option option" where
  "search_area area data code =
     (if range_inside code area then
        if range_overlaps code data then search_area area data (range_move code (-1))
        else Some (Some (r_start code))
      else Some None)"

declare search_area.simps [code]

definition place_at_end :: "range \<Rightarrow> ushort \<Rightarrow> range \<Rightarrow> range" where
  "place_at_end area len code = code\<lparr>r_start := r_end area - uint len, r_end := r_end area\<rparr>"

definition lower_area :: "xlink_machine \<Rightarrow> xlink_server_info \<Rightarrow> range" where
  "lower_area m server =
     (let lower = range_new_from_int (m_hiram m)
      in if m_type m = XLINK_MACHINE_C64 then lower\<lparr>r_end := uint (si_memtop server)\<rparr> else lower)"

definition command_server_relocation_possible :: "xlink_machine \<Rightarrow> command \<Rightarrow> xlink_server_info
    \<Rightarrow> ushort option option" where
  "command_server_relocation_possible m self server =
     (let data = data_range self;
          code = server_range server;
          screen = range_new_from_int (m_screenram m);
          upper = range_new_from_int (m_loram m);
          lower = lower_area m server;
          len = si_length server;
          code = place_at_end upper len code
      in do { found \<leftarrow> search_area upper data code;
              case found of
                Some a \<Rightarrow> Some (Some (word_of_int a))
              | None \<Rightarrow>
                  do { found \<leftarrow> search_area lower data (place_at_end lower len code);
                       case found of
                         Some a \<Rightarrow> Some (Some (word_of_int a))
                       | None \<Rightarrow>
                           do { found \<leftarrow> search_area screen data (place_at_end screen len code);
                                Some (map_option word_of_int found) } } })"

section \<open>The search loop\<close>

lemma range_move_down:
  "0 < r_start r \<Longrightarrow> r_min r = 0 \<Longrightarrow> range_move r (-1) = r\<lparr>r_start := r_start r - 1, r_end := r_end r - 1\<rparr>"
  by (simp add: range_move_def Let_def)

definition shifted :: "range \<Rightarrow> int \<Rightarrow> range" where
  "shifted r k = r\<lparr>r_start := r_start r - k, r_end := r_end r - k\<rparr>"

lemma shifted_simps [simp]:
  "r_start (shifted r k) = r_start r - k" "r_end (shifted r k) = r_end r - k" "r_min (shifted r k) = r_min r"
  "shifted r 0 = r" "shifted (shifted r k) j = shifted r (k + j)"
  by (auto simp: shifted_def)

text \<open>
  In an area that does not start at 0 the loop ends: it gives the first of the places from
  the top down that is inside the area and does not overlap the data.
\<close>

lemma search_area_result:
  assumes "0 < r_start area" "r_min code = 0"
  shows "\<exists>res. search_area area data code = Some res \<and>
    (case res of
       None \<Rightarrow> (\<forall>k \<ge> 0. range_inside (shifted code k) area \<longrightarrow> r_end code \<le> r_end area \<longrightarrow> range_overlaps (shifted code k) data)
     | Some a \<Rightarrow> (\<exists>k \<ge> 0. a = r_start code - k \<and> range_inside (shifted code k) area \<and>
         \<not> range_overlaps (shifted code k) data \<and> (\<forall>j. 0 \<le> j \<and> j < k \<longrightarrow> range_overlaps (shifted code j) data)))"
  using assms
proof (induction "nat (r_start code)" arbitrary: code rule: less_induct)
  case less
  show ?case
  proof (cases "range_inside code area")
    case False
    then show ?thesis using less.prems
      by (subst search_area.simps) (auto simp: range_inside_iff)
  next
    case True
    then have pos: "0 < r_start code" using less.prems by (auto simp: range_inside_iff)
    show ?thesis
    proof (cases "range_overlaps code data")
      case False
      with True show ?thesis
        by (subst search_area.simps) (auto intro!: exI [of _ 0])
    next
      case ov: True
      have mv: "range_move code (-1) = shifted code 1"
        using pos less.prems(2) by (simp add: range_move_down shifted_def)
      have step: "search_area area data code = search_area area data (shifted code 1)"
        using True ov by (subst search_area.simps) (simp add: mv)
      have "nat (r_start (shifted code 1)) < nat (r_start code)" "r_min (shifted code 1) = 0"
        using pos less.prems by auto
      from less.hyps [OF this(1) less.prems(1) this(2)] obtain res where
        r: "search_area area data (shifted code 1) = Some res" and
        found: "case res of
           None \<Rightarrow> (\<forall>k \<ge> 0. range_inside (shifted (shifted code 1) k) area \<longrightarrow> r_end (shifted code 1) \<le> r_end area \<longrightarrow> range_overlaps (shifted (shifted code 1) k) data)
         | Some a \<Rightarrow> (\<exists>k \<ge> 0. a = r_start (shifted code 1) - k \<and> range_inside (shifted (shifted code 1) k) area \<and>
             \<not> range_overlaps (shifted (shifted code 1) k) data \<and> (\<forall>j. 0 \<le> j \<and> j < k \<longrightarrow> range_overlaps (shifted (shifted code 1) j) data))"
        by blast
      show ?thesis
      proof (cases res)
        case None
        have "range_overlaps (shifted code k) data" if "0 \<le> k" "range_inside (shifted code k) area" "r_end code \<le> r_end area" for k
        proof (cases "k = 0")
          case False
          have "\<forall>k \<ge> 0. range_inside (shifted code (1 + k)) area \<longrightarrow> r_end code - 1 \<le> r_end area \<longrightarrow>
              range_overlaps (shifted code (1 + k)) data"
            using found None by simp
          from this [rule_format, of "k - 1"] False that show ?thesis by simp
        qed (use ov in simp)
        with None r step show ?thesis by auto
      next
        case (Some a)
        with found obtain k where k: "0 \<le> k" "a = r_start code - (1 + k)" "range_inside (shifted code (1 + k)) area"
          "\<not> range_overlaps (shifted code (1 + k)) data" "\<forall>j. 0 \<le> j \<and> j < k \<longrightarrow> range_overlaps (shifted code (1 + j)) data"
          by auto
        have "range_overlaps (shifted code j) data" if "0 \<le> j" "j < 1 + k" for j
          using that ov k(5) [rule_format, of "j - 1"] by (cases "j = 0") auto
        with k r step Some show ?thesis by (auto intro!: exI [of _ "1 + k"])
      qed
    qed
  qed
qed

lemma range_cong:
  "r_start a = r_start b \<Longrightarrow> r_end a = r_end b \<Longrightarrow>
   range_overlaps a c = range_overlaps b c \<and> range_inside a c = range_inside b c"
  by (simp add: range_overlaps_def range_equals_def range_inside_iff)

text \<open>A place in an area for a server of a given length, as the final range.\<close>

definition fits :: "range \<Rightarrow> range \<Rightarrow> int \<Rightarrow> int \<Rightarrow> bool" where
  "fits area data len a \<longleftrightarrow>
     range_inside (range_new a (a + len)) area \<and> \<not> range_overlaps (range_new a (a + len)) data"

lemma search_end_result:
  assumes "0 < r_start area" "r_min code = 0"
  shows "\<exists>res. search_area area data (place_at_end area len code) = Some res \<and>
    (case res of None \<Rightarrow> \<forall>a. \<not> fits area data (uint len) a
     | Some a \<Rightarrow> fits area data (uint len) a \<and> (\<forall>b > a. \<not> fits area data (uint len) b))"
proof -
  let ?c = "place_at_end area len code"
  have same: "range_overlaps (shifted ?c k) data = range_overlaps (range_new (r_end area - uint len - k) (r_end area - uint len - k + uint len)) data"
    "range_inside (shifted ?c k) area = range_inside (range_new (r_end area - uint len - k) (r_end area - uint len - k + uint len)) area" for k
    using range_cong [of "shifted ?c k" "range_new (r_end area - uint len - k) (r_end area - uint len - k + uint len)"]
    by (auto simp: place_at_end_def)
  have fit: "fits area data (uint len) a \<longleftrightarrow>
      range_inside (shifted ?c (r_end area - uint len - a)) area \<and> \<not> range_overlaps (shifted ?c (r_end area - uint len - a)) data" for a
    unfolding fits_def same by simp
  have le: "fits area data (uint len) a \<Longrightarrow> 0 \<le> r_end area - uint len - a" for a
    by (simp add: fits_def range_inside_iff)
  have m: "r_min ?c = 0" "r_end ?c = r_end area" "r_start ?c = r_end area - uint len"
    using assms by (simp_all add: place_at_end_def)
  obtain res where r: "search_area area data ?c = Some res" and
    found: "case res of
       None \<Rightarrow> (\<forall>k \<ge> 0. range_inside (shifted ?c k) area \<longrightarrow> r_end ?c \<le> r_end area \<longrightarrow> range_overlaps (shifted ?c k) data)
     | Some a \<Rightarrow> (\<exists>k \<ge> 0. a = r_start ?c - k \<and> range_inside (shifted ?c k) area \<and>
         \<not> range_overlaps (shifted ?c k) data \<and> (\<forall>j. 0 \<le> j \<and> j < k \<longrightarrow> range_overlaps (shifted ?c j) data))"
    using search_area_result [OF assms(1) m(1), of data] by blast
  show ?thesis
  proof (cases res)
    case None
    with found m(2) have none: "\<forall>k \<ge> 0. range_inside (shifted ?c k) area \<longrightarrow> range_overlaps (shifted ?c k) data"
      by simp
    have "\<not> fits area data (uint len) a" for a
      using none [rule_format, of "r_end area - uint len - a"] le [of a] fit [of a] by blast
    with None r show ?thesis by simp
  next
    case (Some a)
    with found m obtain k where k: "0 \<le> k" "a = r_end area - uint len - k" "range_inside (shifted ?c k) area"
      "\<not> range_overlaps (shifted ?c k) data" "\<forall>j. 0 \<le> j \<and> j < k \<longrightarrow> range_overlaps (shifted ?c j) data"
      by auto
    have "fits area data (uint len) a" unfolding fit using k(2-4) by simp
    moreover have "\<not> fits area data (uint len) b" if "b > a" for b
      using k(5) [rule_format, of "r_end area - uint len - b"] le [of b] fit [of b] that k(2) by auto
    ultimately show ?thesis using Some r by simp
  qed
qed

lemma areas [simp]:
  "range_new_from_int (m_loram c64) = range_new 0x0801 0x0a00"
  "range_new_from_int (m_hiram c64) = range_new 0xc000 0xd000"
  "range_new_from_int (m_screenram c64) = range_new 0x0400 0x07e7"
  "range_new_from_int (m_loram c128) = range_new 0x1300 0x1c01"
  "range_new_from_int (m_hiram c128) = range_new 0x1c01 0x4000"
  "range_new_from_int (m_screenram c128) = range_new 0x0400 0x07e7"
  by code_simp+

text \<open>The three areas in the order of the search.\<close>

definition search_areas :: "xlink_machine \<Rightarrow> xlink_server_info \<Rightarrow> range list" where
  "search_areas m server =
     [range_new_from_int (m_loram m), lower_area m server, range_new_from_int (m_screenram m)]"

lemma fits_word:
  assumes "fits area data (uint (len :: ushort)) a" "0 < r_start area" "r_end area < 65536"
  shows "uint (word_of_int a :: ushort) = a"
proof -
  have "0 \<le> uint len" by simp
  moreover have "r_start area \<le> a" "a + uint len \<le> r_end area"
    using assms(1) by (auto simp: fits_def range_inside_iff)
  ultimately have "0 \<le> a" "a < 65536" using assms(2,3) by linarith+
  then show ?thesis by (simp add: uint_word_of_int)
qed

lemma relocation_search_result:
  assumes "m = c64 \<or> m = c128"
  shows "\<exists>res. command_server_relocation_possible m self server = Some res \<and>
    (case res of
       Some a \<Rightarrow> list_ex (\<lambda>area. fits area (data_range self) (uint (si_length server)) (uint a)) (search_areas m server)
     | None \<Rightarrow> list_all (\<lambda>area. \<forall>a. \<not> fits area (data_range self) (uint (si_length server)) a) (search_areas m server))"
proof -
  let ?len = "si_length server" and ?data = "data_range self" and ?code = "server_range server"
  let ?a1 = "range_new_from_int (m_loram m)" and ?a2 = "lower_area m server" and ?a3 = "range_new_from_int (m_screenram m)"
  have pos: "0 < r_start ?a1" "0 < r_start ?a2" "0 < r_start ?a3"
    using assms by (auto simp: lower_area_def machine_consts)
  have top: "r_end ?a1 < 65536" "r_end ?a2 < 65536" "r_end ?a3 < 65536"
    using assms unsigned_less [of "si_memtop server"] by (auto simp: lower_area_def machine_consts)
  have min: "r_min ?code = 0" "r_min (place_at_end x ?len ?code) = 0" for x
    by (simp_all add: server_range_def place_at_end_def)
  have same: "place_at_end y ?len (place_at_end x ?len ?code) = place_at_end y ?len ?code" for x y
    by (simp add: place_at_end_def)
  obtain r1 r2 r3 where r: "search_area ?a1 ?data (place_at_end ?a1 ?len ?code) = Some r1"
      "search_area ?a2 ?data (place_at_end ?a2 ?len ?code) = Some r2"
      "search_area ?a3 ?data (place_at_end ?a3 ?len ?code) = Some r3"
    and f: "case r1 of None \<Rightarrow> \<forall>a. \<not> fits ?a1 ?data (uint ?len) a | Some a \<Rightarrow> fits ?a1 ?data (uint ?len) a \<and> (\<forall>b > a. \<not> fits ?a1 ?data (uint ?len) b)"
      "case r2 of None \<Rightarrow> \<forall>a. \<not> fits ?a2 ?data (uint ?len) a | Some a \<Rightarrow> fits ?a2 ?data (uint ?len) a \<and> (\<forall>b > a. \<not> fits ?a2 ?data (uint ?len) b)"
      "case r3 of None \<Rightarrow> \<forall>a. \<not> fits ?a3 ?data (uint ?len) a | Some a \<Rightarrow> fits ?a3 ?data (uint ?len) a \<and> (\<forall>b > a. \<not> fits ?a3 ?data (uint ?len) b)"
    using search_end_result [OF pos(1) min(1)] search_end_result [OF pos(2) min(1)]
      search_end_result [OF pos(3) min(1)] by blast
  have run: "command_server_relocation_possible m self server =
      Some (case r1 of Some a \<Rightarrow> Some (word_of_int a)
        | None \<Rightarrow> (case r2 of Some a \<Rightarrow> Some (word_of_int a) | None \<Rightarrow> map_option word_of_int r3))"
    by (simp add: command_server_relocation_possible_def Let_def same r split: option.split)
  show ?thesis
    unfolding run search_areas_def
    using f fits_word [OF _ pos(1) top(1)] fits_word [OF _ pos(2) top(2)] fits_word [OF _ pos(3) top(3)]
    by (cases r1; cases r2; cases r3) auto
qed

text \<open>Whether data and server share an address.\<close>

lemma spared_by_test:
  "\<not> fst (command_requires_server_relocation self server s) \<Longrightarrow>
     uint (si_type server) = XLINK_SERVER_TYPE_ROM \<or>
     range_cells (data_range self) \<inter> range_cells (server_range server) = {}"
  using not_overlaps_disjoint by (auto simp: command_requires_server_relocation_def split: if_splits)

lemma spared_by_place:
  assumes "m = c64 \<or> m = c128" "command_server_relocation_possible m self server = Some (Some a)"
  shows "range_cells (data_range self) \<inter> range_cells (range_new (uint a) (uint a + uint (si_length server))) = {}"
  using relocation_search_result [OF assms(1), of self server] assms(2) not_overlaps_disjoint
  by (fastforce simp: search_areas_def fits_def)

section \<open>Properties\<close>

text \<open>C3. The search for a place always ends on both machines. A place it gives lies in one of the
  three areas and touches none of the data to be loaded, so the server survives the load; it
  reports failure only when no place in any of the areas would do.\<close>

theorem relocation_search_correct:
  assumes "m = c64 \<or> m = c128"
  shows "\<exists>res. command_server_relocation_possible m self server = Some res \<and>
    (case res of
       Some a \<Rightarrow> list_ex (\<lambda>area. fits area (data_range self) (uint (si_length server)) (uint a)) (search_areas m server)
     | None \<Rightarrow> list_all (\<lambda>area. \<forall>a. \<not> fits area (data_range self) (uint (si_length server)) a) (search_areas m server))"
  using assms by (rule relocation_search_result)

text \<open>A load of \<open>$0801-$0900\<close> under a server of 512 bytes.\<close>

definition sample_command :: command where
  "sample_command = (fst (command_new [] [''load'', ''a.prg'']))\<lparr>cm_start := 0x0801, cm_end := 0x0900\<rparr>"

definition sample_server :: xlink_server_info where
  "sample_server = blank_server\<lparr>si_start := 0x0801, si_end := 0x0901, si_length := 0x0100, si_memtop := 0xa000\<rparr>"

theorem relocation_search_correct_witness:
  "\<exists>a. command_server_relocation_possible c64 sample_command sample_server = Some (Some a) \<and>
     list_ex (\<lambda>area. fits area (data_range sample_command) 0x0100 (uint a)) (search_areas c64 sample_server)"
proof -
  have "si_length sample_server = 0x0100" by code_simp
  moreover have "\<exists>a. command_server_relocation_possible c64 sample_command sample_server = Some (Some a)"
    by (rule exI [of _ "0x06e7"]) code_simp
  ultimately show ?thesis
    using relocation_search_correct [of c64 sample_command sample_server] by auto
qed

text \<open>C38. On a C64 whose memory top is not above $C000 the area behind it, $C000 to $D000, is never
  used: a place is always in $0801-$0A00 or in the screen memory.\<close>

theorem c64_relocation_areas:
  assumes "command_server_relocation_possible c64 self server = Some (Some a)"
    and "uint (si_memtop server) \<le> 0xc000" "0 < si_length server"
  shows "range_inside (range_new (uint a) (uint a + uint (si_length server))) (range_new 0x0801 0x0a00) \<or>
    range_inside (range_new (uint a) (uint a + uint (si_length server))) (range_new 0x0400 0x07e7)"
proof -
  have "0 < uint (si_length server)" using assms(3) by (simp add: word_less_alt)
  then have "\<not> fits (lower_area c64 server) (data_range self) (uint (si_length server)) (uint a)"
    using assms(2) by (auto simp: fits_def range_inside_iff lower_area_def machine_consts)
  with relocation_search_result [of c64 self server] assms(1) show ?thesis
    by (auto simp: search_areas_def fits_def)
qed

theorem c64_relocation_areas_witness:
  "\<exists>a. command_server_relocation_possible c64 sample_command sample_server = Some (Some a) \<and>
     (range_inside (range_new (uint a) (uint a + 0x0100)) (range_new 0x0801 0x0a00) \<or>
      range_inside (range_new (uint a) (uint a + 0x0100)) (range_new 0x0400 0x07e7))"
proof -
  have run: "command_server_relocation_possible c64 sample_command sample_server = Some (Some 0x06e7)" by code_simp
  have "si_length sample_server = 0x0100" "uint (si_memtop sample_server) \<le> 0xc000" "0 < si_length sample_server"
    by code_simp+
  with c64_relocation_areas [OF run] run show ?thesis by auto
qed

end
