(* ===== verification/Xlink_Laws.thy ===== *)
theory Xlink_Laws
  imports Xlink
begin

text \<open>
  The contract between xlink.c and the driver vtable, as two locales: \<open>driver_laws\<close> about
  results and error codes, \<open>wire_driver\<close> about the bytes on the wire. The library's vtable is
  shown to keep both, and the properties of the library's requests are proved from them.
\<close>

section \<open>Results and error codes\<close>

locale driver_laws =
  fixes d :: "('w, 'm) driver_scheme"
  assumes open_law: "d_open d s = Some (r, s') \<Longrightarrow> frame s' = frame s \<and> (err_code s' = XLINK_SUCCESS \<longleftrightarrow> r)"
    and ready_law: "d_ready d s = Some (r, s') \<Longrightarrow> frame s' = frame s \<and> (err_code s' = XLINK_SUCCESS \<longleftrightarrow> r)"
    and close_law: "d_close d s = Some s' \<Longrightarrow> core s' = core s"
    and input_law: "d_input d s = Some s' \<Longrightarrow> core s' = core s"
    and output_law: "d_output d s = Some s' \<Longrightarrow> core s' = core s"
    and strobe_law: "d_strobe d s = Some s' \<Longrightarrow> core s' = core s"
    and wait_law: "d_wait d t s = Some (r, s') \<Longrightarrow> core s' = core s"
    and ping_law: "d_ping d s = Some (r, s') \<Longrightarrow> core s' = core s"
    and reset_law: "d_reset d s = Some s' \<Longrightarrow> core s' = core s"
    and boot_law: "d_boot d s = Some s' \<Longrightarrow> core s' = core s"
    and send_law: "d_send d bytes s = Some (r, s') \<Longrightarrow>
      frame s' = frame s \<and> (bytes \<noteq> [] \<longrightarrow> \<not> r \<longrightarrow> err_code s' \<noteq> XLINK_SUCCESS)"
    and receive_law: "d_receive d n s = Some ((r, got), s') \<Longrightarrow>
      frame s' = frame s \<and> (n \<noteq> 0 \<longrightarrow> \<not> r \<longrightarrow> err_code s' \<noteq> XLINK_SUCCESS)"
begin

text \<open>A step of a request: it keeps the frame, and when it fails the error code tells.\<close>

definition honest :: "('r \<Rightarrow> bool) \<Rightarrow> ('w xlink \<Rightarrow> ('r \<times> 'w xlink) option) \<Rightarrow> bool" where
  "honest ok f \<longleftrightarrow> (\<forall>s r s'. f s = Some (r, s') \<longrightarrow>
     frame s' = frame s \<and> (\<not> ok r \<longrightarrow> err_code s' \<noteq> XLINK_SUCCESS))"

lemma honestI:
  "(\<And>s r s'. f s = Some (r, s') \<Longrightarrow> frame s' = frame s \<and> (\<not> ok r \<longrightarrow> err_code s' \<noteq> XLINK_SUCCESS))
   \<Longrightarrow> honest ok f"
  by (simp add: honest_def)

lemma closing_law:
  assumes "closing d r s = Some (r', s')"
  shows "r' = r \<and> core s' = core s"
  using assms close_law by (auto simp: closing_def bind_iff)

lemma honest_closing: "ok r \<Longrightarrow> honest ok (closing d r)"
  by (auto intro!: honestI dest!: closing_law core_frame)

lemma turn_law: "turn d s = Some s' \<Longrightarrow> core s' = core s"
  using input_law strobe_law by (auto simp: turn_def bind_iff)

lemma honest_request:
  assumes "bytes \<noteq> []" "honest ok rest"
  shows "honest ok (request d bad bytes rest)"
proof (rule honestI)
  fix s r s'
  assume run: "request d bad bytes rest s = Some (r, s')"
  then obtain pong s1 where p: "d_ping d s = Some (pong, s1)"
    by (cases "d_ping d s") (auto simp: request_def)
  have c1: "core s1 = core s" using ping_law [OF p] .
  show "frame s' = frame s \<and> (\<not> ok r \<longrightarrow> err_code s' \<noteq> XLINK_SUCCESS)"
  proof (cases pong)
    case False
    with run p have "closing d bad (SET_ERROR XLINK_ERROR_SERVER ''no response from server'' [] s1) = Some (r, s')"
      by (simp add: request_def)
    from closing_law [OF this] have "core s' = core (SET_ERROR XLINK_ERROR_SERVER ''no response from server'' [] s1)" by simp
    from core_frame [OF this] core_err [OF this] core_frame [OF c1]
      seat_frame [OF SET_ERROR_keeps(1) [of XLINK_ERROR_SERVER "''no response from server''" "[]" s1]]
    show ?thesis by (simp add: error_codes)
  next
    case True
    with run p obtain s2 sent s3 where o: "d_output d s1 = Some s2" "d_send d bytes s2 = Some (sent, s3)"
      and rest: "(if sent then rest s3 else closing d bad s3) = Some (r, s')"
      by (auto simp: request_def bind_iff split: if_splits)
    have f: "frame s3 = frame s"
      using core_frame [OF output_law [OF o(1)]] send_law [OF o(2)] core_frame [OF c1] by simp
    show ?thesis
    proof (cases sent)
      case True
      with rest assms(2) f show ?thesis by (auto simp: honest_def)
    next
      case False
      with rest closing_law [of bad s3 r s'] send_law [OF o(2)] assms(1) f
      show ?thesis using core_frame [of s' s3] core_err [of s' s3] by simp
    qed
  qed
qed

text \<open>An honest body between open and \<open>CLEAR_ERROR_IF\<close>: result and error code agree.\<close>

lemma session_result:
  assumes run: "session d ok initial body s = Some (r, s')" and "\<not> ok initial" "honest ok body"
  shows "frame s' = frame s \<and> (err_code s' = XLINK_SUCCESS \<longleftrightarrow> ok r)"
proof -
  obtain opened s1 where o: "d_open d s = Some (opened, s1)"
    using run by (cases "d_open d s") (auto simp: session_def)
  show ?thesis
  proof (cases opened)
    case True
    with run o obtain s2 where "body s1 = Some (r, s2)" and s': "s' = CLEAR_ERROR_IF (ok r) s2"
      by (auto simp: session_def bind_iff)
    with assms(3) have "frame s2 = frame s1 \<and> (\<not> ok r \<longrightarrow> err_code s2 \<noteq> XLINK_SUCCESS)"
      by (simp add: honest_def)
    with s' open_law [OF o] seat_frame [OF CLEAR_ERROR_keeps(1) [of "ok r" s2]] show ?thesis by auto
  next
    case False
    with run o open_law [OF o] assms(2) seat_frame [OF CLEAR_ERROR_keeps(1) [of False s1]]
    show ?thesis by (auto simp: session_def)
  qed
qed

lemma request_result:
  assumes "session d ok bad (request d bad bytes rest) s = Some (r, s')"
    and "bytes \<noteq> []" "\<not> ok bad" "honest ok rest"
  shows "frame s' = frame s \<and> (err_code s' = XLINK_SUCCESS \<longleftrightarrow> ok r)"
  using session_result [OF assms(1,3) honest_request [OF assms(2,4)]] .

lemma honest_send: "bytes \<noteq> [] \<Longrightarrow> honest id (\<lambda>s. do { (sent, s) \<leftarrow> d_send d bytes s; closing d sent s })"
proof (rule honestI)
  fix s r s'
  assume "bytes \<noteq> []" and "do { (sent, s) \<leftarrow> d_send d bytes s; closing d sent s } = Some (r, s')"
  then obtain q t where "d_send d bytes s = Some (q, t)" "closing d q t = Some (r, s')"
    by (auto simp: bind_pair_iff)
  with send_law [of bytes s q t] closing_law [of q t r s'] \<open>bytes \<noteq> []\<close>
  show "frame s' = frame s \<and> (\<not> id r \<longrightarrow> err_code s' \<noteq> XLINK_SUCCESS)"
    using core_frame [of s' t] core_err [of s' t] by simp
qed

lemma honest_answer:
  "n \<noteq> 0 \<Longrightarrow> honest fst (\<lambda>s. do { s \<leftarrow> turn d s; (answer, s) \<leftarrow> d_receive d n s; closing d answer s })"
proof (rule honestI)
  fix s r s'
  assume "n \<noteq> 0"
    and "do { s \<leftarrow> turn d s; (answer, s) \<leftarrow> d_receive d n s; closing d answer s } = Some (r, s')"
  then obtain t q got u where "turn d s = Some t" "d_receive d n t = Some ((q, got), u)"
      "closing d (q, got) u = Some (r, s')"
    by (auto simp: bind_iff)
  with turn_law [of s t] receive_law [of n t q got u] closing_law [of "(q, got)" u r s'] \<open>n \<noteq> 0\<close>
  show "frame s' = frame s \<and> (\<not> fst r \<longrightarrow> err_code s' \<noteq> XLINK_SUCCESS)"
    using core_frame [of s' u] core_err [of s' u] core_frame [of t s] by auto
qed

lemma load_result:
  "xlink_load d m b a bytes s = Some (r, s') \<Longrightarrow> bytes \<noteq> [] \<Longrightarrow>
   frame s' = frame s \<and> (err_code s' = XLINK_SUCCESS \<longleftrightarrow> r)"
  using request_result [OF _ _ _ honest_send, of False _ bytes s r s']
  by (simp add: xlink_load_def range_command_def Let_def)

lemma save_result:
  "xlink_save d m b a n s = Some ((r, got), s') \<Longrightarrow> n \<noteq> 0 \<Longrightarrow>
   frame s' = frame s \<and> (err_code s' = XLINK_SUCCESS \<longleftrightarrow> r)"
  using request_result [OF _ _ _ honest_answer, of "(False, [])" _ n s "(r, got)" s']
  by (simp add: xlink_save_def range_command_def Let_def)

lemma peek_result:
  "xlink_peek d m b a s = Some ((r, got), s') \<Longrightarrow>
   frame s' = frame s \<and> (err_code s' = XLINK_SUCCESS \<longleftrightarrow> r)"
  using request_result [OF _ _ _ honest_answer, of "(False, [])" _ 1 s "(r, got)" s']
  by (simp add: xlink_peek_def)

lemma poke_result:
  "xlink_poke d m b a v s = Some (r, s') \<Longrightarrow> frame s' = frame s \<and> (err_code s' = XLINK_SUCCESS \<longleftrightarrow> r)"
  using request_result [OF _ _ _ honest_closing, of id False _ True s r s']
  by (simp add: xlink_poke_def)

lemma jump_result:
  "xlink_jump d m b a s = Some (r, s') \<Longrightarrow> frame s' = frame s \<and> (err_code s' = XLINK_SUCCESS \<longleftrightarrow> r)"
  using request_result [OF _ _ _ honest_closing, of id False _ True s r s']
  by (simp add: xlink_jump_def)

lemma run_result:
  "xlink_run d s = Some (r, s') \<Longrightarrow> frame s' = frame s \<and> (err_code s' = XLINK_SUCCESS \<longleftrightarrow> r)"
  using request_result [OF _ _ _ honest_closing, of id False _ True s r s']
  by (simp add: xlink_run_def)

end

interpretation lib: driver_laws "libxlink_driver sy" for sy
  by unfold_locales
    (auto simp: libxlink_driver_def dest: driver_open_result driver_ready_result driver_close_core
      driver_core driver_ping_core driver_send_result driver_receive_result seat_frame)

section \<open>Consistency of results and error codes\<close>

text \<open>C6. Six requests of the library, whatever the back end, report the truth about themselves when they
  return: for a load or a save of at least one byte, a peek, a poke, a jump and a run, the error
  code is success exactly when the result is true; and the machine, the timeout and the
  transfer state are untouched. (Others do not: a ping without answer, \<open>ping_failure_is_silent\<close>
  below, and a load or save of no bytes fail with the error code of success.)\<close>

theorem request_results_agree:
  assumes "xlink_load (libxlink_driver sy) m b a bytes s = Some (r, s') \<and> bytes \<noteq> [] \<or>
    (\<exists>n got. xlink_save (libxlink_driver sy) m b a n s = Some ((r, got), s') \<and> n \<noteq> 0) \<or>
    (\<exists>got. xlink_peek (libxlink_driver sy) m b a s = Some ((r, got), s')) \<or>
    xlink_poke (libxlink_driver sy) m b a v s = Some (r, s') \<or> xlink_jump (libxlink_driver sy) m b a s = Some (r, s') \<or>
    xlink_run (libxlink_driver sy) s = Some (r, s')"
  shows "(err_code s' = XLINK_SUCCESS \<longleftrightarrow> r) \<and> frame s' = frame s"
  using assms
  by (auto dest: lib.load_result lib.save_result lib.peek_result lib.poke_result lib.jump_result
      lib.run_result)

theorem request_results_agree_witness:
  "\<exists>r s'. xlink_poke (libxlink_driver sample_sys) 0x37 0 0xd020 1 (sample_state BParport [0, 0x80, 0, 0, 0, 0, 0, 0]) = Some (r, s') \<and>
     (err_code s' = XLINK_SUCCESS \<longleftrightarrow> r)"
proof -
  let ?run = "xlink_poke (libxlink_driver sample_sys) 0x37 0 0xd020 1 (sample_state BParport [0, 0x80, 0, 0, 0, 0, 0, 0])"
  have "map_option fst ?run \<noteq> None" by code_simp
  then obtain r s' where run: "?run = Some (r, s')" by auto
  from request_results_agree [OF disjI2 [OF disjI2 [OF disjI2 [OF disjI1 [OF run]]]]] run
  show ?thesis by blast
qed

text \<open>A ping that no server answers is reported as false with the error code of success: the
  opening of the driver cleared it and nothing sets it again.\<close>

theorem ping_failure_is_silent:
  assumes "xlink_ping (libxlink_driver sy) s = Some (False, s')"
    and "driver_open sy s = Some (True, t)"
  shows "err_code s' = XLINK_SUCCESS"
proof -
  have d: "d_open (libxlink_driver sy) = driver_open sy" "d_ping (libxlink_driver sy) = driver_ping sy"
    by (simp_all add: libxlink_driver_def)
  obtain q u where u1: "driver_ping sy t = Some (q, u)"
    using assms by (cases "driver_ping sy t") (auto simp: xlink_ping_def session_def d)
  then obtain v where u: "driver_ping sy t = Some (q, u)" "closing (libxlink_driver sy) q u = Some (False, v)"
    "s' = CLEAR_ERROR_IF False v"
    using assms by (auto simp: xlink_ping_def session_def bind_pair_iff d)
  have "err_code t = XLINK_SUCCESS" using driver_open_result [OF assms(2)] by simp
  with core_err [OF driver_ping_core [OF u(1)]] core_err [of v u] lib.closing_law [OF u(2)] u(3)
  show ?thesis by simp
qed

theorem ping_failure_is_silent_witness:
  "\<exists>s'. xlink_ping (libxlink_driver sample_sys) (sample_state BUsb []) = Some (False, s') \<and>
     err_code s' = XLINK_SUCCESS"
proof -
  have "map_option fst (xlink_ping (libxlink_driver sample_sys) (sample_state BUsb [])) = Some False"
    "map_option fst (driver_open sample_sys (sample_state BUsb [])) = Some True"
    by code_simp+
  then obtain s' t where "xlink_ping (libxlink_driver sample_sys) (sample_state BUsb []) = Some (False, s')"
    "driver_open sample_sys (sample_state BUsb []) = Some (True, t)" by auto
  with ping_failure_is_silent show ?thesis by blast
qed

section \<open>Encodings\<close>

text \<open>The command of load and save names the range: its bytes decode to the start address and to
  an end that lies the number of bytes behind it modulo 64K.\<close>

theorem range_command_roundtrip:
  "\<exists>b3 b4 b5 b6. range_command cmd m b a n = [cmd, m, b, b3, b4, b5, b6] \<and>
     word16_le b3 b4 = a \<and> unat (word16_le b5 b6 - word16_le b3 b4) = n mod 2 ^ 16"
  by (simp add: range_command_def Let_def byte_simps unat_of_nat take_bit_eq_mod)

definition identify_bytes :: "xlink_server_info \<Rightarrow> uchar list" where
  "identify_bytes si =
     [si_version si, si_machine si, si_type si, lo (ucast (si_start si)), hi (ucast (si_start si)),
      lo (ucast (si_end si)), hi (ucast (si_end si)), lo (ucast (si_memtop si)), hi (ucast (si_memtop si))]"

text \<open>Reading the nine bytes of an identification loses nothing: written out again in the
  server's layout the fields are the bytes; and the length is the distance from start to end.\<close>

theorem identify_fields_roundtrip:
  assumes "length bytes = 9"
  shows "identify_bytes (identify_fields bytes si) = bytes \<and>
    si_start (identify_fields bytes si) + si_length (identify_fields bytes si) = si_end (identify_fields bytes si)"
proof -
  from assms obtain b0 b1 b2 b3 b4 b5 b6 b7 b8 where "bytes = [b0, b1, b2, b3, b4, b5, b6, b7, b8]"
    by (auto simp: numeral_eq_Suc length_Suc_conv)
  then show ?thesis by (simp add: identify_bytes_def identify_fields_def Let_def byte_simps)
qed

theorem identify_fields_roundtrip_witness:
  "identify_bytes (identify_fields [0x10, 0, 0, 0x01, 0x08, 0x00, 0x0a, 0x00, 0xa0] blank_server) =
   [0x10, 0, 0, 0x01, 0x08, 0x00, 0x0a, 0x00, 0xa0]"
  using identify_fields_roundtrip [of "[0x10, 0, 0, 0x01, 0x08, 0x00, 0x0a, 0x00, 0xa0]" blank_server] by simp

section \<open>The bytes of a request\<close>

text \<open>
  The contract of a driver that puts its bytes on a wire: \<open>port\<close> says that its back end is
  installed, \<open>outp\<close> that it also drives the lines, and \<open>wire\<close> reads what is on them off the trace, where a byte b
  that is sent shows as \<open>put b\<close>.
\<close>

locale wire_driver =
  fixes d :: "('w, 'm) driver_scheme"
    and put :: "uchar \<Rightarrow> 'b"
    and port :: "'w xlink \<Rightarrow> bool"
    and outp :: "'w xlink \<Rightarrow> bool"
    and wire :: "os_event list \<Rightarrow> 'b list"
  assumes open_wire: "d_open d s = Some (r, s') \<Longrightarrow> port s \<Longrightarrow> port s' \<and> wire (trace s') = wire (trace s)"
    and close_wire: "d_close d s = Some s' \<Longrightarrow> port s \<Longrightarrow> port s' \<and> wire (trace s') = wire (trace s)"
    and output_wire: "d_output d s = Some s' \<Longrightarrow> port s \<Longrightarrow> outp s' \<and> wire (trace s') = wire (trace s)"
    and ping_wire: "d_ping d s = Some (r, s') \<Longrightarrow> port s \<Longrightarrow> port s' \<and> wire (trace s') = wire (trace s) @ [put 0xfd]"
    and send_wire: "d_send d bytes s = Some (r, s') \<Longrightarrow> outp s \<Longrightarrow>
      outp s' \<and> (r \<longrightarrow> wire (trace s') = wire (trace s) @ map put bytes)"
    and port_clear: "port (CLEAR_ERROR_IF q s) = port s"
    and outp_port: "outp s \<Longrightarrow> port s"
begin

lemma trace_CLEAR: "trace (CLEAR_ERROR_IF q s) = trace s"
  by (simp add: CLEAR_ERROR_IF_def)

lemma closing_says:
  "closing d r s = Some (r', s') \<Longrightarrow> port s \<Longrightarrow> r' = r \<and> port s' \<and> wire (trace s') = wire (trace s)"
  by (auto simp: closing_def bind_iff dest: close_wire)

lemma request_says:
  assumes "request d bad bytes rest s = Some (r, s')" "port s" "r \<noteq> bad"
    and rest: "\<And>t. rest t = Some (r, s') \<Longrightarrow> outp t \<Longrightarrow> port s' \<and> (\<exists>xs. A xs \<and> wire (trace s') = wire (trace t) @ xs)"
  shows "port s' \<and> (\<exists>xs. A xs \<and> wire (trace s') = wire (trace s) @ map put (0xfd # bytes) @ xs)"
proof -
  obtain p s1 where p: "d_ping d s = Some (p, s1)"
    using assms(1) by (cases "d_ping d s") (auto simp: request_def)
  have "p" using assms(1,3) p by (cases p) (auto simp: request_def closing_def bind_iff)
  with assms(1) p obtain s2 q s3 where o: "d_output d s1 = Some s2" "d_send d bytes s2 = Some (q, s3)"
    and r: "(if q then rest s3 else closing d bad s3) = Some (r, s')"
    by (auto simp: request_def bind_iff split: if_splits)
  have q: "q" using r assms(3) by (auto simp: closing_def bind_iff split: if_splits)
  have 1: "port s1" "wire (trace s1) = wire (trace s) @ [put 0xfd]" using ping_wire [OF p assms(2)] by auto
  have 2: "outp s2" "wire (trace s2) = wire (trace s1)" using output_wire [OF o(1) 1(1)] by auto
  have 3: "outp s3" "wire (trace s3) = wire (trace s2) @ map put bytes" using send_wire [OF o(2) 2(1)] q by auto
  from r q have "rest s3 = Some (r, s')" by simp
  from rest [OF this 3(1)] 1 2 3 show ?thesis by simp
qed

lemma session_says:
  assumes "session d ok initial body s = Some (r, s')" "port s" "r \<noteq> initial"
    and body: "\<And>t t'. body t = Some (r, t') \<Longrightarrow> port t \<Longrightarrow> port t' \<and> (\<exists>xs. A xs \<and> wire (trace t') = wire (trace t) @ pre @ xs)"
  shows "port s' \<and> (\<exists>xs. A xs \<and> wire (trace s') = wire (trace s) @ pre @ xs)"
proof -
  obtain q s1 where o: "d_open d s = Some (q, s1)"
    using assms(1) by (cases "d_open d s") (auto simp: session_def)
  have "q" using assms(1,3) o by (cases q) (auto simp: session_def)
  with assms(1) o obtain s2 where b: "body s1 = Some (r, s2)" "s' = CLEAR_ERROR_IF (ok r) s2"
    by (auto simp: session_def bind_iff)
  from open_wire [OF o assms(2)] body [OF b(1)] b(2) show ?thesis
    by (simp add: port_clear trace_CLEAR)
qed

lemma exchange_says:
  assumes "session d ok bad (request d bad bytes rest) s = Some (r, s')" "port s" "r \<noteq> bad"
    and rest: "\<And>t t'. rest t = Some (r, t') \<Longrightarrow> outp t \<Longrightarrow> port t' \<and> (\<exists>xs. A xs \<and> wire (trace t') = wire (trace t) @ xs)"
  shows "port s' \<and> (\<exists>xs. A xs \<and> wire (trace s') = wire (trace s) @ map put (0xfd # bytes) @ xs)"
  using assms(1-3) by (rule session_says) (rule request_says [OF _ _ assms(3) rest])

lemma command_says:
  assumes "session d id False (request d False bytes (closing d True)) s = Some (True, s')" "port s"
  shows "port s' \<and> wire (trace s') = wire (trace s) @ map put (0xfd # bytes)"
  using exchange_says [OF assms, of "\<lambda>xs. xs = []"] by (auto dest: closing_says outp_port)

lemma load_says:
  assumes "xlink_load d m b a bytes s = Some (True, s')" "port s"
  shows "port s' \<and> wire (trace s') =
    wire (trace s) @ map put (0xfd # range_command XLINK_COMMAND_LOAD m b a (length bytes) @ bytes)"
proof -
  have "port t' \<and> (\<exists>xs. xs = map put bytes \<and> wire (trace t') = wire (trace t) @ xs)"
    if "do { (sent, s) \<leftarrow> d_send d bytes t; closing d sent s } = Some (True, t')" "outp t" for t t'
  proof -
    from that obtain q u where "d_send d bytes t = Some (q, u)" "closing d q u = Some (True, t')"
      by (auto simp: bind_pair_iff)
    with send_wire [of bytes t q u] closing_says [of q u True t'] outp_port [of u] \<open>outp t\<close>
    show ?thesis by auto
  qed
  from exchange_says [OF assms [unfolded xlink_load_def] _ this] show ?thesis by simp
qed

lemma inject_says:
  assumes "xlink_inject d a code s = Some (True, s')" "port s"
  shows "wire (trace s') = wire (trace s) @ map put
    ((0xfd # range_command XLINK_COMMAND_LOAD (m_memory (machine s)) (m_bank (machine s)) a (length code) @ code) @
     [0xfd, XLINK_COMMAND_INJECT, hi (ucast (a - 1)), lo (ucast (a - 1))])"
proof -
  from assms(1) obtain t where l: "xlink_load d (m_memory (machine s)) (m_bank (machine s)) a code s = Some (True, t)"
    and j: "session d id False (request d False [XLINK_COMMAND_INJECT, hi (ucast (a - 1)), lo (ucast (a - 1))]
          (closing d True)) t = Some (True, s')"
    by (auto simp: xlink_inject_def bind_iff Let_def split: if_splits)
  from load_says [OF l assms(2)] command_says [OF j] show ?thesis by simp
qed

lemma relocate_says:
  assumes "xlink_relocate d server a s = Some (True, s')" "port s" "server (machine s) a = Some code"
  shows "wire (trace s') = wire (trace s) @ map put
    ((0xfd # range_command XLINK_COMMAND_LOAD (m_memory (machine s) OR 0x80) (m_bank (machine s)) a (length code - 2) @ drop 2 code) @
     [0xfd, XLINK_COMMAND_JUMP, m_memory (machine s) OR 0x80, m_bank (machine s), hi (ucast a), lo (ucast a)])"
proof -
  from assms(1,3) obtain t u where l: "xlink_load d (m_memory (machine s) OR 0x80) (m_bank (machine s)) a (drop 2 code) s = Some (True, t)"
    and j: "xlink_jump d (m_memory (machine s) OR 0x80) (m_bank (machine s)) a t = Some (True, u)"
    and s': "s' = CLEAR_ERROR_IF True u"
    by (auto simp: xlink_relocate_def bind_iff Let_def split: if_splits)
  from load_says [OF l assms(2)] command_says [OF j [unfolded xlink_jump_def]] s' show ?thesis
    by (simp add: trace_CLEAR)
qed

end

text \<open>
  A driver that also listens. \<open>ready\<close> is the strobe of the turn-round, which asks the server
  for its answer; the bytes of the answer show as \<open>got\<close>.
\<close>

locale answer_driver = wire_driver d put port outp wire
  for d :: "('w, 'm) driver_scheme" and put :: "uchar \<Rightarrow> 'b" and port outp :: "'w xlink \<Rightarrow> bool"
    and wire :: "os_event list \<Rightarrow> 'b list" +
  fixes ready :: 'b
    and got :: "uchar \<Rightarrow> 'b"
    and inp :: "'w xlink \<Rightarrow> bool"
  assumes turn_wire: "turn d s = Some s' \<Longrightarrow> outp s \<Longrightarrow> inp s' \<and> wire (trace s') = wire (trace s) @ [ready]"
    and receive_wire: "d_receive d n s = Some ((r, bs), s') \<Longrightarrow> inp s \<Longrightarrow>
      inp s' \<and> (r \<longrightarrow> length bs = n) \<and> wire (trace s') = wire (trace s) @ map got bs"
    and inp_port: "inp s \<Longrightarrow> port s"
begin

text \<open>A successful receive as a step of the body, and the last one.\<close>

lemma listen:
  assumes "do { ((ok, bs), s) \<leftarrow> d_receive d n t; if \<not> ok then closing d (bad bs) s else rest bs s } = Some (r, t')"
    and "inp t" "\<And>bs. r \<noteq> bad bs"
  obtains bs u where "rest bs u = Some (r, t')" "inp u" "length bs = n"
    "wire (trace u) = wire (trace t) @ map got bs"
proof -
  from assms(1) obtain ok bs u where u: "d_receive d n t = Some ((ok, bs), u)"
    "(if \<not> ok then closing d (bad bs) u else rest bs u) = Some (r, t')"
    by (auto simp: bind_pair_iff)
  then have ok using assms(3) by (auto simp: closing_def bind_iff split: if_splits)
  with u receive_wire [OF u(1) assms(2)] that [of bs u] show ?thesis by auto
qed

lemma closing_listened:
  "closing d r u = Some (r', t') \<Longrightarrow> r' = r \<and> (inp u \<longrightarrow> port t' \<and> wire (trace t') = wire (trace u))"
  using closing_says [of r u r' t'] inp_port [of u] by (auto simp: closing_def bind_iff)

lemma answer_says:
  assumes "do { s \<leftarrow> turn d t; (answer, s) \<leftarrow> d_receive d n s; closing d answer s } = Some ((True, bs), t')" "outp t"
  shows "length bs = n \<and> port t' \<and> wire (trace t') = wire (trace t) @ ready # map got bs"
proof -
  from assms(1) obtain u a v where "turn d t = Some u" "d_receive d n u = Some (a, v)" "closing d a v = Some ((True, bs), t')"
    by (auto simp: bind_pair_iff bind_Some_iff)
  with turn_wire [of t u] closing_says [of a v "(True, bs)" t'] receive_wire [of n u "fst a" "snd a" v] inp_port [of v] assms(2)
  show ?thesis by (cases a) auto
qed

lemma save_says:
  assumes "xlink_save d m b a n s = Some ((True, bs), s')" "port s"
  shows "length bs = n \<and> port s' \<and> wire (trace s') = wire (trace s) @
    map put (0xfd # range_command XLINK_COMMAND_SAVE m b a n) @ ready # map got bs"
  using exchange_says [OF assms [unfolded xlink_save_def], of "\<lambda>xs. length bs = n \<and> xs = ready # map got bs"]
    answer_says by auto

lemma peek_says:
  assumes "xlink_peek d m b a s = Some ((True, bs), s')" "port s"
  shows "length bs = 1 \<and> port s' \<and> wire (trace s') = wire (trace s) @
    map put [0xfd, XLINK_COMMAND_PEEK, m, b, lo (ucast a), hi (ucast a)] @ ready # map got bs"
  using exchange_says [OF assms [unfolded xlink_peek_def], of "\<lambda>xs. length bs = 1 \<and> xs = ready # map got bs"]
    answer_says by auto

lemma identify_says:
  assumes "xlink_identify d si s = Some ((True, si'), s')" "port s"
  shows "\<exists>b name bytes. length name = unat (b AND 0x0f) \<and> length bytes = 9 \<and> identify_checksum bytes \<noteq> 0xff \<and>
    si' = identify_fields bytes (si\<lparr>si_id := (name @ drop (length name) (si_id si))[length name := 0]\<rparr>) \<and>
    wire (trace s') = wire (trace s) @ map put [0xfd, XLINK_COMMAND_IDENTIFY] @ ready # map got (b # name @ bytes)"
proof -
  let ?A = "\<lambda>xs. \<exists>b name bytes. length name = unat (b AND 0x0f) \<and> length bytes = 9 \<and> identify_checksum bytes \<noteq> 0xff \<and>
    si' = identify_fields bytes (si\<lparr>si_id := (name @ drop (length name) (si_id si))[length name := 0]\<rparr>) \<and>
    xs = ready # map got (b # name @ bytes)"
  have "port s' \<and> (\<exists>xs. ?A xs \<and> wire (trace s') = wire (trace s) @ map put [0xfd, XLINK_COMMAND_IDENTIFY] @ xs)"
    using assms unfolding xlink_identify_def
  proof (rule exchange_says)
    fix t t'
    assume run: "do { s \<leftarrow> turn d t;
        ((ok, b), s) \<leftarrow> d_receive d 1 s;
        if \<not> ok then closing d (False, si) s
        else do { let len = unat (hd b AND 0x0f);
            ((ok, name), s) \<leftarrow> d_receive d len s;
            let server = si\<lparr>si_id := name @ drop (length name) (si_id si)\<rparr>;
            if \<not> ok then closing d (False, server) s
            else do { ((ok, bytes), s) \<leftarrow> d_receive d 9 s;
                if \<not> ok then closing d (False, server) s
                else if identify_checksum bytes = 0xff then
                  closing d (False, server) (SET_ERROR XLINK_ERROR_SERVER ''unknown server (does not support identification)'' [] s)
                else closing d (True, identify_fields bytes (server\<lparr>si_id := (si_id server)[len := 0]\<rparr>)) s } } }
        = Some ((True, si'), t')" and "outp t"
    then obtain t1 where t1: "turn d t = Some t1" by (auto simp: bind_iff)
    note w1 = turn_wire [OF t1 \<open>outp t\<close>]
    let ?named = "\<lambda>name. si\<lparr>si_id := name @ drop (length name) (si_id si)\<rparr>"
    from run t1 w1 show "port t' \<and> (\<exists>xs. ?A xs \<and> wire (trace t') = wire (trace t) @ xs)"
      apply (simp only: bind.bind_lunit Let_def)
      apply (erule listen [where bad = "\<lambda>bs. (False, si)"])
        apply simp
       apply simp
      apply (erule listen [where bad = "\<lambda>name. (False, ?named name)"])
        apply simp
       apply simp
      apply (erule listen [where bad = "\<lambda>bytes. (False, ?named name)" for name])
        apply simp
       apply simp
      apply (auto dest!: closing_listened simp: length_Suc_conv split: if_splits)
      apply metis
      done
  qed simp
  then show ?thesis by auto
qed

end

end
