(* ===== verification/Client.thy ===== *)
theory Client
  imports Relocation Xlink_Laws
begin

text \<open>
  client.c: the commands. A command reads its options, works out the memory range it is
  about, makes room for it by moving the server, and calls the library. What it calls
  outside src/ is gathered in \<open>client_env\<close>: files, \<open>getopt_long\<close>, \<open>rand\<close>, and the generated
  functions behind \<open>machine->server\<close>, \<open>machine->basic_server\<close>, \<open>machine->kernal\<close> and
  \<open>help\<close>. What goes to the standard output and to files is noted in the trace.
\<close>

section \<open>Environment and helpers\<close>

text \<open>
  \<open>ce_getopt\<close> gives the options that \<open>getopt_long\<close> finds in an argument vector, each with its
  argument, in order, and the words that are left at \<open>argv + optind\<close> in the end.
\<close>

record 'w client_env =
  ce_sys :: "'w sys"
  ce_server :: server_code
  ce_basic_server :: "xlink_machine \<Rightarrow> uchar list"
  ce_kernal :: "xlink_machine \<Rightarrow> uchar list \<Rightarrow> uchar list"
  ce_help :: "int \<Rightarrow> bool \<times> string"
  ce_version :: string
  ce_getopt :: "string list \<Rightarrow> (char \<times> string) list \<times> string list"
  fs_readable :: "string \<Rightarrow> 'w \<Rightarrow> bool"
  fs_stat :: "string \<Rightarrow> 'w \<Rightarrow> nat option"
  fs_load :: "string \<Rightarrow> 'w \<Rightarrow> uchar list option"
  fs_create :: "string \<Rightarrow> 'w \<Rightarrow> bool \<times> 'w"
  fs_write :: "string \<Rightarrow> uchar list \<Rightarrow> 'w \<Rightarrow> 'w"
  os_rand :: "'w \<Rightarrow> uchar \<times> 'w"
  fmt_ms :: "int \<Rightarrow> string" \<comment> \<open>\<open>%.0f\<close> of microseconds in milliseconds\<close>
  fmt_speed :: "int \<Rightarrow> nat \<Rightarrow> string \<times> string" \<comment> \<open>\<open>%.2f\<close> of seconds and of kilobytes per second\<close>

abbreviation drv :: "'w client_env \<Rightarrow> 'w driver" where
  "drv e \<equiv> libxlink_driver (ce_sys e)"

definition log_error :: "string \<Rightarrow> arg list \<Rightarrow> 'w xlink \<Rightarrow> 'w xlink" where
  "log_error f args s = s\<lparr>lg := logger_error f args (lg s)\<rparr>"
definition log_info :: "string \<Rightarrow> arg list \<Rightarrow> 'w xlink \<Rightarrow> 'w xlink" where
  "log_info f args s = s\<lparr>lg := logger_info f args (lg s)\<rparr>"
definition log_debug :: "string \<Rightarrow> arg list \<Rightarrow> 'w xlink \<Rightarrow> 'w xlink" where
  "log_debug f args s = s\<lparr>lg := logger_debug f args (lg s)\<rparr>"

text \<open>\<open>'%s': %s\<close>\<close>
definition quoted_fmt :: string where
  "quoted_fmt = [char_of (39 :: nat)] @ ''%s'' @ [char_of (39 :: nat)] @ '': %s''"

definition errno_text :: "'w client_env \<Rightarrow> 'w xlink \<Rightarrow> string" where
  "errno_text e s = os_strerror (sy_os (ce_sys e)) (world s)"

text \<open>The text of \<open>xlink_error->message\<close>.\<close>

definition error_text :: "'w xlink \<Rightarrow> string" where
  "error_text s = (case render (fst (err_message s)) (snd (err_message s)) 0 of None \<Rightarrow> [] | Some t \<Rightarrow> t)"

definition print :: "string \<Rightarrow> 'w xlink \<Rightarrow> 'w xlink" where
  "print text s = emit (Print text) s"

definition write_file :: "'w client_env \<Rightarrow> string \<Rightarrow> uchar list \<Rightarrow> 'w xlink \<Rightarrow> 'w xlink" where
  "write_file e name bytes s = act (PutFile name bytes) (fs_write e name bytes) s"

definition screenOn :: "'w client_env \<Rightarrow> 'w xlink \<Rightarrow> 'w xlink option" where
  "screenOn e s =
     map_option snd (xlink_poke (drv e) (m_memory (machine s)) (m_bank (machine s)) 0xd011 0x1b s)"

definition screenOff :: "'w client_env \<Rightarrow> 'w xlink \<Rightarrow> 'w xlink option" where
  "screenOff e s =
     map_option snd (xlink_poke (drv e) (m_memory (machine s)) (m_bank (machine s)) 0xd011 0x0b s)"

section \<open>Printing a command\<close>

text \<open>
  The text is given to the logger as a format, so percent signs in it are read as directives;
  and it is collected in a buffer of 1024 bytes, which the model does not limit.
\<close>

definition ushort_of :: "int \<Rightarrow> int" where
  "ushort_of i = i mod 2 ^ 16"

definition command_text :: "command \<Rightarrow> 'w xlink \<Rightarrow> string" where
  "command_text self s =
     (if drv_path s \<noteq> [] then ''-d '' @ drv_path s @ '' '' else []) @
     ''-M '' @ m_name (machine s) @ '' '' @
     (if cm_memory self \<noteq> 0xff then ''-m 0x'' @ show_hex 2 (uint (cm_memory self)) @ '' '' else []) @
     (if cm_bank self \<noteq> 0xff then ''-b 0x'' @ show_hex 2 (uint (cm_bank self)) @ '' '' else []) @
     (if ushort_of (cm_start self) \<noteq> 0xffff
      then ''-a 0x'' @ show_hex 4 (ushort_of (cm_start self)) @
           (if ushort_of (cm_end self) \<noteq> 0xffff then ''-0x'' @ show_hex 4 (ushort_of (cm_end self)) else []) @ '' ''
      else []) @
     (if ushort_of (cm_skip self) \<noteq> 0xffff then ''-s 0x'' @ show_hex 4 (ushort_of (cm_skip self)) @ '' '' else []) @
     concat (map (\<lambda>a. a @ '' '') (cm_argv self))"

definition command_print :: "command \<Rightarrow> 'w xlink \<Rightarrow> 'w xlink" where
  "command_print self s =
     (if drv_path s \<noteq> [] \<or> cm_memory self \<noteq> 0xff \<or> cm_bank self \<noteq> 0xff \<or>
         ushort_of (cm_start self) \<noteq> 0xffff \<or> ushort_of (cm_skip self) \<noteq> 0xffff \<or> cm_argv self \<noteq> []
      then log_debug (command_text self s) [] s
      else s)"

text \<open>\<open>commands_each\<close>, and \<open>commands_print\<close> on top of it.\<close>

fun commands_each :: "(command \<Rightarrow> 'w xlink \<Rightarrow> (bool \<times> 'w xlink) option) \<Rightarrow> commands \<Rightarrow> 'w xlink
    \<Rightarrow> (bool \<times> 'w xlink) option" where
  "commands_each func [] s = Some (True, s)"
| "commands_each func (c # cs) s =
     do { (result, s) \<leftarrow> func c s;
          if \<not> result then Some (result, s) else commands_each func cs s }"

definition commands_print :: "commands \<Rightarrow> 'w xlink \<Rightarrow> 'w xlink option" where
  "commands_print self s =
     map_option snd (commands_each (\<lambda>c s. Some (True, command_print c s)) self s)"

section \<open>Options\<close>

definition usage_text :: "string list" where
  "usage_text =
    [''Usage: xlink [<opts>] [<command> [<opts>] [<arguments>]]...'',
     '''',
     ''Options:'',
     ''    -h, --help                    : show this help'',
     ''    -q, --quiet                   : show errors only'',
     ''    -v, --verbose                 : show verbose debug output'',
     ''    -d, --device <path>           : transfer device (default: /dev/xlink)'',
     ''    -M, --machine                 : machine type (default: C64)'',
     ''    -m, --memory                  : C64/C128 memory config (default: 0x37/0x00)'',
     ''    -b, --bank                    : C128 bank value (default: 15)'',
     ''    -a, --address <start>[-<end>] : address/range (default: autodetect)'',
     ''    -s, --skip <n>                : Skip n bytes of file'',
     '''',
     ''Commands:'',
     ''     help  [<command>]            : show detailed help for command'',
     '''',
     ''     kernal <infile> <outfile>    : patch kernal image to include server code'',
     ''     server [-a<addr>] <file>     : create server program and save to file'',
     ''     relocate <addr>              : relocate currently running server'',
     '''',
     ''     reset                        : reset machine (requires hardware support)'',
     ''     ready                        : try to make sure the server is ready'',
     ''     ping                         : check if the server is available'',
     ''     identify                     : identify remote server and machine type'',
     '''',
     ''     load  [<opts>] <file>        : load file into memory'',
     ''     save  [<opts>] <file>        : save memory to file'',
     ''     poke  [<opts>] <addr>,<val>  : poke value into memory'',
     ''     peek  [<opts>] <addr>        : read value from memory'',
     ''     fill  <range>  <val>         : fill memory range with value'',
     ''     jump  [<opts>] <addr>        : jump to specified address'',
     ''     run   [<opts>] [<file>]      : run program, optionally load it before'',
     ''     <file>...                    : load file(s) and run last file'',
     '''',
     ''     benchmark [<opts>]           : test/measure transfer speed'',
     ''     bootloader                   : enter dfu-bootloader (at90usb162)'',
     '''']"

text \<open>\<open>ce_version\<close> is the number \<open>CLIENT_VERSION\<close> of the build as \<open>%.1f\<close> prints it.\<close>

definition version :: "'w client_env \<Rightarrow> 'w xlink \<Rightarrow> 'w xlink" where
  "version e s =
     print (''xlink '' @ ce_version e @ '' Copyright (C) 2015 Henning Bekel <h.bekel@googlemail.com>\<newline>'') s"

definition usage :: "'w client_env \<Rightarrow> 'w xlink \<Rightarrow> 'w xlink" where
  "usage e s = print (''\<newline>'' @ concat (map (\<lambda>l. l @ ''\<newline>'') usage_text)) (version e s)"

text \<open>The case \<open>'a'\<close> of the option switch.\<close>

definition option_address :: "string \<Rightarrow> command \<Rightarrow> 'w xlink \<Rightarrow> bool \<times> command \<times> 'w xlink" where
  "option_address optarg self s =
     (let self = self\<lparr>cm_start := strtol_int optarg\<rparr>;
          self = (case strstr1 optarg CHR ''-'' of
                    None \<Rightarrow> self
                  | Some t \<Rightarrow> self\<lparr>cm_end := strtol_int (tl t)\<rparr>)
      in if \<not> valid (cm_start self) then
           (False, self, log_error ''start address out of range: 0x%04X'' [Aint (cm_start self)] s)
         else if cm_end self \<noteq> -1 then
           if \<not> valid (cm_end self) then
             (False, self, log_error ''end address out of range: 0x%04X'' [Aint (cm_end self)] s)
           else if cm_end self < cm_start self then
             (False, self, log_error ''end address before start address: 0x%04X > 0x%04X''
                [Aint (cm_end self), Aint (cm_start self)] s)
           else if cm_start self = cm_end self then
             (False, self, log_error ''start address equals end address: 0x%04X == 0x%04X''
                [Aint (cm_end self), Aint (cm_start self)] s)
           else (True, self, s)
         else (True, self, s))"

definition parse_option :: "'w client_env \<Rightarrow> char \<times> string \<Rightarrow> command \<Rightarrow> 'w xlink
    \<Rightarrow> (bool \<times> command \<times> 'w xlink) option" where
  "parse_option e opt self s =
     (let (option, optarg) = opt in
      if option = CHR ''h'' then Some (True, self, usage e s)
      else if option = CHR ''q'' then Some (True, self, s\<lparr>lg := logger_set ''NONE'' (lg s)\<rparr>)
      else if option = CHR ''v'' then Some (True, self, s\<lparr>lg := logger_set ''ALL'' (lg s)\<rparr>)
      else if option = CHR ''d'' then
        do { (r, s) \<leftarrow> xlink_set_device (ce_sys e) optarg s; Some (r, self, s) }
      else if option = CHR ''M'' then
        Some (if strncasecmp0 optarg ''c64'' 3 then (True, self, s\<lparr>machine := c64\<rparr>)
              else if strncasecmp0 optarg ''c128'' 4 then (True, self, s\<lparr>machine := c128\<rparr>)
              else (False, self, log_error ''unknown machine type: %s'' [Astr optarg] s))
      else if option = CHR ''m'' then Some (True, self\<lparr>cm_memory := strtol_uchar optarg\<rparr>, s)
      else if option = CHR ''b'' then Some (True, self\<lparr>cm_bank := strtol_uchar optarg\<rparr>, s)
      else if option = CHR ''a'' then Some (option_address optarg self s)
      else if option = CHR ''s'' then Some (True, self\<lparr>cm_skip := strtol_int optarg\<rparr>, s)
      else if option = CHR ''f'' then Some (True, self\<lparr>cm_force := True\<rparr>, s)
      else Some (True, self, s))"

fun parse_loop :: "'w client_env \<Rightarrow> (char \<times> string) list \<Rightarrow> command \<Rightarrow> 'w xlink
    \<Rightarrow> (bool \<times> command \<times> 'w xlink) option" where
  "parse_loop e [] self s = Some (True, self, s)"
| "parse_loop e (opt # opts) self s =
     do { (r, self, s) \<leftarrow> parse_option e opt self s;
          if \<not> r then Some (False, self, s) else parse_loop e opts self s }"

definition command_parse_options :: "'w client_env \<Rightarrow> command \<Rightarrow> 'w xlink
    \<Rightarrow> (bool \<times> command \<times> 'w xlink) option" where
  "command_parse_options e self s =
     (let (opts, rest) = ce_getopt e (cm_argv self) in
      do { (r, self, s) \<leftarrow> parse_loop e opts self s;
           Some (r, if r then self\<lparr>cm_argv := rest\<rparr> else self, s) })"

section \<open>Making room\<close>

definition command_apply_memory_and_bank :: "xlink_machine \<Rightarrow> command \<Rightarrow> command" where
  "command_apply_memory_and_bank m self =
     (let self = (if cm_memory self = 0xff then self\<lparr>cm_memory := m_memory m\<rparr> else self)
      in if cm_bank self = 0xff then self\<lparr>cm_bank := m_bank m\<rparr> else self)"

definition command_apply_safe_memory_and_bank :: "xlink_machine \<Rightarrow> command \<Rightarrow> command" where
  "command_apply_safe_memory_and_bank m self =
     self\<lparr>cm_memory := m_safe_memory m, cm_bank := m_safe_bank m\<rparr>"

definition command_server_usable_after_possible_relocation :: "'w client_env \<Rightarrow> command \<Rightarrow> 'w xlink
    \<Rightarrow> (bool \<times> 'w xlink) option" where
  "command_server_usable_after_possible_relocation e self s =
     do { ((ok, server), s) \<leftarrow> xlink_identify (drv e) blank_server s;
          if \<not> ok then Some (False, s)
          else
            (case command_requires_server_relocation self server s of
               (False, s) \<Rightarrow> Some (True, s)
             | (True, s) \<Rightarrow>
                 do { place \<leftarrow> command_server_relocation_possible (machine s) self server;
                      case place of
                        None \<Rightarrow> Some (False, log_error ''impossible to relocate ram-based server: out of memory'' [] s)
                      | Some address \<Rightarrow>
                          do { let s = log_debug ''relocating server to $%04X'' [Aint (uint address)] s;
                               (moved, s) \<leftarrow> xlink_relocate (drv e) (ce_server e) address s;
                               if \<not> moved then
                                 Some (False, log_error ''failed to relocate ram-based server: %s''
                                                [Astr (error_text s)] s)
                               else Some (True, s) } }) }"

section \<open>Finding a basic program\<close>

text \<open>One peek of the four, or the failure that ends the function.\<close>

definition peek_value :: "'w client_env \<Rightarrow> ushort \<Rightarrow> 'w xlink \<Rightarrow> (uchar option \<times> 'w xlink) option" where
  "peek_value e address s =
     do { ((ok, got), s) \<leftarrow> xlink_peek (drv e) (m_memory (machine s)) (m_bank (machine s)) address s;
          Some (if ok then Some (hd got) else None, s) }"

definition command_find_basic_program :: "'w client_env \<Rightarrow> command \<Rightarrow> 'w xlink
    \<Rightarrow> (bool \<times> command \<times> 'w xlink) option" where
  "command_find_basic_program e self s =
     do { (v, s) \<leftarrow> peek_value e (m_basic_start (machine s) + 1) s;
          case v of None \<Rightarrow> Some (False, self, s) | Some shi \<Rightarrow>
     do { (v, s) \<leftarrow> peek_value e (m_basic_start (machine s)) s;
          case v of None \<Rightarrow> Some (False, self, s) | Some slo \<Rightarrow>
     do { (v, s) \<leftarrow> peek_value e (m_basic_end (machine s) + 1) s;
          case v of None \<Rightarrow> Some (False, self, s) | Some ehi \<Rightarrow>
     do { (v, s) \<leftarrow> peek_value e (m_basic_end (machine s)) s;
          case v of None \<Rightarrow> Some (False, self, s) | Some elo \<Rightarrow>
            (let bstart = uint ((push_bit 8 (ucast shi) OR ucast slo) :: ushort);
                 bend = uint ((push_bit 8 (ucast ehi) OR ucast elo) :: ushort)
             in if bend \<noteq> bstart + 2 then
                  Some (True, self\<lparr>cm_start := bstart, cm_end := bend\<rparr>, s)
                else Some (False, self, s)) } } } }"

section \<open>Load\<close>

text \<open>
  The start, skip and size that \<open>command_load\<close> works out from the file: the header of a
  program file is read when no address is given. \<open>None\<close> is a file too short for its header,
  of which the code reads two bytes into an uninitialised variable.
\<close>

definition load_start :: "uchar list \<Rightarrow> command \<Rightarrow> command option" where
  "load_start content self =
     (if cm_start self = -1 then
        (if length content < 2 then None
         else
           (let self = self\<lparr>cm_start := uint (word16_le (content ! 0) (content ! 1))\<rparr>
            in Some (if cm_skip self = -1 then self\<lparr>cm_skip := 2\<rparr> else self)))
      else Some self)"

definition load_size :: "uchar list \<Rightarrow> command \<Rightarrow> int \<times> command" where
  "load_size content self =
     (let self = (if cm_skip self = -1 then self\<lparr>cm_skip := 0\<rparr> else self);
          n = int (length content) - cm_skip self;
          self = (if cm_end self = -1 then self\<lparr>cm_end := cm_start self + n\<rparr> else self);
          n = (if cm_end self - cm_start self < n then cm_end self - cm_start self else n)
      in (n, self))"

definition load_memory :: "xlink_machine \<Rightarrow> command \<Rightarrow> command" where
  "load_memory m self =
     (if cm_memory self = 0xff \<or> cm_bank self = 0xff then
        (if range_overlaps (range_new (cm_start self) (cm_end self)) (range_new_from_int (m_io m))
         then command_apply_safe_memory_and_bank m self
         else command_apply_memory_and_bank m self)
      else self)"

text \<open>
  What \<open>fseek\<close> and \<open>fread\<close> put into the zeroed buffer. A negative offset leaves the file where
  it is, behind the header if that was read.
\<close>

definition load_data :: "bool \<Rightarrow> uchar list \<Rightarrow> int \<Rightarrow> nat \<Rightarrow> uchar list" where
  "load_data header content skip n =
     (let pos = (if skip \<ge> 0 then nat skip else if header then 2 else 0);
          got = take n (drop pos content)
      in got @ replicate (n - length got) 0)"

definition command_load :: "'w client_env \<Rightarrow> command \<Rightarrow> 'w xlink
    \<Rightarrow> (bool \<times> command \<times> 'w xlink) option" where
  "command_load e self s =
     (case cm_argv self of
        [] \<Rightarrow> Some (False, self, log_error ''no file specified'' [] s)
      | filename # _ \<Rightarrow>
          (case fs_load e filename (world s) of
             None \<Rightarrow> Some (False, self, log_error quoted_fmt [Astr filename, Astr (errno_text e s)] s)
           | Some content \<Rightarrow>
               do { let header = (cm_start self = -1);
                    self \<leftarrow> load_start content self;
                    let (n, self) = load_size content self;
                    let self = load_memory (machine s) self;
                    if n < 0 then None
                    else
                      do { let bytes = load_data header content (cm_skip self) (nat n);
                           let s = command_print self s;
                           (usable, s) \<leftarrow>
                             (if cm_force self
                              then Some (True, s\<lparr>lg := logger_resume (logger_suspend (lg s))\<rparr>)
                              else command_server_usable_after_possible_relocation e self s);
                           if \<not> usable then Some (False, self, s)
                           else
                             do { (result, s) \<leftarrow> xlink_load (drv e) (cm_memory self) (cm_bank self)
                                                 (word_of_int (cm_start self)) bytes s;
                                  Some (result, self, s) } } }))"

section \<open>Save, poke, peek, fill, jump, run\<close>

text \<open>
  \<open>None\<close> is undefined behaviour: a negative size, or a file name of less than four
  characters, whose suffix starts before the string.
\<close>

definition save_bytes :: "string \<Rightarrow> command \<Rightarrow> uchar list \<Rightarrow> uchar list option" where
  "save_bytes filename self bytes =
     (if length filename < 4 then None
      else if strncasecmp0 (drop (length filename - 4) filename) ''.prg'' 4
      then Some ([lo (word_of_int (cm_start self)), hi (word_of_int (cm_start self))] @ bytes)
      else Some bytes)"

definition command_save :: "'w client_env \<Rightarrow> command \<Rightarrow> 'w xlink \<Rightarrow> (bool \<times> 'w xlink) option" where
  "command_save e self s =
     (case cm_argv self of
        [] \<Rightarrow> Some (False, log_error ''no file specified'' [] s)
      | filename # _ \<Rightarrow>
          do { (found, self, s) \<leftarrow>
                 (if cm_start self = -1 then command_find_basic_program e self s else Some (True, self, s));
               if \<not> found then
                 Some (False, log_error ''no start address specified and no basic program in memory'' [] s)
               else if cm_start self = -1 then Some (False, log_error ''no start address specified'' [] s)
               else if cm_end self = -1 then Some (False, log_error ''no end address specified'' [] s)
               else
                 (let n = cm_end self - cm_start self;
                      (opened, s) = ask (fs_create e filename) s
                  in if \<not> opened then
                       Some (False, log_error quoted_fmt [Astr filename, Astr (errno_text e s)] s)
                     else if n < 0 then None
                     else
                       do { let self = command_apply_memory_and_bank (machine s) self;
                            let s = command_print self s;
                            ((saved, bytes), s) \<leftarrow> xlink_save (drv e) (cm_memory self) (cm_bank self)
                                                   (word_of_int (cm_start self)) (nat n) s;
                            if \<not> saved then Some (False, s)
                            else
                              do { out \<leftarrow> save_bytes filename self bytes;
                                   Some (True, write_file e filename out s) } }) })"

definition command_poke :: "'w client_env \<Rightarrow> command \<Rightarrow> 'w xlink \<Rightarrow> (bool \<times> 'w xlink) option" where
  "command_poke e self s =
     (case cm_argv self of
        [] \<Rightarrow> Some (False, log_error ''argument required'' [] s)
      | argument # others \<Rightarrow>
          (let comma = strcspn argument CHR '','' in
           if comma = length argument \<or> comma + 1 = length argument then
             Some (False, log_error ''expects <address>,<value>'' [] s)
           else
             (let addr = take comma argument;
                  value = strtol_uchar (drop (comma + 1) argument);
                  self = self\<lparr>cm_start := strtol_int addr, cm_argv := addr # others\<rparr>;
                  self = command_apply_memory_and_bank (machine s) self;
                  self = self\<lparr>cm_end := cm_start self\<rparr>;
                  s = command_print self s
              in do { (usable, s) \<leftarrow> command_server_usable_after_possible_relocation e self s;
                      if \<not> usable then Some (False, s)
                      else xlink_poke (drv e) (cm_memory self) (cm_bank self)
                             (word_of_int (cm_start self)) value s })))"

definition command_peek :: "'w client_env \<Rightarrow> command \<Rightarrow> 'w xlink \<Rightarrow> (bool \<times> 'w xlink) option" where
  "command_peek e self s =
     (case cm_argv self of
        [] \<Rightarrow> Some (False, log_error ''no address specified'' [] s)
      | argument # _ \<Rightarrow>
          (let address = strtol_int argument;
               self = command_apply_memory_and_bank (machine s) self;
               s = command_print self s
           in do { ((ok, got), s) \<leftarrow> xlink_peek (drv e) (cm_memory self) (cm_bank self) (word_of_int address) s;
                   Some (if \<not> ok then (False, s)
                         else (True, print (show_dec (uint (hd got)) @ ''\<newline>'') s)) }))"

definition command_fill :: "'w client_env \<Rightarrow> command \<Rightarrow> 'w xlink \<Rightarrow> (bool \<times> 'w xlink) option" where
  "command_fill e self s =
     (case cm_argv self of
        [] \<Rightarrow> Some (False, log_error ''no arguments given'' [] s)
      | [_] \<Rightarrow> Some (False, log_error ''no value specified'' [] s)
      | text # val # _ \<Rightarrow>
          (let r = range_parse text;
               r = (if \<not> range_ends r then r\<lparr>r_end := 0x10000\<rparr> else r)
           in if \<not> range_valid r then
                Some (False, log_error ''invalid memory range: $%04X-$%04X''
                               [Aint (r_start r), Aint (r_end r)] s)
              else
                (let value = strtol_uchar val;
                     n = range_size r;
                     self = self\<lparr>cm_start := r_start r, cm_end := r_end r\<rparr>;
                     self = command_apply_memory_and_bank (machine s) self;
                     s = command_print self s
                 in do { (usable, s) \<leftarrow> command_server_usable_after_possible_relocation e self s;
                         if \<not> usable then Some (False, s)
                         else xlink_fill (drv e) (cm_memory self) (cm_bank self)
                                (word_of_int (cm_start self)) value (nat n) s })))"

definition command_jump :: "'w client_env \<Rightarrow> command \<Rightarrow> 'w xlink \<Rightarrow> (bool \<times> 'w xlink) option" where
  "command_jump e self s =
     (case cm_argv self of
        [] \<Rightarrow> Some (False, log_error ''no address specified'' [] s)
      | argument # _ \<Rightarrow>
          (let address = strtol_int argument in
           if address = 0 \<and> cm_start self = -1 then Some (False, log_error ''no address specified'' [] s)
           else
             (let address = (if address = 0 then cm_start self else address);
                  self = command_apply_memory_and_bank (machine s) self;
                  s = command_print self s
              in xlink_jump (drv e) (cm_memory self) (cm_bank self) (word_of_int address) s)))"

definition command_run :: "'w client_env \<Rightarrow> command \<Rightarrow> 'w xlink \<Rightarrow> (bool \<times> 'w xlink) option" where
  "command_run e self s =
     (if length (cm_argv self) = 1 then
        do { (loaded, self, s) \<leftarrow> command_load e self (s\<lparr>lg := logger_suspend (lg s)\<rparr>);
             let s = s\<lparr>lg := logger_resume (lg s)\<rparr>;
             if \<not> loaded then Some (False, s)
             else if cm_start self \<noteq> uint (m_default_basic_start (machine s)) then
               (let self = command_apply_memory_and_bank (machine s) self;
                    s = command_print self s
                in xlink_jump (drv e) (cm_memory self) (cm_bank self) (word_of_int (cm_start self)) s)
             else xlink_run (drv e) (command_print self s) }
      else xlink_run (drv e) (command_print self s))"

section \<open>Relocate, reset, identify\<close>

definition command_relocate :: "'w client_env \<Rightarrow> command \<Rightarrow> 'w xlink \<Rightarrow> (bool \<times> 'w xlink) option" where
  "command_relocate e self s =
     (case cm_argv self of
        [argument] \<Rightarrow>
          do { ((ok, server), s) \<leftarrow> xlink_identify (drv e) blank_server s;
               if \<not> ok then Some (False, log_error ''failed to identify server'' [] s)
               else if uint (si_type server) = XLINK_SERVER_TYPE_ROM then
                 Some (True, log_info ''identified ROM-based server (no relocation required)'' [] s)
               else
                 (let address = strtol_ushort argument;
                      code = range_new (uint address) (uint address + uint (si_length server));
                      io = range_new_from_int (m_io (machine s));
                      lorom = range_new_from_int (m_lorom (machine s));
                      hirom = range_new_from_int (m_hirom (machine s));
                      lorom = (if m_type (machine s) = XLINK_MACHINE_C64
                               then lorom\<lparr>r_start := uint (si_memtop server)\<rparr> else lorom)
                  in if \<not> range_valid code then
                       Some (False, log_error ''cannot relocate server to $%04X-$%04X: invalid memory range''
                                      [Aint (r_start code), Aint (r_end code)] s)
                     else if uint (si_type server) = XLINK_SERVER_TYPE_RAM then
                       if range_inside code lorom then
                         Some (False, log_error ''cannot relocate server to $%04X-$%04X: range occupies lower rom area $%04X-$%04X''
                           [Aint (r_start code), Aint (r_end code), Aint (r_start lorom), Aint (r_end lorom)] s)
                       else if range_inside code hirom then
                         Some (False, log_error ''cannot relocate server to $%04X-$%04X: range occupies upper rom area $%04X-$%04X''
                           [Aint (r_start code), Aint (r_end code), Aint (r_start hirom), Aint (r_end hirom)] s)
                       else if range_inside code io then
                         Some (False, log_error ''cannot relocate server to $%04X-$%04X: range occupies io area $%04X-$%04X''
                           [Aint (r_start code), Aint (r_end code), Aint (r_start io), Aint (r_end io)] s)
                       else xlink_relocate (drv e) (ce_server e) address s
                     else Some (False, log_error ''unknown server type: %d'' [Aint (uint (si_type server))] s)) }
      | _ \<Rightarrow> Some (False, log_error ''no relocation address specified'' [] s))"

text \<open>The client's own \<open>server_ready_after\<close>, which counts to exactly 0.\<close>

partial_function (option) client_ready_after :: "'w client_env \<Rightarrow> int \<Rightarrow> 'w xlink \<Rightarrow> (bool \<times> 'w xlink) option" where
  "client_ready_after e ms s =
     (if ms \<noteq> 0 then
        do { (up, s) \<leftarrow> xlink_ping (drv e) s;
             if up then Some (True, usleep (ce_sys e) (250 * 1000) s)
             else client_ready_after e (ms - 250) s }
      else Some (False, s))"

declare client_ready_after.simps [code]

definition command_reset :: "'w client_env \<Rightarrow> command \<Rightarrow> 'w xlink \<Rightarrow> (bool \<times> 'w xlink) option" where
  "command_reset e self s =
     do { (up, s) \<leftarrow> xlink_reset (drv e) (command_print self s);
          if \<not> up then Some (False, s)
          else
            do { (up, s) \<leftarrow> client_ready_after e 3000 s;
                 if \<not> up then Some (False, s) else xlink_ready (ce_sys e) (drv e) s } }"

definition command_bootloader :: "'w client_env \<Rightarrow> command \<Rightarrow> 'w xlink \<Rightarrow> (bool \<times> 'w xlink) option" where
  "command_bootloader e self s = xlink_bootloader (drv e) (command_print self s)"

definition c_string :: "uchar list \<Rightarrow> string" where
  "c_string bytes = map (\<lambda>b. char_of (uint b)) (takeWhile (\<lambda>b. b \<noteq> 0) bytes)"

definition identify_text :: "xlink_server_info \<Rightarrow> string" where
  "identify_text server =
     c_string (si_id server) @ '' '' @
     show_dec (uint (drop_bit 4 (si_version server AND 0xf0))) @ ''.'' @
     show_dec (uint (si_version server AND 0x0f)) @ '' '' @
     (if uint (si_machine server) = XLINK_MACHINE_C64 then ''C64'' else ''C128'') @ '' '' @
     (if uint (si_type server) = XLINK_SERVER_TYPE_RAM then ''RAM'' else ''ROM'') @ '' $'' @
     show_hex 4 (uint (si_start server)) @ ''-$'' @ show_hex 4 (uint (si_end server)) @ ''\<newline>''"

definition command_identify :: "'w client_env \<Rightarrow> command \<Rightarrow> 'w xlink \<Rightarrow> (bool \<times> 'w xlink) option" where
  "command_identify e self s =
     do { ((ok, server), s) \<leftarrow> xlink_identify (drv e) blank_server s;
          Some (if ok then (True, print (identify_text server) s) else (False, s)) }"

definition command_ready :: "'w client_env \<Rightarrow> command \<Rightarrow> 'w xlink \<Rightarrow> (bool \<times> 'w xlink) option" where
  "command_ready e self s =
     do { (ok, s) \<leftarrow> xlink_ready (ce_sys e) (drv e) (command_print self s);
          Some (if \<not> ok then (False, log_error ''no response from server'' [] s) else (True, s)) }"

definition command_ping :: "'w client_env \<Rightarrow> command \<Rightarrow> 'w xlink \<Rightarrow> (bool \<times> 'w xlink) option" where
  "command_ping e self s =
     (let (start, s) = now (ce_sys e) (command_print self s) in
      do { (response, s) \<leftarrow> xlink_ping (drv e) s;
           let (t, s) = now (ce_sys e) s;
           let ms = Adbl (fmt_ms e (watch_elapsed_us start t));
           Some (response,
             if response then log_info ''received reply after %.0fms'' [ms] s
             else log_info ''no reply after %.0fms'' [ms] s) })"

end
