(* ===== verification/Client_Main.thy ===== *)
theory Client_Main
  imports Client
begin

text \<open>
  client.c: the commands that measure and make files, the execution of a command line, and
  \<open>main\<close>. The global \<open>mode\<close>, which the help command switches, is passed along with the state.
\<close>

section \<open>Benchmark\<close>

fun random_bytes :: "'w client_env \<Rightarrow> nat \<Rightarrow> 'w xlink \<Rightarrow> uchar list \<times> 'w xlink" where
  "random_bytes e 0 s = ([], s)"
| "random_bytes e (Suc n) s =
     (let (b, s) = ask (os_rand e) s; (bs, s) = random_bytes e n s in (b # bs, s))"

text \<open>The first index where the bytes differ.\<close>

fun first_difference :: "nat \<Rightarrow> uchar list \<Rightarrow> uchar list \<Rightarrow> (nat \<times> uchar \<times> uchar) option" where
  "first_difference i (a # as) (b # bs) =
     (if a \<noteq> b then Some (i, a, b) else first_difference (Suc i) as bs)"
| "first_difference i _ _ = None"

definition log_speed :: "'w client_env \<Rightarrow> timeval \<Rightarrow> nat \<Rightarrow> 'w xlink \<Rightarrow> 'w xlink" where
  "log_speed e start n s =
     (let (t, s) = now (ce_sys e) s;
          (seconds, kbs) = fmt_speed e (watch_elapsed_us start t) n
      in log_info ''%.2f seconds at %.2f kb/s'' [Adbl seconds, Adbl kbs] s)"

definition command_benchmark :: "'w client_env \<Rightarrow> command \<Rightarrow> 'w xlink \<Rightarrow> (bool \<times> 'w xlink) option" where
  "command_benchmark e self s =
     (let benchmark = (if cm_start self \<noteq> -1 \<and> cm_end self \<noteq> -1 then range_new (cm_start self) (cm_end self)
                       else range_new_from_int (m_benchmark (machine s)));
          self = command_apply_memory_and_bank (machine s) self;
          s = command_print self s;
          n = nat (range_size benchmark);
          (payload, s) = random_bytes e n s;
          start = r_start benchmark
      in do { (up, s) \<leftarrow> xlink_ping (drv e) s;
              if \<not> up then Some (False, log_error ''no response from server'' [] s)
              else
                do { ((ok, server), s) \<leftarrow> xlink_identify (drv e) blank_server s;
                     s \<leftarrow> (if ok \<and> uint (si_type server) = XLINK_SERVER_TYPE_RAM then
                            do { (_, s) \<leftarrow> xlink_relocate (drv e) (ce_server e) (m_free_ram_area (machine s)) s;
                                 Some (usleep (ce_sys e) (250 * 1000) s) }
                          else Some s);
                     let s = log_info ''sending %d bytes...'' [Aint (int n)] s;
                     let (t, s) = now (ce_sys e) s;
                     (sent, s) \<leftarrow> xlink_load (drv e) (cm_memory self) (cm_bank self) (word_of_int start) payload s;
                     if \<not> sent then Some (False, s)
                     else
                       do { let s = log_info ''receiving %d bytes...'' [Aint (int n)] (log_speed e t n s);
                            let (t, s) = now (ce_sys e) s;
                            ((received, roundtrip), s) \<leftarrow>
                              xlink_save (drv e) (cm_memory self) (cm_bank self) (word_of_int start) n s;
                            if \<not> received then Some (False, s)
                            else
                              (let s = log_info ''verifying...'' [] (log_speed e t n s) in
                               case first_difference 0 payload roundtrip of
                                 Some (i, a, b) \<Rightarrow>
                                   Some (False, log_error ''roundtrip error at $%04X: sent %d, received %d''
                                     [Aint (start + int i), Aint (uint a), Aint (uint b)] s)
                               | None \<Rightarrow> Some (True, log_info ''completed successfully'' [] s)) } } })"

section \<open>Server and kernal files\<close>

text \<open>The message of a failed open lacks the argument of its first directive, as in the code.\<close>

definition command_server :: "'w client_env \<Rightarrow> command \<Rightarrow> 'w xlink \<Rightarrow> (bool \<times> 'w xlink) option" where
  "command_server e self s =
     (case cm_argv self of
        [] \<Rightarrow> Some (False, log_error ''no file specified'' [] s)
      | filename # _ \<Rightarrow>
          (let basic = uint (m_default_basic_start (machine s));
               self = (if cm_start self = -1 then self\<lparr>cm_start := basic\<rparr> else self);
               s = command_print self s;
               bytes = (if cm_start self = basic then Some (ce_basic_server e (machine s))
                        else ce_server e (machine s) (word_of_int (cm_start self)))
           in case bytes of
                None \<Rightarrow> Some (False, s)
              | Some bytes \<Rightarrow>
                  (let (opened, s) = ask (fs_create e filename) s in
                   if \<not> opened then
                     Some (False, log_error ''couldn't open %s for writing: %s'' [Astr (errno_text e s)] s)
                   else
                     Some (True, log_info ''wrote %s (%d bytes)'' [Astr filename, Aint (int (length bytes))]
                                   (write_file e filename bytes s)))))"

text \<open>The last 8 kilobytes of the file are the image that is patched.\<close>

definition command_kernal :: "'w client_env \<Rightarrow> command \<Rightarrow> 'w xlink \<Rightarrow> (bool \<times> 'w xlink) option" where
  "command_kernal e self s =
     (case cm_argv self of
        [] \<Rightarrow> Some (False, log_error ''no input file specified'' [] s)
      | [_] \<Rightarrow> Some (False, log_error ''no output file specified'' [] s)
      | inputfile # outputfile # _ \<Rightarrow>
          (case fs_stat e inputfile (world s) of
             None \<Rightarrow> Some (False, log_error ''%s: %s'' [Astr inputfile, Astr (errno_text e s)] s)
           | Some n \<Rightarrow>
               (let offset = int n - 0x2000 in
                if offset < 0 then
                  Some (False, log_error ''input file: size must be larger than %d bytes (%s: %d bytes)''
                                 [Aint 0x2000, Astr inputfile, Aint (int n)] s)
                else
                  (case fs_load e inputfile (world s) of
                     None \<Rightarrow> Some (False, log_error ''%s: %s\<newline>'' [Astr inputfile, Astr (errno_text e s)] s)
                   | Some content \<Rightarrow>
                       (let got = take n content;
                            image = got @ replicate (n - length got) 0;
                            image = take (nat offset) image @ ce_kernal e (machine s) (drop (nat offset) image);
                            (opened, s) = ask (fs_create e outputfile) s
                        in if \<not> opened then
                             Some (False, log_error ''%s: %s\<newline>'' [Astr outputfile, Astr (errno_text e s)] s)
                           else
                             Some (True, log_info ''patched %s'' [Astr outputfile]
                                           (write_file e outputfile image s)))))))"

section \<open>Executing commands\<close>

definition MODE_EXEC :: int where "MODE_EXEC = 0x00"
definition MODE_HELP :: int where "MODE_HELP = 0x01"

definition command_help :: "command \<Rightarrow> int \<Rightarrow> 'w xlink \<Rightarrow> bool \<times> int \<times> 'w xlink" where
  "command_help self mode s =
     (case cm_argv self of
        argument # _ \<Rightarrow> (False, mode, log_error ''unknown command: %s'' [Astr argument] s)
      | [] \<Rightarrow> (True, MODE_HELP, s))"

text \<open>
  The words that \<open>command_none\<close> makes of a list of files: load all but the last and run the
  last. \<open>Inl\<close> is the first that cannot be read.
\<close>

fun none_words :: "(string \<Rightarrow> bool) \<Rightarrow> string list \<Rightarrow> string + string list" where
  "none_words readable [] = Inr []"
| "none_words readable (f # fs) =
     (if readable f then
        (case none_words readable fs of
           Inl bad \<Rightarrow> Inl bad
         | Inr ws \<Rightarrow> Inr ((if fs = [] then ''run'' else ''load'') # f # ws))
      else Inl f)"

text \<open>The commands but \<open>command_none\<close>, which executes commands itself.\<close>

definition command_dispatch :: "'w client_env \<Rightarrow> command \<Rightarrow> int \<Rightarrow> 'w xlink
    \<Rightarrow> (bool \<times> int \<times> 'w xlink) option" where
  "command_dispatch e self mode s =
     (let k = cm_id self;
          keep = map_option (\<lambda>(r, s). (r, mode, s))
      in if k = COMMAND_LOAD then map_option (\<lambda>(r, _, s). (r, mode, s)) (command_load e self s)
         else if k = COMMAND_SAVE then keep (command_save e self s)
         else if k = COMMAND_POKE then keep (command_poke e self s)
         else if k = COMMAND_PEEK then keep (command_peek e self s)
         else if k = COMMAND_JUMP then keep (command_jump e self s)
         else if k = COMMAND_RUN then keep (command_run e self s)
         else if k = COMMAND_RESET then keep (command_reset e self s)
         else if k = COMMAND_HELP then Some (command_help self mode s)
         else if k = COMMAND_READY then keep (command_ready e self s)
         else if k = COMMAND_PING then keep (command_ping e self s)
         else if k = COMMAND_BOOTLOADER then keep (command_bootloader e self s)
         else if k = COMMAND_BENCHMARK then keep (command_benchmark e self s)
         else if k = COMMAND_IDENTIFY then keep (command_identify e self s)
         else if k = COMMAND_SERVER then keep (command_server e self s)
         else if k = COMMAND_RELOCATE then keep (command_relocate e self s)
         else if k = COMMAND_KERNAL then keep (command_kernal e self s)
         else if k = COMMAND_FILL then keep (command_fill e self s)
         else Some (True, mode, s))"

text \<open>
  \<open>commands_execute\<close> with \<open>command_execute\<close> and \<open>command_none\<close> in it, as these three call each
  other: the files named on a command line without a command are loaded by executing a new
  command line. The first command that fails ends the execution.
\<close>

partial_function (option) commands_execute :: "'w client_env \<Rightarrow> commands \<Rightarrow> int \<Rightarrow> 'w xlink
    \<Rightarrow> (bool \<times> int \<times> 'w xlink) option" where
  "commands_execute e cs mode s =
     (case cs of
        [] \<Rightarrow> Some (True, mode, s)
      | self # rest \<Rightarrow>
          do { (result, mode, s) \<leftarrow>
                 (if mode = MODE_HELP then
                    (case ce_help e (cm_id self) of (r, text) \<Rightarrow> Some (r, mode, print text s))
                  else
                    do { (parsed, self, s) \<leftarrow>
                           command_parse_options e self (s\<lparr>lg := logger_enter (command_get_name self) (lg s)\<rparr>);
                         (result, mode, s) \<leftarrow>
                           (if \<not> parsed then Some (False, mode, s)
                            else if cm_id self = COMMAND_NONE then
                              (if cm_argv self = [] then Some (True, mode, command_print self s)
                               else
                                 (case none_words (\<lambda>f. fs_readable e f (world s)) (cm_argv self) of
                                    Inl bad \<Rightarrow>
                                      Some (False, mode, log_error ''Unknown command: %s'' [Astr bad] (command_print self s))
                                  | Inr ws \<Rightarrow>
                                      commands_execute e (commands_new [] (''ready'' # ws)) mode (command_print self s)))
                            else command_dispatch e self mode s);
                         l \<leftarrow> logger_leave (lg s);
                         Some (result, mode, s\<lparr>lg := l\<rparr>) });
               if \<not> result then Some (result, mode, s) else commands_execute e rest mode s })"

declare commands_execute.simps [code]

text \<open>The branch of \<open>command_none\<close> as a function of its own, and the execution with it.\<close>

definition command_none :: "'w client_env \<Rightarrow> command \<Rightarrow> int \<Rightarrow> 'w xlink
    \<Rightarrow> (bool \<times> int \<times> 'w xlink) option" where
  "command_none e self mode s =
     (if cm_argv self = [] then Some (True, mode, command_print self s)
      else
        (case none_words (\<lambda>f. fs_readable e f (world s)) (cm_argv self) of
           Inl bad \<Rightarrow>
             Some (False, mode, log_error ''Unknown command: %s'' [Astr bad] (command_print self s))
         | Inr ws \<Rightarrow>
             commands_execute e (commands_new [] (''ready'' # ws)) mode (command_print self s)))"

lemma commands_execute_unfold:
  "commands_execute e cs mode s =
     (case cs of
        [] \<Rightarrow> Some (True, mode, s)
      | self # rest \<Rightarrow>
          do { (result, mode, s) \<leftarrow>
                 (if mode = MODE_HELP then
                    (case ce_help e (cm_id self) of (r, text) \<Rightarrow> Some (r, mode, print text s))
                  else
                    do { (parsed, self, s) \<leftarrow>
                           command_parse_options e self (s\<lparr>lg := logger_enter (command_get_name self) (lg s)\<rparr>);
                         (result, mode, s) \<leftarrow>
                           (if \<not> parsed then Some (False, mode, s)
                            else if cm_id self = COMMAND_NONE then command_none e self mode s
                            else command_dispatch e self mode s);
                         l \<leftarrow> logger_leave (lg s);
                         Some (result, mode, s\<lparr>lg := l\<rparr>) });
               if \<not> result then Some (result, mode, s) else commands_execute e rest mode s })"
  unfolding command_none_def by (rule commands_execute.simps)

definition command_execute :: "'w client_env \<Rightarrow> command \<Rightarrow> int \<Rightarrow> 'w xlink
    \<Rightarrow> (bool \<times> int \<times> 'w xlink) option" where
  "command_execute e self mode s = commands_execute e [self] mode s"

definition EXIT_SUCCESS :: int where "EXIT_SUCCESS = 0"
definition EXIT_FAILURE :: int where "EXIT_FAILURE = 1"

fun xlink_main :: "'w client_env \<Rightarrow> string list \<Rightarrow> 'w xlink \<Rightarrow> (int \<times> 'w xlink) option" where
  "xlink_main e [] s = None"
| "xlink_main e (program # argv) s =
     (let s = s\<lparr>lg := logger_enter program (logger_set ''INFO'' (lg s))\<rparr> in
      if argv = [] then Some (EXIT_FAILURE, usage e s)
      else if argv = [''help''] then Some (EXIT_SUCCESS, usage e s)
      else
        do { (ok, _, s) \<leftarrow> commands_execute e (commands_new program argv) MODE_EXEC s;
             l \<leftarrow> logger_leave (lg s);
             Some (if ok then EXIT_SUCCESS else EXIT_FAILURE, s\<lparr>lg := l\<rparr>) })"

end
