(* ===== verification/Bus.thy ===== *)
theory Bus
  imports Driver
begin

text \<open>
  The bus between the host and the Commodore as both see it, for the two back ends that move
  single bytes, the parallel port and the shared memory port: who drives the data lines, which
  byte is on them at a strobe, and which byte is taken off them. From the trace of the host a
  reader recovers this conversation. The contracts \<open>byte_port\<close> and \<open>byte_source\<close> are
  interpreted here on the vtable with either port installed.
\<close>

section \<open>The conversation on the bus\<close>

record bus_lines =
  bl_input :: bool
  bl_latch :: uchar
  bl_read :: "uchar option"
  bl_events :: "bus_event list"

definition blank_lines :: bus_lines where
  "blank_lines = \<lparr>bl_input = False, bl_latch = 0, bl_read = None, bl_events = []\<rparr>"

definition bus_strobe :: "bus_lines \<Rightarrow> bus_lines" where
  "bus_strobe l = l\<lparr>bl_read := None, bl_events := bl_events l @
     [if bl_input l then (case bl_read l of None \<Rightarrow> Ready | Some b \<Rightarrow> Got b) else Sent (bl_latch l)]\<rparr>"

text \<open>
  The parallel port: the INPUT bit of the control register turns the data lines round, and the
  strobe bit going low is the strobe.
\<close>

fun pp_lines_step :: "bus_lines \<Rightarrow> os_event \<Rightarrow> bus_lines" where
  "pp_lines_step l (PpData fd v) = l\<lparr>bl_latch := v\<rparr>"
| "pp_lines_step l (PpRead fd v) = l\<lparr>bl_read := Some v\<rparr>"
| "pp_lines_step l (PpControl fd c) = l\<lparr>bl_input := (c AND PARPORT_CONTROL_INPUT \<noteq> 0), bl_read := None\<rparr>"
| "pp_lines_step l (PpFrob fd m v) =
     (if m = PARPORT_CONTROL_INPUT then l\<lparr>bl_input := (v \<noteq> LOW), bl_read := None\<rparr>
      else if m = PARPORT_CONTROL_STROBE \<and> v = LOW then bus_strobe l else l)"
| "pp_lines_step l e = l"

definition pp_lines :: "os_event list \<Rightarrow> bus_lines" where
  "pp_lines tr = foldl pp_lines_step blank_lines tr"

definition pp_bus :: "os_event list \<Rightarrow> bus_event list" where
  "pp_bus tr = bl_events (pp_lines tr)"

lemma pp_lines_append [simp]: "pp_lines (tr @ es) = foldl pp_lines_step (pp_lines tr) es"
  by (simp add: pp_lines_def)

section \<open>What the parallel port calls trace\<close>

lemma parport_calls:
  assumes "drv_backend s = BParport"
  shows "driver_write sy b s = Some s' \<Longrightarrow> trace s' = trace s @ [PpData (drv_device s) b]"
    and "driver_read sy s = Some (b, s') \<Longrightarrow> trace s' = trace s @ [PpRead (drv_device s) b]"
    and "driver_strobe sy s = Some s' \<Longrightarrow> trace s' = trace s @
       [PpFrob (drv_device s) PARPORT_CONTROL_STROBE LOW, PpFrob (drv_device s) PARPORT_CONTROL_STROBE PARPORT_CONTROL_STROBE]"
    and "driver_input sy s = Some s' \<Longrightarrow> trace s' = trace s @ [PpFrob (drv_device s) PARPORT_CONTROL_INPUT PARPORT_CONTROL_INPUT]"
    and "driver_output sy s = Some s' \<Longrightarrow> trace s' = trace s @ [PpFrob (drv_device s) PARPORT_CONTROL_INPUT LOW]"
    and "driver_wait sy t s = Some (r, s') \<Longrightarrow> trace s' = trace s"
  using assms
  by (auto simp: driver_write_def driver_parport_write_def driver_read_def driver_parport_read_def
      driver_strobe_def driver_parport_strobe_def driver_input_def driver_parport_input_def
      driver_output_def driver_parport_output_def driver_wait_def parport_frob_control_def Let_def
      world_defs HIGH_def LOW_def dest: parport_wait_quiet)

lemma backend_kept: "core s' = core s \<Longrightarrow> drv_backend s' = drv_backend s"
  by (simp add: core_def seat_def)

lemmas driver_backend = driver_core [THEN backend_kept] driver_close_core [THEN backend_kept]
  driver_ping_core [THEN backend_kept]

definition pp_out :: "'w xlink \<Rightarrow> bool" where
  "pp_out s \<longleftrightarrow> drv_backend s = BParport \<and> \<not> bl_input (pp_lines (trace s))"

definition pp_in :: "'w xlink \<Rightarrow> bool" where
  "pp_in s \<longleftrightarrow> drv_backend s = BParport \<and> bl_input (pp_lines (trace s)) \<and> bl_read (pp_lines (trace s)) = None"

lemmas pp_bus_defs = pp_out_def pp_in_def pp_bus_def bus_strobe_def parport_consts

interpretation pp_put: byte_port "driver_prims sy" Sent pp_out pp_bus for sy
proof unfold_locales
  fix s :: "'a xlink" and b s1 s2 t r s3
  assume o: "pp_out s" and w: "d_write (driver_prims sy) b s = Some s1"
    "d_strobe (driver_prims sy) s1 = Some s2" "d_wait (driver_prims sy) t s2 = Some (r, s3)"
  have be: "drv_backend s = BParport" "drv_backend s1 = BParport" "drv_backend s2 = BParport" "drv_backend s3 = BParport"
    using w o driver_backend(4) [of sy b s s1] driver_backend(3) [of sy s1 s2] driver_backend(6) [of sy t s2 r s3]
    by (auto simp: pp_out_def)
  show "pp_out s3 \<and> pp_bus (trace s3) = pp_bus (trace s) @ [Sent b]"
    using o w be parport_calls(1) [OF be(1), of sy b s1] parport_calls(3) [OF be(2), of sy s2] parport_calls(6) [OF be(3), of sy t r s3]
    by (simp add: pp_bus_defs)
qed (simp add: pp_out_def SET_ERROR_def)

interpretation pp_take: byte_source "driver_prims sy" Got pp_in pp_bus for sy
proof unfold_locales
  fix s :: "'a xlink" and b s1 s2 t r s'
  assume i: "pp_in s"
  then have be: "drv_backend s = BParport" by (simp add: pp_in_def)
  show "pp_in s2 \<and> pp_bus (trace s2) = pp_bus (trace s) @ [Got b]"
    if w: "d_read (driver_prims sy) s = Some (b, s1)" "d_strobe (driver_prims sy) s1 = Some s2"
  proof -
    have be': "drv_backend s1 = BParport" "drv_backend s2 = BParport"
      using w be driver_backend(5) [of sy s b s1] driver_backend(3) [of sy s1 s2] by auto
    show ?thesis using i w be' parport_calls(2) [OF be, of sy b s1] parport_calls(3) [OF be'(1), of sy s2]
      by (simp add: pp_bus_defs)
  qed
  show "pp_in s' \<and> pp_bus (trace s') = pp_bus (trace s)" if "d_wait (driver_prims sy) t s = Some (r, s')"
    using i that parport_calls(6) [OF be, of sy t r s'] driver_backend(6) [of sy t s r s'] by (simp add: pp_bus_defs)
qed (simp add: pp_in_def SET_ERROR_def)

section \<open>The shared memory port\<close>

text \<open>
  The direction is a variable of the driver. In the shared segment a strobe is a write of the
  flag; what it means is what was done with the data byte since the one before.
\<close>

fun shm_lines_step :: "bus_event \<times> bus_event list \<Rightarrow> os_event \<Rightarrow> bus_event \<times> bus_event list" where
  "shm_lines_step (p, es) (ShmData v) = (Sent v, es)"
| "shm_lines_step (p, es) (ShmRead v) = (Got v, es)"
| "shm_lines_step (p, es) (ShmFlag v) = (Ready, es @ [p])"
| "shm_lines_step (p, es) e = (p, es)"

definition shm_lines :: "os_event list \<Rightarrow> bus_event \<times> bus_event list" where
  "shm_lines tr = foldl shm_lines_step (Ready, []) tr"

definition shm_bus :: "os_event list \<Rightarrow> bus_event list" where
  "shm_bus tr = snd (shm_lines tr)"

lemma shm_lines_append: "shm_lines (tr @ es) = foldl shm_lines_step (shm_lines tr) es"
  by (simp add: shm_lines_def)

lemma shm_lines_steps [simp]:
  "shm_lines (tr @ [Sleep n]) = shm_lines tr"
  "shm_lines (tr @ [ShmData b]) = (Sent b, shm_bus tr)"
  "shm_lines (tr @ [ShmRead b]) = (Got b, shm_bus tr)"
  "shm_lines (tr @ [ShmFlag v]) = (Ready, shm_bus tr @ [fst (shm_lines tr)])"
  by (cases "shm_lines tr"; simp add: shm_bus_def shm_lines_append)+

lemma shm_poll_out:
  assumes "shm_poll sy c s = Some s'"
  shows "shm_direction s' = shm_direction s \<and> shm_initialized s' = shm_initialized s \<and> shm_lines (trace s') = shm_lines (trace s)"
  by (rule shm_poll.raw_induct [where P = "\<lambda>sy c s y. shm_direction y = shm_direction s \<and>
        shm_initialized y = shm_initialized s \<and> shm_lines (trace y) = shm_lines (trace s)", OF _ assms])
    (auto simp: world_defs case_prod_unfold split: if_splits)

lemma shm_poll_timed_out:
  assumes "shm_poll_timed sy st n c s = Some (r, s')"
  shows "shm_direction s' = shm_direction s \<and> shm_initialized s' = shm_initialized s \<and> shm_lines (trace s') = shm_lines (trace s)"
proof -
  have "shm_direction (snd (r, s')) = shm_direction s \<and> shm_initialized (snd (r, s')) = shm_initialized s \<and>
      shm_lines (trace (snd (r, s'))) = shm_lines (trace s)"
    by (rule shm_poll_timed.raw_induct [where P = "\<lambda>sy st n c s y. shm_direction (snd y) = shm_direction s \<and>
          shm_initialized (snd y) = shm_initialized s \<and> shm_lines (trace (snd y)) = shm_lines (trace s)", OF _ assms])
      (auto simp: world_defs case_prod_unfold split: if_splits)
  then show ?thesis by simp
qed

lemma shm_wait_out:
  "driver_shm_wait sy t s = Some (r, s') \<Longrightarrow>
   shm_direction s' = shm_direction s \<and> shm_initialized s' = shm_initialized s \<and> shm_lines (trace s') = shm_lines (trace s)"
  by (auto simp: driver_shm_wait_def case_prod_unfold Let_def bind_iff world_defs split: if_splits
      dest!: shm_poll_out shm_poll_timed_out)

text \<open>What the calls of the port do to it: direction, segment and lines.\<close>

lemma shm_calls:
  assumes "drv_backend s = BShm"
  shows "driver_write sy b s = Some s' \<Longrightarrow> shm_direction s = STATE_OUTPUT \<Longrightarrow>
      s' = act (ShmData b) (shm_set_data (sy_shm sy) b) s"
    and "driver_read sy s = Some (b, s') \<Longrightarrow> s' = emit (ShmRead b) s"
    and "driver_strobe sy s = Some s' \<Longrightarrow> \<exists>v. s' = act (ShmFlag v) (shm_set_flag (sy_shm sy) v) s"
    and "driver_input sy s = Some s' \<Longrightarrow> s' = s\<lparr>shm_direction := STATE_INPUT\<rparr>"
    and "driver_output sy s = Some s' \<Longrightarrow> s' = s\<lparr>shm_direction := STATE_OUTPUT\<rparr>"
    and "driver_wait sy t s = Some (r, s') \<Longrightarrow> shm_direction s' = shm_direction s \<and>
      shm_initialized s' = shm_initialized s \<and> shm_lines (trace s') = shm_lines (trace s)"
  using assms
  by (auto simp: driver_write_def driver_shm_write_def driver_read_def driver_shm_read_def
      driver_strobe_def driver_shm_strobe_def shm_write_flag_def driver_input_def driver_shm_input_def
      driver_output_def driver_shm_output_def driver_wait_def Let_def dest: shm_wait_out)

text \<open>\<open>shm_out\<close>: the port sends; \<open>shm_talk\<close> and \<open>shm_listen\<close>: it is also attached and between bytes.\<close>

definition shm_out :: "'w xlink \<Rightarrow> bool" where
  "shm_out s \<longleftrightarrow> drv_backend s = BShm \<and> shm_direction s = STATE_OUTPUT"

definition shm_between :: "'w xlink \<Rightarrow> bool" where
  "shm_between s \<longleftrightarrow> drv_backend s = BShm \<and> shm_initialized s \<and> fst (shm_lines (trace s)) = Ready"

definition shm_talk :: "'w xlink \<Rightarrow> bool" where
  "shm_talk s \<longleftrightarrow> shm_between s \<and> shm_direction s = STATE_OUTPUT"

definition shm_listen :: "'w xlink \<Rightarrow> bool" where
  "shm_listen s \<longleftrightarrow> shm_between s \<and> shm_direction s = STATE_INPUT"

lemmas shm_bus_defs = shm_out_def shm_talk_def shm_listen_def shm_between_def shm_bus_def

lemma shm_puts:
  assumes "shm_out s" and w: "driver_write sy b s = Some s1" "driver_strobe sy s1 = Some s2"
    "driver_wait sy t s2 = Some (r, s3)"
  shows "shm_out s3 \<and> shm_initialized s3 = shm_initialized s \<and>
    shm_lines (trace s3) = (Ready, shm_bus (trace s) @ [Sent b])"
proof -
  have be: "drv_backend s = BShm" "drv_backend s1 = BShm" "drv_backend s2 = BShm" "drv_backend s3 = BShm"
    using w assms(1) driver_backend(4) [of sy b s s1] driver_backend(3) [of sy s1 s2] driver_backend(6) [of sy t s2 r s3]
    by (auto simp: shm_out_def)
  have s1: "s1 = act (ShmData b) (shm_set_data (sy_shm sy) b) s"
    using shm_calls(1) [OF be(1) w(1)] assms(1) by (simp add: shm_out_def)
  obtain v where s2: "s2 = act (ShmFlag v) (shm_set_flag (sy_shm sy) v) s1"
    using shm_calls(3) [OF be(2) w(2)] by blast
  have "shm_lines (trace s2) = (Ready, shm_bus (trace s) @ [Sent b])"
    using shm_lines_steps(4) [of "trace s @ [ShmData b]" v] by (simp add: s1 s2 shm_bus_def)
  moreover have "shm_direction s2 = STATE_OUTPUT" "shm_initialized s2 = shm_initialized s"
    using assms(1) by (simp_all add: s1 s2 act_def shm_out_def)
  ultimately show ?thesis using shm_calls(6) [OF be(3) w(3)] be(4) by (simp add: shm_out_def)
qed

interpretation shm_put: byte_port "driver_prims sy" Sent shm_out shm_bus for sy
proof unfold_locales
  fix s :: "'a xlink" and b s1 s2 t r s3
  assume "shm_out s" "d_write (driver_prims sy) b s = Some s1"
    "d_strobe (driver_prims sy) s1 = Some s2" "d_wait (driver_prims sy) t s2 = Some (r, s3)"
  with shm_puts [of s sy b s1 s2 t r s3] show "shm_out s3 \<and> shm_bus (trace s3) = shm_bus (trace s) @ [Sent b]"
    by (simp add: shm_bus_def)
qed (simp add: shm_out_def SET_ERROR_def)

interpretation shm_say: byte_port "driver_prims sy" Sent shm_talk shm_bus for sy
proof unfold_locales
  fix s :: "'a xlink" and b s1 s2 t r s3
  assume "shm_talk s" and w: "d_write (driver_prims sy) b s = Some s1"
    "d_strobe (driver_prims sy) s1 = Some s2" "d_wait (driver_prims sy) t s2 = Some (r, s3)"
  with shm_puts [of s sy b s1 s2 t r s3] show "shm_talk s3 \<and> shm_bus (trace s3) = shm_bus (trace s) @ [Sent b]"
    by (simp add: shm_bus_defs)
qed (simp add: shm_bus_defs SET_ERROR_def)

interpretation shm_take: byte_source "driver_prims sy" Got shm_listen shm_bus for sy
proof unfold_locales
  fix s :: "'a xlink" and b s1 s2 t r s'
  assume i: "shm_listen s"
  then have be: "drv_backend s = BShm" by (simp add: shm_bus_defs)
  show "shm_listen s2 \<and> shm_bus (trace s2) = shm_bus (trace s) @ [Got b]"
    if w: "d_read (driver_prims sy) s = Some (b, s1)" "d_strobe (driver_prims sy) s1 = Some s2"
  proof -
    have s1: "s1 = emit (ShmRead b) s" using shm_calls(2) [OF be] w(1) by simp
    have be1: "drv_backend s1 = BShm" using be by (simp add: s1 emit_def)
    obtain v where "s2 = act (ShmFlag v) (shm_set_flag (sy_shm sy) v) s1"
      using shm_calls(3) [OF be1] w(2) by auto
    then show ?thesis using i shm_lines_steps(4) [of "trace s @ [ShmRead b]" v]
      by (simp add: s1 shm_bus_defs act_def emit_def)
  qed
  show "shm_listen s' \<and> shm_bus (trace s') = shm_bus (trace s)" if "d_wait (driver_prims sy) t s = Some (r, s')"
    using i that shm_calls(6) [OF be, of sy t r s'] driver_backend(6) [of sy t s r s'] by (simp add: shm_bus_defs)
qed (simp add: shm_bus_defs SET_ERROR_def)

section \<open>Properties\<close>

text \<open>A send over the parallel port with the lines in output direction that returns either reports success and has strobed exactly
  the bytes of the data, in order, onto the data lines, or fails with the parallel port
  error after strobing a non-empty proper-or-full prefix of them, whose length the message names.\<close>

theorem parport_send_bus:
  assumes "driver_send sy data s = Some (r, s')" "pp_out s" "data \<noteq> []"
  shows "(r \<and> pp_bus (trace s') = pp_bus (trace s) @ map Sent data) \<or>
    (\<not> r \<and> err_code s' = XLINK_ERROR_PARPORT \<and>
      (\<exists>k < length data. pp_bus (trace s') = pp_bus (trace s) @ map Sent (take (Suc k) data) \<and>
         err_message s' = (''transfer timeout (%d of %d bytes sent)'', [Aint (int k), Aint (int (length data))])))"
  using pp_put.send_wire [of XLINK_ERROR_PARPORT sy 0 "int (length data)" False data s r s'] assms
  by (simp add: driver_send_def driver_parport_send_def pp_out_def)

theorem parport_send_bus_witness:
  "map_option (\<lambda>(r, s). pp_bus (trace s)) (driver_send sample_sys [1, 2] (sample_state BParport [0x80, 0x00])) = Some [Sent 1, Sent 2]"
proof -
  let ?run = "driver_send sample_sys [1, 2] (sample_state BParport [0x80, 0x00])"
  have "map_option fst ?run = Some True" by code_simp
  then obtain s' where run: "?run = Some (True, s')" by auto
  have "pp_bus (trace (sample_state BParport [0x80, 0x00])) = []" "pp_out (sample_state BParport [0x80, 0x00])"
    by code_simp+
  with parport_send_bus [OF run] run show ?thesis by (simp add: sample_state_def)
qed

text \<open>A send over the shared memory port in output direction carries exactly the data when it
  reports success; a failed one sets the file error and has carried a prefix.\<close>

theorem shm_send_bus:
  assumes "driver_send sy data s = Some (r, s')" "drv_backend s = BShm" "shm_direction s = STATE_OUTPUT" "data \<noteq> []"
  shows "(r \<and> shm_bus (trace s') = shm_bus (trace s) @ map Sent data) \<or>
    (\<not> r \<and> err_code s' = XLINK_ERROR_FILE \<and>
      (\<exists>k < length data. shm_bus (trace s') = shm_bus (trace s) @ map Sent (take (Suc k) data) \<and>
         err_message s' = (''transfer timeout (%d of %d bytes sent)'', [Aint (int k), Aint (int (length data))])))"
  using shm_put.send_wire [of XLINK_ERROR_FILE sy 0 "int (length data)" False data s r s'] assms
  by (simp add: driver_send_def driver_shm_send_def shm_out_def)

theorem shm_send_bus_witness:
  "map_option (\<lambda>(r, s). shm_bus (trace s)) (driver_send sample_sys [1, 2] (sample_state BShm [0x01, 0x00])) = Some [Sent 1, Sent 2]"
proof -
  let ?run = "driver_send sample_sys [1, 2] (sample_state BShm [0x01, 0x00])"
  have "map_option fst ?run = Some True" by code_simp
  then obtain s' where run: "?run = Some (True, s')" by auto
  have "shm_bus (trace (sample_state BShm [0x01, 0x00])) = []" by code_simp
  with shm_send_bus [OF run] run show ?thesis by (simp add: sample_state_def)
qed

end
