(* ===== verification/Xlink_Bus.thy ===== *)
theory Xlink_Bus
  imports Xlink_Laws Bus
begin

text \<open>
  The requests of xlink.c on the bus: the library's vtable keeps the contract \<open>answer_driver\<close>
  with the parallel port and with the shared memory port, and so every request that succeeds has
  held a fixed conversation with the server.
\<close>

section \<open>The library on the bus\<close>

fun pp_idle :: "os_event \<Rightarrow> bool" where
  "pp_idle (PpData fd v) = False"
| "pp_idle (PpFrob fd m v) = (m \<noteq> PARPORT_CONTROL_STROBE)"
| "pp_idle e = True"

lemma trace_errors [simp]: "trace (CLEAR_ERROR_IF q s) = trace s" "trace (SET_ERROR c f a s) = trace s"
  by (simp_all add: CLEAR_ERROR_IF_def SET_ERROR_def)

lemma bus_quiet:
  "bl_events (pp_lines_step l e) = bl_events l" if "pp_idle e"
  using that by (cases "(l, e)" rule: pp_lines_step.cases) auto

lemma pp_bus_quiet: "list_all pp_idle es \<Longrightarrow> pp_bus (tr @ es) = pp_bus tr"
  by (induction es rule: rev_induct) (auto simp: pp_bus_def bus_quiet)

lemma parport_open_bus:
  "driver_parport_open sy s = Some (r, s') \<Longrightarrow> pp_bus (trace s') = pp_bus (trace s)"
  by (auto simp: driver_parport_open_def parport_init_def parport_set_control_def case_prod_unfold Let_def
      pp_bus_quiet simp del: pp_lines_append split: if_splits)

lemma parport_close_bus:
  assumes "driver_close sy s = Some s'" "drv_backend s = BParport"
  shows "pp_bus (trace s') = pp_bus (trace s)"
  using assms
  by (auto simp: driver_close_def driver_input_def driver_parport_input_def driver_parport_close_def
      parport_frob_control_def Let_def act_def pp_bus_quiet parport_consts simp del: pp_lines_append)

definition pp_port :: "'w xlink \<Rightarrow> bool" where
  "pp_port s \<longleftrightarrow> drv_backend s = BParport"

interpretation ppb: answer_driver "libxlink_driver sy" Sent pp_port pp_out pp_bus Ready Got pp_in for sy
proof unfold_locales
  fix s s' :: "'a xlink" and r q bytes n bs
  have d: "d_open (libxlink_driver sy) = driver_open sy" "d_close (libxlink_driver sy) = driver_close sy"
    "d_output (libxlink_driver sy) = driver_output sy" "d_ping (libxlink_driver sy) = driver_ping sy"
    "d_send (libxlink_driver sy) = driver_send sy" "d_receive (libxlink_driver sy) = driver_receive sy"
    "d_input (libxlink_driver sy) = driver_input sy" "d_strobe (libxlink_driver sy) = driver_strobe sy"
    by (simp_all add: libxlink_driver_def)
  note out = pp_port_def
  show "d_open (libxlink_driver sy) s = Some (r, s') \<Longrightarrow> pp_port s \<Longrightarrow>
      pp_port s' \<and> pp_bus (trace s') = pp_bus (trace s)"
    using parport_open_bus [of sy s r s'] parport_open_result [of sy s r s']
    by (auto simp: d out driver_open_def backend_open_def seat_def)
  show "d_close (libxlink_driver sy) s = Some s' \<Longrightarrow> pp_port s \<Longrightarrow>
      pp_port s' \<and> pp_bus (trace s') = pp_bus (trace s)"
    using parport_close_bus [of sy s s'] driver_backend(9) [of sy s s'] by (auto simp: d out)
  have outs: "pp_out t' \<and> pp_bus (trace t') = pp_bus (trace t)"
    if "driver_output sy t = Some t'" "pp_port t" for t t' :: "'a xlink"
    using that parport_calls(5) [of t sy t'] driver_backend(2) [of sy t t'] by (simp add: out pp_bus_defs)
  then show "d_output (libxlink_driver sy) s = Some s' \<Longrightarrow> pp_port s \<Longrightarrow>
      pp_out s' \<and> pp_bus (trace s') = pp_bus (trace s)" by (simp add: d)
  show "d_send (libxlink_driver sy) bytes s = Some (r, s') \<Longrightarrow> pp_out s \<Longrightarrow>
      pp_out s' \<and> (r \<longrightarrow> pp_bus (trace s') = pp_bus (trace s) @ map Sent bytes)"
  proof -
    assume s: "d_send (libxlink_driver sy) bytes s = Some (r, s')" and p: "pp_out s"
    have run: "handshake_send XLINK_ERROR_PARPORT (driver_prims sy) 0 (int (length bytes)) False bytes s = Some (r, s')"
      using s p by (simp add: d pp_out_def driver_send_def driver_parport_send_def)
    show ?thesis
      using pp_put.send_outp [OF run p] pp_put.send_wire [OF run p] run by (cases bytes) auto
  qed
  show "d_ping (libxlink_driver sy) s = Some (r, s') \<Longrightarrow> pp_port s \<Longrightarrow>
      pp_port s' \<and> pp_bus (trace s') = pp_bus (trace s) @ [Sent 0xfd]"
  proof -
    assume s: "d_ping (libxlink_driver sy) s = Some (r, s')" and p: "pp_port s"
    then obtain s1 s2 s3 where o: "driver_output sy s = Some s1" "driver_write sy 0xfd s1 = Some s2"
        "driver_strobe sy s2 = Some s3" "driver_wait sy 250 s3 = Some (r, s')"
      by (auto simp: d out driver_ping_def driver_parport_ping_def bind_Some_iff)
    have "d_write (driver_prims sy) 0xfd s1 = Some s2" "d_strobe (driver_prims sy) s2 = Some s3"
      "d_wait (driver_prims sy) 250 s3 = Some (r, s')" using o by simp_all
    from pp_put.put_byte [OF _ this] outs [OF o(1) p] show ?thesis by (simp add: out pp_out_def)
  qed
  show "pp_port (CLEAR_ERROR_IF q s) = pp_port s"
    by (simp add: out CLEAR_ERROR_IF_def)
  show "pp_out s \<Longrightarrow> pp_port s" by (simp add: out pp_out_def)
  show "pp_in s \<Longrightarrow> pp_port s" by (simp add: out pp_in_def)
  show "pp_in s' \<and> pp_bus (trace s') = pp_bus (trace s) @ [Ready]"
    if "turn (libxlink_driver sy) s = Some s'" "pp_out s"
  proof -
    from that(1) obtain t where t: "driver_input sy s = Some t" "driver_strobe sy t = Some s'"
      by (auto simp: turn_def d bind_Some_iff)
    have be: "drv_backend s = BParport" "drv_backend t = BParport" "drv_backend s' = BParport"
      using that(2) driver_backend(1) [OF t(1)] driver_backend(3) [OF t(2)] by (auto simp: pp_out_def)
    show ?thesis using parport_calls(4) [OF be(1) t(1)] parport_calls(3) [OF be(2) t(2)] be
      by (simp add: pp_bus_defs)
  qed
  show "pp_in s' \<and> (r \<longrightarrow> length bs = n) \<and> pp_bus (trace s') = pp_bus (trace s) @ map Got bs"
    if "d_receive (libxlink_driver sy) n s = Some ((r, bs), s')" "pp_in s"
  proof -
    have "handshake_receive XLINK_ERROR_PARPORT (driver_prims sy) 0 (int n) False n [] s = Some ((r, bs), s')"
      using that by (simp add: d pp_in_def driver_receive_def driver_parport_receive_def)
    from pp_take.receive_wire [OF this that(2)] this show ?thesis by (cases n) auto
  qed
qed

text \<open>The shared memory port, once its segment is attached.\<close>

lemma shm_say_send:
  assumes "driver_send sy bytes s = Some (r, s')" "shm_talk s"
  shows "shm_talk s' \<and> (r \<longrightarrow> shm_bus (trace s') = shm_bus (trace s) @ map Sent bytes)"
proof -
  have run: "handshake_send XLINK_ERROR_FILE (driver_prims sy) 0 (int (length bytes)) False bytes s = Some (r, s')"
    using assms by (simp add: shm_bus_defs driver_send_def driver_shm_send_def)
  show ?thesis
    using shm_say.send_outp [OF run assms(2)] shm_say.send_wire [OF run assms(2)] run by (cases bytes) auto
qed

interpretation shmb: answer_driver "libxlink_driver sy" Sent shm_between shm_talk shm_bus Ready Got shm_listen for sy
proof unfold_locales
  fix s s' :: "'a xlink" and r q bytes n bs
  have d: "d_open (libxlink_driver sy) = driver_open sy" "d_close (libxlink_driver sy) = driver_close sy"
    "d_output (libxlink_driver sy) = driver_output sy" "d_ping (libxlink_driver sy) = driver_ping sy"
    "d_send (libxlink_driver sy) = driver_send sy" "d_receive (libxlink_driver sy) = driver_receive sy"
    "d_input (libxlink_driver sy) = driver_input sy" "d_strobe (libxlink_driver sy) = driver_strobe sy"
    by (simp_all add: libxlink_driver_def)
  show "d_open (libxlink_driver sy) s = Some (r, s') \<Longrightarrow> shm_between s \<Longrightarrow>
      shm_between s' \<and> shm_bus (trace s') = shm_bus (trace s)"
    by (auto simp: d shm_bus_defs driver_open_def backend_open_def driver_shm_open_def driver_input_def driver_shm_input_def
        CLEAR_ERROR_IF_def ask_def Let_def)
  show "d_close (libxlink_driver sy) s = Some s' \<Longrightarrow> shm_between s \<Longrightarrow>
      shm_between s' \<and> shm_bus (trace s') = shm_bus (trace s)"
    by (auto simp: d shm_bus_defs driver_close_def driver_input_def driver_shm_input_def driver_shm_close_def)
  have outs: "shm_talk t' \<and> shm_bus (trace t') = shm_bus (trace t)"
    if "driver_output sy t = Some t'" "shm_between t" for t t' :: "'a xlink"
    using that by (auto simp: shm_bus_defs driver_output_def driver_shm_output_def)
  then show "d_output (libxlink_driver sy) s = Some s' \<Longrightarrow> shm_between s \<Longrightarrow>
      shm_talk s' \<and> shm_bus (trace s') = shm_bus (trace s)" by (simp add: d)
  show "d_send (libxlink_driver sy) bytes s = Some (r, s') \<Longrightarrow> shm_talk s \<Longrightarrow>
      shm_talk s' \<and> (r \<longrightarrow> shm_bus (trace s') = shm_bus (trace s) @ map Sent bytes)"
    using shm_say_send by (simp add: d)
  show "shm_between s' \<and> shm_bus (trace s') = shm_bus (trace s) @ [Sent 0xfd]"
    if s: "d_ping (libxlink_driver sy) s = Some (r, s')" and p: "shm_between s"
  proof -
    obtain s1 s2 s3 where o: "driver_output sy s = Some s1" "driver_write sy 0xfd s1 = Some s2"
        "driver_strobe sy s2 = Some s3" "driver_wait sy 250 s3 = Some (r, s')"
      using s p by (auto simp: d shm_between_def driver_ping_def driver_shm_ping_def bind_Some_iff)
    have "d_write (driver_prims sy) 0xfd s1 = Some s2" "d_strobe (driver_prims sy) s2 = Some s3"
      "d_wait (driver_prims sy) 250 s3 = Some (r, s')" using o by simp_all
    from shm_say.put_byte [OF _ this] outs [OF o(1) p] show ?thesis by (simp add: shm_talk_def)
  qed
  show "shm_between (CLEAR_ERROR_IF q s) = shm_between s" by (simp add: shm_between_def CLEAR_ERROR_IF_def)
  show "shm_talk s \<Longrightarrow> shm_between s" "shm_listen s \<Longrightarrow> shm_between s"
    by (simp_all add: shm_talk_def shm_listen_def)
  show "shm_listen s' \<and> shm_bus (trace s') = shm_bus (trace s) @ [Ready]"
    if "turn (libxlink_driver sy) s = Some s'" "shm_talk s"
  proof -
    from that(1) obtain t where t: "driver_input sy s = Some t" "driver_strobe sy t = Some s'"
      by (auto simp: turn_def d bind_Some_iff)
    have be: "drv_backend s = BShm" using that(2) by (simp add: shm_bus_defs)
    have "t = s\<lparr>shm_direction := STATE_INPUT\<rparr>" using shm_calls(4) [OF be t(1)] .
    with be shm_calls(3) [of t sy s'] t(2) that(2) show ?thesis
      by (auto simp: shm_bus_defs act_def)
  qed
  show "shm_listen s' \<and> (r \<longrightarrow> length bs = n) \<and> shm_bus (trace s') = shm_bus (trace s) @ map Got bs"
    if "d_receive (libxlink_driver sy) n s = Some ((r, bs), s')" "shm_listen s"
  proof -
    have "handshake_receive XLINK_ERROR_FILE (driver_prims sy) 0 (int n) False n [] s = Some ((r, bs), s')"
      using that by (simp add: d shm_bus_defs driver_receive_def driver_shm_receive_def)
    from shm_take.receive_wire [OF this that(2)] this show ?thesis by (cases n) auto
  qed
qed

section \<open>Requests\<close>

text \<open>A load that reports success over the parallel port has put on the port, in this order, a ping
  byte, the load command with the range of the data, and the data; nothing else.\<close>

theorem parport_load_bus:
  assumes "xlink_load (libxlink_driver sy) m b a bytes s = Some (True, s')" "drv_backend s = BParport"
  shows "pp_bus (trace s') =
    pp_bus (trace s) @ map Sent (0xfd # range_command XLINK_COMMAND_LOAD m b a (length bytes) @ bytes)"
  using ppb.load_says [OF assms(1)] assms(2) by (simp add: pp_port_def)

theorem parport_load_bus_witness:
  "map_option (\<lambda>(r, s). pp_bus (trace s)) (xlink_load (libxlink_driver sample_sys) 0x37 0 0x0801 [9, 8]
     (sample_state BParport [0, 0x80, 0, 0x80, 0, 0x80, 0, 0x80, 0, 0x80, 0])) =
   Some (map Sent [0xfd, 1, 0x37, 0, 0x01, 0x08, 0x03, 0x08, 9, 8])"
proof -
  let ?s = "sample_state BParport [0, 0x80, 0, 0x80, 0, 0x80, 0, 0x80, 0, 0x80, 0]"
  let ?run = "xlink_load (libxlink_driver sample_sys) 0x37 0 0x0801 [9, 8] ?s"
  have "map_option fst ?run = Some True" by code_simp
  then obtain s' where run: "?run = Some (True, s')" by auto
  have "pp_bus (trace ?s) = []" "drv_backend ?s = BParport" by code_simp+
  moreover have "range_command XLINK_COMMAND_LOAD 0x37 0 0x0801 (Suc (Suc 0)) = [1, 0x37, 0, 0x01, 0x08, 0x03, 0x08]"
    by code_simp
  ultimately show ?thesis using parport_load_bus [OF run] run by simp
qed

text \<open>A poke, a jump and a run that report success have put a ping byte and their command on the
  port; the jump address goes out high byte first.\<close>

theorem parport_command_bus:
  assumes "drv_backend s = BParport"
    and "xlink_poke (libxlink_driver sy) m b a v s = Some (True, s') \<and> bytes = [3, m, b, lo (ucast a), hi (ucast a), v] \<or>
      xlink_jump (libxlink_driver sy) m b a s = Some (True, s') \<and> bytes = [5, m, b, hi (ucast a), lo (ucast a)] \<or>
      xlink_run (libxlink_driver sy) s = Some (True, s') \<and> bytes = [6]"
  shows "pp_bus (trace s') = pp_bus (trace s) @ map Sent (0xfd # bytes)"
  using assms ppb.command_says [of sy _ s s']
  by (auto simp: pp_port_def xlink_poke_def xlink_jump_def xlink_run_def command_codes)

theorem parport_command_bus_witness:
  "map_option (\<lambda>(r, s). pp_bus (trace s)) (xlink_jump (libxlink_driver sample_sys) 0x37 0 0x080d
     (sample_state BParport [0, 0x80, 0, 0x80, 0, 0x80, 0])) = Some (map Sent [0xfd, 5, 0x37, 0, 0x08, 0x0d])"
proof -
  let ?s = "sample_state BParport [0, 0x80, 0, 0x80, 0, 0x80, 0]"
  let ?run = "xlink_jump (libxlink_driver sample_sys) 0x37 0 0x080d ?s"
  have "map_option fst ?run = Some True" by code_simp
  then obtain s' where run: "?run = Some (True, s')" by auto
  have "pp_bus (trace ?s) = []" "drv_backend ?s = BParport" by code_simp+
  moreover have "[5, 0x37, 0, hi (ucast (0x080d :: ushort)), lo (ucast (0x080d :: ushort))] = [5, 0x37, 0, 0x08, 0x0d]"
    by code_simp
  ultimately show ?thesis
    using parport_command_bus [of ?s sample_sys _ _ _ _ s', OF _ disjI2 [OF disjI1 [OF conjI [OF run refl]]]] run
    by simp
qed

text \<open>Injected code is loaded to its address in the machine's memory configuration, and the
  server is then given the address minus one, high byte first, to push and return to.\<close>

theorem parport_inject_bus:
  assumes "xlink_inject (libxlink_driver sy) a code s = Some (True, s')" "drv_backend s = BParport"
  shows "pp_bus (trace s') = pp_bus (trace s) @ map Sent
    ((0xfd # range_command XLINK_COMMAND_LOAD (m_memory (machine s)) (m_bank (machine s)) a (length code) @ code) @
    [0xfd, XLINK_COMMAND_INJECT, hi (ucast (a - 1)), lo (ucast (a - 1))])"
  using ppb.inject_says [OF assms(1)] assms(2) by (simp add: pp_port_def)

theorem parport_inject_bus_witness:
  "map_option (\<lambda>(r, s). pp_bus (trace s)) (xlink_inject (libxlink_driver sample_sys) 0xc000 [0x60]
     (sample_state BParport [0, 0x80, 0, 0x80, 0, 0x80, 0, 0x80, 0, 0x80, 0, 0x80, 0, 0x80])) =
   Some (map Sent [0xfd, 1, 0x37, 0, 0x00, 0xc0, 0x01, 0xc0, 0x60, 0xfd, 7, 0xbf, 0xff])"
proof -
  let ?s = "sample_state BParport [0, 0x80, 0, 0x80, 0, 0x80, 0, 0x80, 0, 0x80, 0, 0x80, 0, 0x80]"
  let ?run = "xlink_inject (libxlink_driver sample_sys) 0xc000 [0x60] ?s"
  have "map_option fst ?run = Some True" by code_simp
  then obtain s' where run: "?run = Some (True, s')" by auto
  have "pp_bus (trace ?s) = []" "drv_backend ?s = BParport" "m_memory (machine ?s) = 0x37" "m_bank (machine ?s) = 0" by code_simp+
  moreover have "range_command XLINK_COMMAND_LOAD 0x37 0 0xc000 (Suc 0) = [1, 0x37, 0, 0x00, 0xc0, 0x01, 0xc0]"
    "[0xfd, XLINK_COMMAND_INJECT, hi (ucast (0xc000 - 1 :: ushort)), lo (ucast (0xc000 - 1 :: ushort))] = [0xfd, 7, 0xbf, 0xff]"
    by code_simp+
  ultimately show ?thesis using parport_inject_bus [OF run] run by simp
qed

text \<open>A relocation that reports success has sent the code of the server for that address without
  the two address bytes of the program file, with bit 7 of the memory configuration set, and
  then a jump to it.\<close>

theorem parport_relocate_bus:
  assumes "xlink_relocate (libxlink_driver sy) server a s = Some (True, s')" "drv_backend s = BParport"
    and "server (machine s) a = Some code"
  shows "pp_bus (trace s') = pp_bus (trace s) @ map Sent
    ((0xfd # range_command XLINK_COMMAND_LOAD (m_memory (machine s) OR 0x80) (m_bank (machine s)) a (length code - 2) @ drop 2 code) @
    [0xfd, XLINK_COMMAND_JUMP, m_memory (machine s) OR 0x80, m_bank (machine s), hi (ucast a), lo (ucast a)])"
  using ppb.relocate_says [OF assms(1) _ assms(3)] assms(2) by (simp add: pp_port_def)

theorem parport_relocate_bus_witness:
  "map_option (\<lambda>(r, s). length (pp_bus (trace s)))
     (xlink_relocate (libxlink_driver sample_sys) (\<lambda>m a. Some [0, 0xc0, 0x60]) 0xc000
     (sample_state BParport [0, 0x80, 0, 0x80, 0, 0x80, 0, 0x80, 0, 0x80, 0, 0x80, 0, 0x80, 0, 0x80])) = Some 15"
proof -
  let ?s = "sample_state BParport [0, 0x80, 0, 0x80, 0, 0x80, 0, 0x80, 0, 0x80, 0, 0x80, 0, 0x80, 0, 0x80]"
  let ?run = "xlink_relocate (libxlink_driver sample_sys) (\<lambda>m a. Some [0, 0xc0, 0x60]) 0xc000 ?s"
  have "map_option fst ?run = Some True" by code_simp
  then obtain s' where run: "?run = Some (True, s')" by auto
  have "pp_bus (trace ?s) = []" "drv_backend ?s = BParport" by code_simp+
  then show ?thesis
    using parport_relocate_bus [OF run, of "[0, 0xc0, 0x60]"] run by (simp add: range_command_def Let_def)
qed


text \<open>A save that reports success over the parallel port has sent a ping byte and the save command
  with the range, has turned the lines round and strobed once, and returns exactly as many bytes
  as were asked for: those it then read off the lines, in order, each with one strobe.\<close>

theorem parport_save_bus:
  assumes "xlink_save (libxlink_driver sy) m b a n s = Some ((True, bytes), s')" "drv_backend s = BParport"
  shows "length bytes = n \<and> pp_bus (trace s') =
    pp_bus (trace s) @ map Sent (0xfd # range_command XLINK_COMMAND_SAVE m b a n) @ Ready # map Got bytes"
  using ppb.save_says [OF assms(1)] assms(2) by (simp add: pp_port_def)

theorem parport_save_bus_witness:
  "map_option (\<lambda>((r, bytes), s). (bytes, pp_bus (trace s))) (xlink_save (libxlink_driver sample_sys) 0x37 0 0x0801 2
     (sample_state BParport [0, 0x80, 0, 0x80, 0, 0x80, 0, 0x80, 0, 0x80, 11, 0, 22])) =
   Some ([11, 22], map Sent [0xfd, 2, 0x37, 0, 0x01, 0x08, 0x03, 0x08] @ [Ready, Got 11, Got 22])"
proof -
  let ?s = "sample_state BParport [0, 0x80, 0, 0x80, 0, 0x80, 0, 0x80, 0, 0x80, 11, 0, 22]"
  let ?run = "xlink_save (libxlink_driver sample_sys) 0x37 0 0x0801 2 ?s"
  have "map_option fst ?run = Some (True, [11, 22])" by code_simp
  then obtain s' where run: "?run = Some ((True, [11, 22]), s')" by auto
  have "pp_bus (trace ?s) = []" "drv_backend ?s = BParport" by code_simp+
  moreover have "range_command XLINK_COMMAND_SAVE 0x37 0 0x0801 2 = [2, 0x37, 0, 0x01, 0x08, 0x03, 0x08]"
    by code_simp
  ultimately show ?thesis using parport_save_bus [OF run] run by simp
qed

text \<open>A peek that reports success returns the one byte that the server put on the lines after the
  ping byte, the peek command and the turn-round.\<close>

theorem parport_peek_bus:
  assumes "xlink_peek (libxlink_driver sy) m b a s = Some ((True, bytes), s')" "drv_backend s = BParport"
  shows "\<exists>v. bytes = [v] \<and> pp_bus (trace s') =
    pp_bus (trace s) @ map Sent [0xfd, 4, m, b, lo (ucast a), hi (ucast a)] @ [Ready, Got v]"
  using ppb.peek_says [OF assms(1)] assms(2) by (auto simp: pp_port_def command_codes length_Suc_conv)

theorem parport_peek_bus_witness:
  "map_option (\<lambda>((r, bytes), s). pp_bus (trace s)) (xlink_peek (libxlink_driver sample_sys) 0x37 0 0xd020
     (sample_state BParport [0, 0x80, 0, 0x80, 0, 0x80, 0, 0x80, 14])) =
   Some (map Sent [0xfd, 4, 0x37, 0, 0x20, 0xd0] @ [Ready, Got 14])"
proof -
  let ?s = "sample_state BParport [0, 0x80, 0, 0x80, 0, 0x80, 0, 0x80, 14]"
  let ?run = "xlink_peek (libxlink_driver sample_sys) 0x37 0 0xd020 ?s"
  have "map_option fst ?run = Some (True, [14])" by code_simp
  then obtain s' where run: "?run = Some ((True, [14]), s')" by auto
  have "pp_bus (trace ?s) = []" "drv_backend ?s = BParport" by code_simp+
  moreover have "[lo (ucast (0xd020 :: ushort)), hi (ucast (0xd020 :: ushort))] = [0x20, 0xd0]" by code_simp
  ultimately show ?thesis using parport_peek_bus [OF run] run by simp
qed

text \<open>An identification that reports success took a length, a name of that length modulo 16, and
  nine bytes, not all of them 255, off the lines, and fills the server description from them:
  the name ends with a zero byte, and the fields are the nine bytes.\<close>

theorem parport_identify_bus:
  assumes "xlink_identify (libxlink_driver sy) si s = Some ((True, si'), s')" "drv_backend s = BParport"
  shows "\<exists>b name bytes. length name = unat (b AND 0x0f) \<and> length bytes = 9 \<and> (\<exists>x \<in> set bytes. x \<noteq> 0xff) \<and>
    si' = identify_fields bytes (si\<lparr>si_id := (name @ drop (length name) (si_id si))[length name := 0]\<rparr>) \<and>
    pp_bus (trace s') = pp_bus (trace s) @ map Sent [0xfd, 0xfe] @ Ready # map Got (b # name @ bytes)"
proof -
  have "identify_checksum bytes = 0xff" if "\<forall>x \<in> set bytes. x = 0xff" for bytes :: "uchar list"
    using that by (induction bytes) (auto simp: identify_checksum_def)
  then show ?thesis
    using ppb.identify_says [OF assms(1)] assms(2) unfolding pp_port_def command_codes by meson
qed

theorem parport_identify_bus_witness:
  "\<exists>si s'. xlink_identify (libxlink_driver sample_sys) blank_server
     (sample_state BParport [0, 0x80, 0, 0x80, 1, 0, 65, 0x80, 0x10, 0, 0, 0x80, 0, 0, 1, 0x80, 8, 0, 0, 0x80, 10, 0, 0, 0x80, 0xa0]) =
     Some ((True, si), s') \<and> si_start si = 0x0801"
proof -
  let ?s = "sample_state BParport [0, 0x80, 0, 0x80, 1, 0, 65, 0x80, 0x10, 0, 0, 0x80, 0, 0, 1, 0x80, 8, 0, 0, 0x80, 10, 0, 0, 0x80, 0xa0]"
  let ?run = "xlink_identify (libxlink_driver sample_sys) blank_server ?s"
  have "map_option (\<lambda>((r, si), s). (r, si_start si)) ?run = Some (True, 0x0801)" by code_simp
  then obtain si s' where run: "?run = Some ((True, si), s')" "si_start si = 0x0801" by auto
  have "drv_backend ?s = BParport" by code_simp
  from parport_identify_bus [OF run(1) this] run show ?thesis by blast
qed

text \<open>
  The same conversation is held with the emulator over an attached shared memory port, where the
  emulator is served by the same program.
\<close>

theorem shm_load_bus:
  assumes "xlink_load (libxlink_driver sy) m b a bytes s = Some (True, s')" "shm_between s"
  shows "shm_bus (trace s') =
    shm_bus (trace s) @ map Sent (0xfd # range_command XLINK_COMMAND_LOAD m b a (length bytes) @ bytes)"
  using shmb.load_says [OF assms] by simp

theorem shm_save_bus:
  assumes "xlink_save (libxlink_driver sy) m b a n s = Some ((True, bytes), s')" "shm_between s"
  shows "length bytes = n \<and> shm_bus (trace s') =
    shm_bus (trace s) @ map Sent (0xfd # range_command XLINK_COMMAND_SAVE m b a n) @ Ready # map Got bytes"
  using shmb.save_says [OF assms] by simp

end
