(* ===== verification/Client_Props.thy ===== *)
theory Client_Props
  imports Client_Main Xlink_Bus
begin

text \<open>
  Properties of the client: options, files named on the command line, program files, and the
  bytes that a load puts on the wire.
\<close>

section \<open>Properties of the options\<close>

text \<open>The address option is accepted exactly when the start is an address of the 64K space or its
  end, and the end is either absent (or written as -1) or lies behind the start inside it;
  an accepted option never leaves an empty or reversed range.\<close>

theorem option_address_bounds:
  assumes "option_address arg self s = (ok, self', s')"
  shows "ok \<longleftrightarrow> 0 \<le> cm_start self' \<and> cm_start self' \<le> 0x10000 \<and>
    (cm_end self' = -1 \<or> cm_start self' < cm_end self' \<and> cm_end self' \<le> 0x10000)"
  using assms by (auto simp: option_address_def Let_def valid_def split: if_splits option.splits)

theorem option_address_bounds_witness:
  "\<exists>self' s'. option_address ''0x1000-0x2000'' sample_command (sample_state BUsb []) = (True, self', s') \<and>
     cm_start self' < cm_end self' \<and> cm_end self' \<le> 0x10000"
proof -
  obtain ok c t where run: "option_address ''0x1000-0x2000'' sample_command (sample_state BUsb []) = (ok, c, t)"
    by (metis prod_cases3)
  have "fst (option_address ''0x1000-0x2000'' sample_command (sample_state BUsb []))"
    "cm_end (fst (snd (option_address ''0x1000-0x2000'' sample_command (sample_state BUsb [])))) = 0x2000"
    by code_simp+
  with option_address_bounds [OF run] run show ?thesis by auto
qed

text \<open>Files named without a command: when all can be read, every one but the last is loaded and the
  last one is run, in the order of the command line; otherwise the first file that cannot be
  read is reported.\<close>

theorem none_words_files:
  "none_words readable fs =
     (if list_all readable fs then
        Inr (if fs = [] then []
             else concat (map (\<lambda>f. [''load'', f]) (butlast fs)) @ [''run'', last fs])
      else Inl (hd (dropWhile readable fs)))"
  by (induction fs) auto

text \<open>So a list of readable files is the command line ready, load for each but the last, run for the last.\<close>

theorem command_none_files:
  assumes "\<forall>f \<in> set fs. fs_readable e f (world s)" "cm_argv c = fs" "fs \<noteq> []"
  shows "command_none e c mode s =
    commands_execute e (commands_new [] (''ready'' # concat (map (\<lambda>f. [''load'', f]) (butlast fs)) @ [''run'', last fs]))
      mode (command_print c s)"
proof -
  have "none_words readable fs = Inr (concat (map (\<lambda>f. [''load'', f]) (butlast fs)) @ [''run'', last fs])"
    if "\<forall>f \<in> set fs. readable f" "fs \<noteq> []" for readable fs
    using that by (induction fs) auto
  with assms show ?thesis by (simp add: command_none_def)
qed

section \<open>Sequences of commands\<close>

lemma commands_execute_Nil: "commands_execute e [] mode s = Some (True, mode, s)"
  by (simp add: commands_execute.simps)

lemma bind_result: "Option.bind x (\<lambda>(r, m, s). if \<not> r then Some (r, m, s) else Some (True, m, s)) = x"
  by (cases x) auto

lemma commands_execute_Cons:
  "commands_execute e (c # cs) mode s =
     do { (r, mode, s) \<leftarrow> command_execute e c mode s;
          if \<not> r then Some (r, mode, s) else commands_execute e cs mode s }"
  unfolding command_execute_def commands_execute.simps [of e "[c]"] commands_execute.simps [of e "c # cs"]
    list.case commands_execute_Nil bind_result by (rule refl)

section \<open>Program files\<close>

definition fresh_command :: command where
  "fresh_command = fst (command_new [] [''load''])"

lemma fresh_command_simps [simp]:
  "cm_start fresh_command = -1" "cm_end fresh_command = -1" "cm_skip fresh_command = -1"
  "cm_memory fresh_command = 0xff" "cm_bank fresh_command = 0xff" "\<not> cm_force fresh_command"
  by code_simp+

text \<open>What a load without an address makes of a program file.\<close>

lemma load_program_file:
  assumes "cm_start self = -1" "cm_end self = -1" "cm_skip self = -1" "length content \<ge> 2"
  defines "a \<equiv> uint (word16_le (content ! 0) (content ! 1))"
  shows "load_start content self = Some (self\<lparr>cm_start := a, cm_skip := 2\<rparr>)"
    "load_size content (self\<lparr>cm_start := a, cm_skip := 2\<rparr>) =
       (int (length content) - 2, self\<lparr>cm_start := a, cm_skip := 2, cm_end := a + (int (length content) - 2)\<rparr>)"
    "load_data True content 2 (nat (int (length content) - 2)) = drop 2 content"
  using assms by (simp_all add: load_start_def load_size_def load_data_def Let_def nat_diff_distrib)

text \<open>Saving memory to a program file and loading that file without options gives the start address
  and the bytes back: the file begins with the address, low byte first, and the load takes
  it from there and skips it.\<close>

theorem save_load_roundtrip:
  assumes "save_bytes name self bytes = Some out" "strncasecmp0 (drop (length name - 4) name) ''.prg'' 4"
    and "0 \<le> cm_start self" "cm_start self < 65536"
  shows "\<exists>c n c'. load_start out fresh_command = Some c \<and> load_size out c = (n, c') \<and>
    cm_start c' = cm_start self \<and> cm_end c' = cm_start self + int (length bytes) \<and>
    load_data True out (cm_skip c') (nat n) = bytes"
proof -
  let ?w = "word_of_int (cm_start self) :: ushort"
  have out: "out = [lo (word_of_int (cm_start self)), hi (word_of_int (cm_start self))] @ bytes"
    using assms(1,2) by (simp add: save_bytes_def split: if_splits)
  have w: "(word_of_int (cm_start self) :: uint) = ucast ?w"
    using assms(3,4) by (rule word_of_int_short)
  have a: "uint (word16_le (out ! 0) (out ! 1)) = cm_start self"
    using assms(3,4) unfolding out w by (simp add: byte_simps uint_word_of_int)
  have "length out \<ge> 2" by (simp add: out)
  from load_program_file [of fresh_command, OF _ _ _ this] a show ?thesis
    by (auto simp: out)
qed

theorem save_load_roundtrip_witness:
  "\<exists>out c. save_bytes ''game.prg'' sample_command [1, 2, 3] = Some out \<and> load_start out fresh_command = Some c"
proof -
  obtain out where out: "save_bytes ''game.prg'' sample_command [1, 2, 3] = Some out"
    "strncasecmp0 (drop (length ''game.prg'' - 4) ''game.prg'') ''.prg'' 4"
    by (auto simp: save_bytes_def strncasecmp0_def)
  have "cm_start sample_command = 0x0801" by code_simp
  with save_load_roundtrip [OF out] out(1) show ?thesis by auto
qed

section \<open>A load on the wire\<close>

lemma command_print_keeps [simp]:
  "trace (command_print c s) = trace s" "drv_backend (command_print c s) = drv_backend s"
  "machine (command_print c s) = machine s" "world (command_print c s) = world s"
  by (simp_all add: command_print_def log_debug_def)

lemma load_memory_keeps [simp]:
  "cm_start (load_memory m c) = cm_start c" "cm_end (load_memory m c) = cm_end c"
  "cm_skip (load_memory m c) = cm_skip c" "cm_force (load_memory m c) = cm_force c"
  by (simp_all add: load_memory_def command_apply_safe_memory_and_bank_def command_apply_memory_and_bank_def Let_def)

lemma apply_memory_keeps [simp]:
  "cm_start (command_apply_memory_and_bank m c) = cm_start c" "cm_end (command_apply_memory_and_bank m c) = cm_end c"
  by (simp_all add: command_apply_memory_and_bank_def Let_def)

lemma save_program_says:
  assumes "command_save e self s = Some (True, s')" "drv_backend s = BParport"
    and "cm_argv self = f # fs" "cm_start self \<noteq> -1"
  shows "\<exists>bytes out. cm_end self = cm_start self + int (length bytes) \<and> save_bytes f self bytes = Some out \<and>
    last (trace s') = PutFile f out \<and>
    pp_bus (trace s') = pp_bus (trace s) @
      map Sent (0xfd # range_command XLINK_COMMAND_SAVE
        (cm_memory (command_apply_memory_and_bank (machine s) self))
        (cm_bank (command_apply_memory_and_bank (machine s) self))
        (word_of_int (cm_start self)) (length bytes)) @ Ready # map Got bytes"
proof -
  let ?c = "command_apply_memory_and_bank (machine s) self"
  let ?n = "nat (cm_end self - cm_start self)"
  define t where "t = command_print ?c (snd (ask (fs_create e f) s))"
  have t: "trace t = trace s" "drv_backend t = BParport"
    using assms(2) by (simp_all add: t_def ask_def)
  have m: "machine (snd (ask (fs_create e f) s)) = machine s" by (simp add: ask_def)
  obtain bytes u out where save: "xlink_save (drv e) (cm_memory ?c) (cm_bank ?c) (word_of_int (cm_start self)) ?n t = Some ((True, bytes), u)"
    and out: "save_bytes f ?c bytes = Some out" "s' = write_file e f out u" "0 \<le> cm_end self - cm_start self"
    using assms(1,3,4) m
    by (auto simp: command_save_def bind_Some_iff case_prod_unfold Let_def t_def [symmetric] split: if_splits)
  have "save_bytes f self bytes = Some out" using out(1) by (auto simp: save_bytes_def split: if_splits)
  moreover have "pp_bus (trace s') = pp_bus (trace u)" "last (trace s') = PutFile f out"
    by (simp_all add: out(2) write_file_def pp_bus_quiet del: pp_lines_append)
  ultimately show ?thesis
    using ppb.save_says [OF save] t out(3) by (intro exI [of _ bytes] exI [of _ out]) (auto simp: pp_port_def)
qed

lemma load_program_says:
  assumes "command_load e self s = Some (True, self', s')" "drv_backend s = BParport" "cm_force self"
    and "cm_argv self = [f]" "fs_load e f (world s) = Some content" "length content \<ge> 2"
    and "cm_start self = -1" "cm_end self = -1" "cm_skip self = -1"
  shows "pp_bus (trace s') = pp_bus (trace s) @ map Sent
    (0xfd # range_command XLINK_COMMAND_LOAD (cm_memory self') (cm_bank self')
             (word16_le (content ! 0) (content ! 1)) (length content - 2) @ drop 2 content)"
proof -
  define a where "a = uint (word16_le (content ! 0) (content ! 1))"
  define c where "c = load_memory (machine s) (self\<lparr>cm_start := a, cm_skip := 2, cm_end := a + (int (length content) - 2)\<rparr>)"
  note parts = load_program_file [OF assms(7-9,6), folded a_def]
  have c: "cm_skip c = 2" "cm_force c" "cm_start c = a"
    by (simp_all add: c_def assms(3))
  define t where "t = (command_print c s)\<lparr>lg := logger_resume (logger_suspend (lg (command_print c s)))\<rparr>"
  have len: "\<not> int (length content) - 2 < 0" using assms(6) by simp
  have "xlink_load (drv e) (cm_memory c) (cm_bank c) (word_of_int (cm_start c)) (drop 2 content) t = Some (True, s')"
    and "self' = c"
    using assms(1,3-5,7) parts len c
    by (auto simp: command_load_def Let_def bind_iff c_def [symmetric] t_def [symmetric])
  moreover have "drv_backend t = BParport" "trace t = trace s"
    using assms(2) by (simp_all add: t_def)
  ultimately show ?thesis
    using ppb.load_says [of "ce_sys e" "cm_memory c" "cm_bank c" "word_of_int (cm_start c)" "drop 2 content" t s'] c
    by (simp add: pp_port_def a_def)
qed

text \<open>A forced load of a program file that reports success over the parallel port has put on the
  port a ping byte, a load command for the address in the file's first two bytes and as many
  bytes as follow them, in the memory configuration of the command, and exactly these bytes.\<close>

theorem load_program_bus:
  assumes "command_load e self s = Some (True, self', s')" "drv_backend s = BParport" "cm_force self"
    and "cm_argv self = [f]" "fs_load e f (world s) = Some content" "length content \<ge> 2"
    and "cm_start self = -1" "cm_end self = -1" "cm_skip self = -1"
  shows "pp_bus (trace s') = pp_bus (trace s) @ map Sent
    (0xfd # range_command XLINK_COMMAND_LOAD (cm_memory self') (cm_bank self')
             (word16_le (content ! 0) (content ! 1)) (length content - 2) @ drop 2 content)"
  using assms by (rule load_program_says)

definition sample_env :: "uchar list client_env" where
  "sample_env =
     \<lparr>ce_sys = sample_sys, ce_server = \<lambda>m a. None, ce_basic_server = \<lambda>m. [], ce_kernal = \<lambda>m i. i,
      ce_help = \<lambda>i. (True, []), ce_version = ''1.0'', ce_getopt = \<lambda>ws. ([], tl ws),
      fs_readable = \<lambda>f w. True, fs_stat = \<lambda>f w. Some 4, fs_load = \<lambda>f w. Some [0x00, 0xc0, 0xa9, 0x60],
      fs_create = \<lambda>f w. (True, w), fs_write = \<lambda>f bs w. w, os_rand = next_byte,
      fmt_ms = \<lambda>us. ''0'', fmt_speed = \<lambda>us n. (''0'', ''0'')\<rparr>"

theorem load_program_bus_witness:
  "map_option (\<lambda>(r, c, s). pp_bus (trace s))
     (command_load sample_env (fresh_command\<lparr>cm_argv := [''a''], cm_force := True\<rparr>)
        (sample_state BParport [0, 0x80, 0, 0x80, 0, 0x80, 0, 0x80, 0, 0x80, 0])) =
   Some (map Sent [0xfd, 1, 0x37, 0, 0x00, 0xc0, 0x02, 0xc0, 0xa9, 0x60])"
proof -
  let ?c = "fresh_command\<lparr>cm_argv := [''a''], cm_force := True\<rparr>"
  let ?s = "sample_state BParport [0, 0x80, 0, 0x80, 0, 0x80, 0, 0x80, 0, 0x80, 0]"
  let ?run = "command_load sample_env ?c ?s"
  have "map_option (\<lambda>(r, c, s). (r, cm_memory c, cm_bank c)) ?run = Some (True, 0x37, 0)" by code_simp
  then obtain c s' where run: "?run = Some (True, c, s')" and c: "cm_memory c = 0x37" "cm_bank c = 0" by auto
  have "fs_load sample_env ''a'' (world ?s) = Some [0x00, 0xc0, 0xa9, 0x60]" by (simp add: sample_env_def)
  moreover have "drv_backend ?s = BParport" "pp_bus (trace ?s) = []" by code_simp+
  moreover have "range_command XLINK_COMMAND_LOAD 0x37 0 (word16_le 0x00 0xc0) (Suc (Suc 0)) = [1, 0x37, 0, 0x00, 0xc0, 0x02, 0xc0]"
    by code_simp
  ultimately show ?thesis
    using load_program_bus [OF run] run c by simp
qed

section \<open>Saving and loading back\<close>

lemma address_bytes:
  assumes "0 \<le> n" "n < 65536"
  shows "word16_le (lo (word_of_int n)) (hi (word_of_int n)) = word_of_int n"
proof -
  have w: "(word_of_int n :: uint) = ucast (word_of_int n :: ushort)" using assms by (rule word_of_int_short)
  show ?thesis unfolding w by (simp add: byte_simps)
qed

text \<open>Memory saved to a program file and loaded back goes where it came from: over the parallel
  port, a save of an explicit range to a .prg file takes the bytes off the bus, and a forced load
  of that file without options puts the same bytes back on it, under a load command with the
  address and the length of the save command.\<close>

theorem save_load_bus:
  assumes "command_save e self s = Some (True, s')" "drv_backend s = BParport" "cm_argv self = f # fs"
    and "strncasecmp0 (drop (length f - 4) f) ''.prg'' 4" "0 \<le> cm_start self" "cm_start self < 65536"
    and "last (trace s') = PutFile f content" "fs_load e f (world t) = Some content"
    and "command_load e c t = Some (True, c', t')" "drv_backend t = BParport" "cm_argv c = [f]" "cm_force c"
    and "cm_start c = -1" "cm_end c = -1" "cm_skip c = -1"
  shows "\<exists>bytes. pp_bus (trace s') = pp_bus (trace s) @
      map Sent (0xfd # range_command XLINK_COMMAND_SAVE
        (cm_memory (command_apply_memory_and_bank (machine s) self))
        (cm_bank (command_apply_memory_and_bank (machine s) self))
        (word_of_int (cm_start self)) (length bytes)) @ Ready # map Got bytes \<and>
    cm_end self = cm_start self + int (length bytes) \<and>
    pp_bus (trace t') = pp_bus (trace t) @ map Sent
      (0xfd # range_command XLINK_COMMAND_LOAD (cm_memory c') (cm_bank c') (word_of_int (cm_start self)) (length bytes) @ bytes)"
proof -
  have "cm_start self \<noteq> -1" using assms(5) by simp
  from save_program_says [OF assms(1-3) this] obtain bytes out where
    b: "cm_end self = cm_start self + int (length bytes)" "save_bytes f self bytes = Some out"
      "last (trace s') = PutFile f out"
    and bus: "pp_bus (trace s') = pp_bus (trace s) @
      map Sent (0xfd # range_command XLINK_COMMAND_SAVE
        (cm_memory (command_apply_memory_and_bank (machine s) self))
        (cm_bank (command_apply_memory_and_bank (machine s) self))
        (word_of_int (cm_start self)) (length bytes)) @ Ready # map Got bytes"
    by blast
  have c: "content = [lo (word_of_int (cm_start self)), hi (word_of_int (cm_start self))] @ bytes"
    using b(2,3) assms(4,7) by (auto simp: save_bytes_def split: if_splits)
  then have "length content \<ge> 2" by simp
  from load_program_says [OF assms(9,10,12,11,8) this assms(13-15)] have
    "pp_bus (trace t') = pp_bus (trace t) @ map Sent
      (0xfd # range_command XLINK_COMMAND_LOAD (cm_memory c') (cm_bank c') (word_of_int (cm_start self)) (length bytes) @ bytes)"
    using c address_bytes [OF assms(5,6)] by simp
  with b(1) bus show ?thesis by blast
qed

theorem save_load_bus_witness:
  "\<exists>s'. command_save sample_env (fresh_command\<lparr>cm_argv := [''a.prg''], cm_start := 0xc000, cm_end := 0xc002\<rparr>)
     (sample_state BParport [0, 0x80, 0, 0x80, 0, 0x80, 0, 0x80, 0, 0x80, 0xa9, 0, 0x60]) = Some (True, s') \<and>
     last (trace s') = PutFile ''a.prg'' [0x00, 0xc0, 0xa9, 0x60]"
proof -
  let ?c = "fresh_command\<lparr>cm_argv := [''a.prg''], cm_start := 0xc000, cm_end := 0xc002\<rparr>"
  let ?s = "sample_state BParport [0, 0x80, 0, 0x80, 0, 0x80, 0, 0x80, 0, 0x80, 0xa9, 0, 0x60]"
  let ?d = "fresh_command\<lparr>cm_argv := [''a.prg''], cm_force := True\<rparr>"
  let ?t = "sample_state BParport [0, 0x80, 0, 0x80, 0, 0x80, 0, 0x80, 0, 0x80, 0]"
  have "map_option (\<lambda>(r, s). (r, last (trace s))) (command_save sample_env ?c ?s) =
      Some (True, PutFile ''a.prg'' [0x00, 0xc0, 0xa9, 0x60])" by code_simp
  then obtain s' where s': "command_save sample_env ?c ?s = Some (True, s')"
    "last (trace s') = PutFile ''a.prg'' [0x00, 0xc0, 0xa9, 0x60]" by auto
  have "map_option fst (command_load sample_env ?d ?t) = Some True" by code_simp
  then obtain c' t' where t': "command_load sample_env ?d ?t = Some (True, c', t')" by auto
  have b: "drv_backend ?s = BParport" "drv_backend ?t = BParport" "strncasecmp0 (drop (length ''a.prg'' - 4) ''a.prg'') ''.prg'' 4"
    "cm_start ?c = 0xc000" "fs_load sample_env ''a.prg'' (world ?t) = Some [0x00, 0xc0, 0xa9, 0x60]"
    by code_simp+
  from save_load_bus [OF s'(1) b(1) _ b(3) _ _ s'(2) b(5) t' b(2)] b(4) s'
  show ?thesis by auto
qed

end
