(* ===== verification/Frames.thy ===== *)
theory Frames
  imports Xlink_Laws
begin

text \<open>
  What the requests of xlink.c leave alone: with every driver that keeps the contract
  \<open>driver_laws\<close> no request changes the machine, the timeout, the transfer state or the context
  stack of the logger.
\<close>


text \<open>
  \<open>yields m P\<close>: whatever m returns satisfies P. It is computed along a program, so that a proof
  walks through the program once.
\<close>

definition yields :: "'a option \<Rightarrow> ('a \<Rightarrow> bool) \<Rightarrow> bool" where
  "yields m P \<longleftrightarrow> (\<forall>y. m = Some y \<longrightarrow> P y)"

lemma yields_simps [simp]:
  "yields None P" "yields (Some y) P = P y"
  "yields (Option.bind m f) P = yields m (\<lambda>x. yields (f x) P)"
  "yields (map_option g m) P = yields m (\<lambda>x. P (g x))"
  by (auto simp: yields_def bind_iff)

lemma yields_if [simp]: "yields (if b then m else n) P = ((b \<longrightarrow> yields m P) \<and> (\<not> b \<longrightarrow> yields n P))"
  by simp

lemma yieldsD: "yields m P \<Longrightarrow> m = Some y \<Longrightarrow> P y"
  by (simp add: yields_def)

text \<open>
  \<open>framed s m\<close>: m is a run from s that keeps the frame; \<open>framed3\<close> is the same for functions that
  return one more value. The collection \<open>keeps\<close> has this of every function, as a rule that walks
  over a call of it.
\<close>

definition framed :: "'w xlink \<Rightarrow> ('a \<times> 'w xlink) option \<Rightarrow> bool" where
  "framed s m \<longleftrightarrow> yields m (\<lambda>(x, t). frame t = frame s)"

definition framed3 :: "'w xlink \<Rightarrow> ('a \<times> 'b \<times> 'w xlink) option \<Rightarrow> bool" where
  "framed3 s m \<longleftrightarrow> yields m (\<lambda>(x, y, t). frame t = frame s)"

lemma framed_over: "framed s m \<Longrightarrow> (\<And>x t. frame t = frame s \<Longrightarrow> P (x, t)) \<Longrightarrow> yields m P"
  by (auto simp: framed_def yields_def)

lemma framed3_over: "framed3 s m \<Longrightarrow> (\<And>x y t. frame t = frame s \<Longrightarrow> P (x, y, t)) \<Longrightarrow> yields m P"
  by (auto simp: framed3_def yields_def)

lemma framedI: "(\<And>x t. m = Some (x, t) \<Longrightarrow> frame t = frame s) \<Longrightarrow> framed s m"
  by (auto simp: framed_def yields_def)

lemma framedD: "framed s m \<Longrightarrow> m = Some (x, t) \<Longrightarrow> frame t = frame s"
  by (auto simp: framed_def yields_def)

named_theorems keeps

lemma errors_frame [simp]: "frame (SET_ERROR c f a s) = frame s" "frame (CLEAR_ERROR_IF q s) = frame s"
  by (simp_all add: seat_frame [OF SET_ERROR_keeps(1)] seat_frame [OF CLEAR_ERROR_keeps(1)])

context driver_laws
begin

lemma session_frame:
  assumes "session d ok initial body s = Some (r, s')"
    and "\<And>s r s'. body s = Some (r, s') \<Longrightarrow> frame s' = frame s"
  shows "frame s' = frame s"
proof -
  obtain q t where q: "d_open d s = Some (q, t)"
    using assms(1) by (cases "d_open d s") (auto simp: session_def)
  show ?thesis
  proof (cases q)
    case True
    with assms(1) q obtain u where "body t = Some (r, u)" "s' = CLEAR_ERROR_IF (ok r) u"
      by (auto simp: session_def bind_pair_iff)
    with open_law [OF q] assms(2) [of t r u] show ?thesis by simp
  next
    case False
    with assms(1) q open_law [OF q] show ?thesis by (auto simp: session_def)
  qed
qed

lemma closing_frame: "closing d r s = Some (r', s') \<Longrightarrow> frame s' = frame s"
  using closing_law [of r s r' s'] core_frame [of s' s] by simp

lemma request_frame:
  assumes "request d bad bytes rest s = Some (r, s')"
    and "\<And>s r s'. rest s = Some (r, s') \<Longrightarrow> frame s' = frame s"
  shows "frame s' = frame s"
proof -
  obtain p t where p: "d_ping d s = Some (p, t)"
    using assms(1) by (cases "d_ping d s") (auto simp: request_def)
  have t: "frame t = frame s" using core_frame [OF ping_law [OF p]] .
  show ?thesis
  proof (cases p)
    case True
    with assms(1) p obtain u q v where "d_output d t = Some u" "d_send d bytes u = Some (q, v)"
      "(if q then rest v else closing d bad v) = Some (r, s')"
      by (auto simp: request_def bind_iff split: if_splits)
    with t core_frame [OF output_law, of t u] send_law [of bytes u q v] assms(2) [of v r s'] closing_frame [of bad v r s']
    show ?thesis by (auto split: if_splits)
  next
    case False
    with assms(1) p have "closing d bad (SET_ERROR XLINK_ERROR_SERVER ''no response from server'' [] t) = Some (r, s')"
      by (simp add: request_def)
    from closing_frame [OF this] t show ?thesis by simp
  qed
qed

lemma send_frame: "do { (sent, s) \<leftarrow> d_send d bytes t; closing d sent s } = Some (r, t') \<Longrightarrow> frame t' = frame t"
  by (auto simp: bind_pair_iff dest!: send_law closing_frame)

lemma driver_receive_frame: "d_receive d n s = Some (x, s') \<Longrightarrow> frame s' = frame s"
  using receive_law [of n s "fst x" "snd x" s'] by simp

lemma turn_frame: "turn d s = Some s' \<Longrightarrow> frame s' = frame s"
  using turn_law core_frame by blast

lemma answer_frame:
  "do { s \<leftarrow> turn d t; (answer, s) \<leftarrow> d_receive d n s; closing d answer s } = Some (r, t') \<Longrightarrow> frame t' = frame t"
  by (auto simp: bind_iff dest!: turn_frame driver_receive_frame closing_frame)

lemma boot_frame: "do { s \<leftarrow> d_boot d t; closing d True s } = Some (r, t') \<Longrightarrow> frame t' = frame t"
  by (auto simp: bind_iff dest!: boot_law [THEN core_frame] closing_frame)

lemma ping_frame: "do { (result, s) \<leftarrow> d_ping d t; closing d result s } = Some (r, t') \<Longrightarrow> frame t' = frame t"
  by (auto simp: bind_iff dest!: ping_law [THEN core_frame] closing_frame)

lemma request_frames:
  "xlink_load d m b a bytes s = Some (r, s') \<Longrightarrow> frame s' = frame s"
  "xlink_save d m b a n s = Some (x, s') \<Longrightarrow> frame s' = frame s"
  "xlink_peek d m b a s = Some (x, s') \<Longrightarrow> frame s' = frame s"
  "xlink_poke d m b a v s = Some (r, s') \<Longrightarrow> frame s' = frame s"
  "xlink_jump d m b a s = Some (r, s') \<Longrightarrow> frame s' = frame s"
  "xlink_run d s = Some (r, s') \<Longrightarrow> frame s' = frame s"
  "xlink_ping d s = Some (r, s') \<Longrightarrow> frame s' = frame s"
  "xlink_bootloader d s = Some (r, s') \<Longrightarrow> frame s' = frame s"
  unfolding xlink_load_def xlink_save_def xlink_peek_def xlink_poke_def xlink_jump_def xlink_run_def
    xlink_ping_def xlink_bootloader_def
  by (erule session_frame request_frame | drule send_frame answer_frame closing_frame ping_frame boot_frame | assumption)+

lemma identify_frame: "xlink_identify d si s = Some (x, s') \<Longrightarrow> frame s' = frame s"
  unfolding xlink_identify_def
  apply (erule session_frame)
  apply (erule request_frame)
  apply (auto simp: bind_iff Let_def split: if_splits dest!: turn_frame driver_receive_frame closing_frame)
  done

lemma ping_while_frame: "ping_while_up d s = Some s' \<Longrightarrow> frame s' = frame s"
proof -
  assume run: "ping_while_up d s = Some s'"
  have "d' = d \<longrightarrow> frame t' = frame t" if "ping_while_up d' t = Some t'" for d' t t'
    by (rule ping_while_up.raw_induct [where P = "\<lambda>d' t t'. d' = d \<longrightarrow> frame t' = frame t", OF _ that])
      (auto simp: bind_pair_iff split: if_splits dest!: request_frames(7))
  from this [OF run] show ?thesis by simp
qed

lemma reset_frame: "xlink_reset d s = Some (r, s') \<Longrightarrow> frame s' = frame s"
  by (auto simp: xlink_reset_def bind_iff split: if_splits
      dest!: open_law reset_law [THEN core_frame] close_law [THEN core_frame] ping_while_frame)

lemma fill_frame: "xlink_fill d m b a v n s = Some (r, s') \<Longrightarrow> frame s' = frame s"
  by (auto simp: xlink_fill_def dest: request_frames)

lemma inject_frame: "xlink_inject d a code s = Some (r, s') \<Longrightarrow> frame s' = frame s"
proof -
  assume "xlink_inject d a code s = Some (r, s')"
  then obtain q t where t: "xlink_load d (m_memory (machine s)) (m_bank (machine s)) a code s = Some (q, t)"
    and "if q then session d id False (request d False [XLINK_COMMAND_INJECT, hi (ucast (a - 1)), lo (ucast (a - 1))]
          (closing d True)) t = Some (r, s') else s' = CLEAR_ERROR_IF False t"
    by (auto simp: xlink_inject_def bind_pair_iff Let_def split: if_splits)
  then have "frame s' = frame t"
    by (auto split: if_splits elim!: session_frame request_frame dest: closing_frame)
  with request_frames(1) [OF t] show ?thesis by simp
qed

lemma frame_logs [simp]:
  "lg_context l = lg_context (lg s) \<Longrightarrow> frame (s\<lparr>lg := l\<rparr>) = frame s"
  "frame (log_trace m s) = frame s" "frame (usleep sy n s) = frame s"
  by (simp_all add: frame_def log_trace_def world_defs)

lemma lib_framed:
  "framed s (d_ready d s)" "framed s (xlink_load d m b a bytes s)" "framed s (xlink_save d m b a n s)"
  "framed s (xlink_peek d m b a s)" "framed s (xlink_poke d m b a v s)" "framed s (xlink_jump d m b a s)"
  "framed s (xlink_run d s)" "framed s (xlink_ping d s)" "framed s (xlink_bootloader d s)"
  "framed s (xlink_identify d si s)" "framed s (xlink_reset d s)" "framed s (xlink_fill d m b a v n s)"
  "framed s (xlink_inject d a bytes s)"
  by (rule framedI, (drule ready_law, simp | erule request_frames identify_frame reset_frame fill_frame inject_frame))+

lemmas lib_over [keeps] = lib_framed [THEN framed_over]

lemma relocate_framed: "framed s (xlink_relocate d server a s)"
  by (auto simp: framed_def xlink_relocate_def Let_def split: option.splits intro!: keeps)

lemma has_device_framed: "framed s (xlink_has_device d s)"
  by (auto simp: framed_def xlink_has_device_def intro!: keeps)

lemma server_wait_framed: "framed s (server_wait_loop sy d n ms s)"
proof (induction "nat ms" arbitrary: n ms s rule: less_induct)
  case less
  have again: "framed t (server_wait_loop sy d k (ms - 250) t)" if "0 < ms" for k t
    using less that by simp
  show ?case
    unfolding framed_def
    by (subst server_wait_loop.simps) (auto simp: Let_def intro!: keeps again [THEN framed_over])
qed

lemmas wait_over [keeps] = relocate_framed [THEN framed_over] has_device_framed [THEN framed_over]
  server_wait_framed [THEN framed_over]

lemma server_ready_framed [THEN framed_over, keeps]: "framed s (server_ready_after sy d ms s)"
  by (auto simp: framed_def server_ready_after_def intro!: keeps)

lemma ready_framed:
  "framed s (ready_reach sy d s)" "framed s (ready_warmstart sy d s)"
  "framed3 s (ready_switch_c64 sy d s)" "framed3 s (ready_switch_c128 sy d s)"
  unfolding framed_def framed3_def
  by (auto simp: ready_reach_def ready_switch_c64_def ready_switch_c128_def ready_warmstart_def Let_def intro!: keeps)

lemmas ready_over [keeps] = ready_framed(1,2) [THEN framed_over] ready_framed(3,4) [THEN framed3_over]

lemma xlink_ready_framed [THEN framed_over, keeps]: "framed s (xlink_ready sy d s)"
  unfolding framed_def
  by (auto simp: xlink_ready_def intro!: keeps)

end

end
