(* ===== verification/Client_Frames.thy ===== *)
theory Client_Frames
  imports Client_Main Frames
begin

text \<open>
  What the commands of the client leave alone: a command keeps machine, timeout, transfer state
  and the context stack of the logger; the options may change the machine. So the contexts that
  the client enters and leaves are those of a stack.
\<close>

section \<open>The helpers\<close>

lemma frame_client [simp]:
  "frame (log_error f a s) = frame s" "frame (log_info f a s) = frame s" "frame (log_debug f a s) = frame s"
  "frame (print t s) = frame s" "frame (write_file e n bs s) = frame s" "frame (command_print c s) = frame s"
  "frame (usage e s) = frame s"
  by (simp_all add: log_error_def log_info_def log_debug_def print_def write_file_def command_print_def usage_def
      version_def world_defs frame_def)

lemma frame_ask [simp]: "frame (snd (ask f s)) = frame s" "frame (snd (now sy s)) = frame s"
  by (simp_all add: world_defs frame_def)

lemma frame_random [simp]: "frame (snd (random_bytes e n s)) = frame s"
  by (induction n arbitrary: s) (simp_all add: Let_def case_prod_unfold)

lemma frame_speed [simp]: "frame (log_speed e t n s) = frame s"
  by (simp add: log_speed_def Let_def case_prod_unfold)

lemma frame_requires [simp]: "frame (snd (command_requires_server_relocation c v s)) = frame s"
  by (simp add: command_requires_server_relocation_def)

text \<open>Steps without a state of their own.\<close>

lemma pure_over [keeps]:
  "(\<And>x. P x) \<Longrightarrow> yields (command_server_relocation_possible m c v) P"
  "(\<And>x. Q x) \<Longrightarrow> yields (load_start bs c) Q"
  "(\<And>x. R x) \<Longrightarrow> yields (save_bytes f c bs) R"
  by (simp_all add: yields_def)

lemma usable_framed [THEN framed_over, keeps]:
  "framed s (command_server_usable_after_possible_relocation e c s)"
  unfolding framed_def command_server_usable_after_possible_relocation_def
  by (auto simp: case_prod_unfold Let_def split: option.splits bool.splits intro!: keeps)

lemma peek_framed [THEN framed_over, keeps]: "framed s (peek_value e a s)"
  unfolding framed_def peek_value_def by (auto intro!: keeps)

lemma find_basic_framed [THEN framed3_over, keeps]: "framed3 s (command_find_basic_program e c s)"
  unfolding framed3_def command_find_basic_program_def
  by (auto simp: Let_def split: option.splits intro!: keeps)

section \<open>The commands\<close>

lemma load_framed [THEN framed3_over, keeps]: "framed3 s (command_load e c s)"
  unfolding framed3_def command_load_def
  by (auto simp: Let_def case_prod_unfold split: option.splits list.splits intro!: keeps)


lemma save_framed [THEN framed_over, keeps]: "framed s (command_save e c s)"
  unfolding framed_def command_save_def
  by (auto simp: Let_def case_prod_unfold split: option.splits list.splits intro!: keeps)

lemma poke_framed [THEN framed_over, keeps]: "framed s (command_poke e c s)"
  unfolding framed_def command_poke_def
  by (auto simp: Let_def split: list.splits intro!: keeps)

lemma peek_command_framed [THEN framed_over, keeps]: "framed s (command_peek e c s)"
  unfolding framed_def command_peek_def
  by (auto simp: Let_def split: list.splits intro!: keeps)

lemma fill_framed [THEN framed_over, keeps]: "framed s (command_fill e c s)"
  unfolding framed_def command_fill_def
  by (auto simp: Let_def split: list.splits intro!: keeps)

lemma jump_framed [THEN framed_over, keeps]: "framed s (command_jump e c s)"
  unfolding framed_def command_jump_def
  by (auto simp: Let_def split: list.splits intro!: keeps)

lemma run_framed [THEN framed_over, keeps]: "framed s (command_run e c s)"
  unfolding framed_def command_run_def
  by (auto simp: Let_def intro!: keeps)

lemma command_relocate_framed [THEN framed_over, keeps]: "framed s (command_relocate e c s)"
  unfolding framed_def command_relocate_def
  by (auto simp: Let_def split: list.splits intro!: keeps)

lemma ready_after_framed [THEN framed_over, keeps]: "framed s (client_ready_after e ms s)"
proof (rule framedI)
  fix x t
  assume "client_ready_after e ms s = Some (x, t)"
  then have "frame (snd (x, t)) = frame s"
    by (rule client_ready_after.raw_induct [where P = "\<lambda>e ms s y. frame (snd y) = frame s", rotated])
      (auto simp: bind_pair_iff split: if_splits dest!: lib.request_frames(7))
  then show "frame t = frame s" by simp
qed

lemma reset_framed [THEN framed_over, keeps]: "framed s (command_reset e c s)"
  unfolding framed_def command_reset_def by (auto intro!: keeps)

lemma bootloader_framed [THEN framed_over, keeps]: "framed s (command_bootloader e c s)"
  unfolding framed_def command_bootloader_def by (auto intro!: keeps)

lemma identify_framed [THEN framed_over, keeps]: "framed s (command_identify e c s)"
  unfolding framed_def command_identify_def by (auto intro!: keeps)

lemma command_ready_framed [THEN framed_over, keeps]: "framed s (command_ready e c s)"
  unfolding framed_def command_ready_def by (auto intro!: keeps)

lemma ping_framed [THEN framed_over, keeps]: "framed s (command_ping e c s)"
  unfolding framed_def command_ping_def by (auto simp: Let_def case_prod_unfold intro!: keeps)

lemma benchmark_framed [THEN framed_over, keeps]: "framed s (command_benchmark e c s)"
  unfolding framed_def command_benchmark_def
  by (auto simp: Let_def case_prod_unfold split: option.splits intro!: keeps)

lemma server_framed [THEN framed_over, keeps]: "framed s (command_server e c s)"
  unfolding framed_def command_server_def
  by (auto simp: Let_def case_prod_unfold split: list.splits option.splits)

lemma kernal_framed [THEN framed_over, keeps]: "framed s (command_kernal e c s)"
  unfolding framed_def command_kernal_def
  by (auto simp: Let_def case_prod_unfold split: list.splits option.splits)

lemma dispatch_framed [THEN framed3_over, keeps]: "framed3 s (command_dispatch e c mode s)"
  unfolding framed3_def command_dispatch_def command_help_def
  by (auto simp: Let_def split: list.splits intro!: keeps)

section \<open>Options and the command line\<close>

lemma frame_context: "frame t = frame s \<Longrightarrow> lg_context (lg t) = lg_context (lg s)"
  by (simp add: frame_def)

lemma context_over:
  "yields m (\<lambda>(r, c, t). lg_context (lg t) = k) \<Longrightarrow> (\<And>r c t. lg_context (lg t) = k \<Longrightarrow> P (r, c, t)) \<Longrightarrow> yields m P"
  by (auto simp: yields_def)

lemma set_device_over:
  "(\<And>r t. lg_context (lg t) = lg_context (lg s) \<Longrightarrow> P (r, t)) \<Longrightarrow> yields (xlink_set_device sy p s) P"
  using driver_setup_result [of sy p s] by (auto simp: xlink_set_device_def yields_def frame_def)

lemma option_address_context: "lg_context (lg (snd (snd (option_address arg c s)))) = lg_context (lg s)"
  by (simp add: option_address_def Let_def log_error_def split: option.splits)

lemma parse_option_context:
  "yields (parse_option e opt c s) (\<lambda>(r, c, t). lg_context (lg t) = lg_context (lg s))"
  by (cases opt)
    (auto simp: parse_option_def Let_def frame_context [OF frame_client(7)] log_error_def case_prod_unfold option_address_context
      intro!: set_device_over)

lemma parse_loop_context:
  "yields (parse_loop e opts c s) (\<lambda>(r, c, t). lg_context (lg t) = lg_context (lg s))"
proof (induction opts arbitrary: c s)
  case (Cons opt opts)
  show ?case
    by (auto intro!: parse_option_context [THEN context_over] Cons.IH [THEN context_over])
qed simp

lemma parse_options_context:
  "yields (command_parse_options e c s) (\<lambda>(r, c, t). lg_context (lg t) = lg_context (lg s))"
  by (auto simp: command_parse_options_def case_prod_unfold Let_def intro!: parse_loop_context [THEN context_over])

lemma leave_over:
  "lg_context l = Some (stringlist_append ctx name) \<Longrightarrow> (\<And>l'. lg_context l' = Some ctx \<Longrightarrow> P l') \<Longrightarrow>
   yields (logger_leave l) P"
  by (simp add: logger_leave_def yields_def)

lemma quiet_context: "lg_context (lg (command_print c s)) = lg_context (lg s)" "lg_context (lg (print x s)) = lg_context (lg s)"
  "lg_context (lg (log_error f a s)) = lg_context (lg s)"
  by (rule frame_context, simp)+

lemma dispatch_context:
  "yields (command_dispatch e c mode s) (\<lambda>(r, m, t). lg_context (lg t) = lg_context (lg s))"
  by (auto intro!: keeps dest: frame_context)

text \<open>The execution of command lines, between enter and leave of each command.\<close>

lemma execute_context:
  assumes "commands_execute e cs mode s = Some y" "lg_context (lg s) = Some ctx"
  shows "lg_context (lg (snd (snd y))) = Some ctx"
proof -
  let ?at = "\<lambda>ctx (r, m, t). lg_context (lg t) = Some ctx"
  have "\<forall>ctx. lg_context (lg s) = Some ctx \<longrightarrow> ?at ctx y"
  proof (rule commands_execute.raw_induct [where P = "\<lambda>e cs mode s y. \<forall>ctx. lg_context (lg s) = Some ctx \<longrightarrow> ?at ctx y", OF _ assms(1)], intro allI impI)
    fix go e cs mode s y ctx
    assume IH: "\<And>e cs mode s y. go e cs mode s = Some y \<Longrightarrow> \<forall>ctx. lg_context (lg s) = Some ctx \<longrightarrow> ?at ctx y"
      and s: "lg_context (lg s) = Some ctx"
      and run: "(case cs of
        [] \<Rightarrow> Some (True, mode, s)
      | self # rest \<Rightarrow>
          do { (result, mode, s) \<leftarrow>
                 (if mode = MODE_HELP then
                    (case ce_help e (cm_id self) of (r, text) \<Rightarrow> Some (r, mode, print text s))
                  else
                    do { (parsed, self, s) \<leftarrow>
                           command_parse_options e self (s\<lparr>lg := logger_enter (command_get_name self) (lg s)\<rparr>);
                         (result, mode, s) \<leftarrow>
                           (if \<not> parsed then Some (False, mode, s)
                            else if cm_id self = COMMAND_NONE then
                              (if cm_argv self = [] then Some (True, mode, command_print self s)
                               else
                                 (case none_words (\<lambda>f. fs_readable e f (world s)) (cm_argv self) of
                                    Inl bad \<Rightarrow>
                                      Some (False, mode, log_error ''Unknown command: %s'' [Astr bad] (command_print self s))
                                  | Inr ws \<Rightarrow>
                                      go e (commands_new [] (''ready'' # ws)) mode (command_print self s)))
                            else command_dispatch e self mode s);
                         l \<leftarrow> logger_leave (lg s);
                         Some (result, mode, s\<lparr>lg := l\<rparr>) });
               if \<not> result then Some (result, mode, s) else go e rest mode s }) = Some y" (is "?body = _")
    have go: "yields (go e cs mode u) (?at k)" if "lg_context (lg u) = Some k" for e cs mode u k
      using IH that by (auto simp: yields_def)
    have over: "yields m P" if "yields m (?at ctx)" "\<And>r c t. lg_context (lg t) = Some ctx \<Longrightarrow> P (r, c, t)" for m P
      using that by (auto simp: yields_def)
    have "yields ?body (?at ctx)"
    proof (cases cs)
      case (Cons self rest)
      let ?ctx = "stringlist_append ctx (command_get_name self)"
      let ?s = "s\<lparr>lg := logger_enter (command_get_name self) (lg s)\<rparr>"
      have enter: "lg_context (lg ?s) = Some ?ctx" using s by (simp add: logger_enter_def)
      have said: "yields (if \<not> parsed then Some (False, mode, u)
            else if cm_id c = COMMAND_NONE then
              (if cm_argv c = [] then Some (True, mode, command_print c u)
               else (case none_words (\<lambda>f. fs_readable e f (world u)) (cm_argv c) of
                  Inl bad \<Rightarrow> Some (False, mode, log_error ''Unknown command: %s'' [Astr bad] (command_print c u))
                | Inr ws \<Rightarrow> go e (commands_new [] (''ready'' # ws)) mode (command_print c u)))
            else command_dispatch e c mode u) (?at ?ctx)" if "lg_context (lg u) = Some ?ctx" for parsed c mode u
        using that dispatch_context [of e c mode u] by (auto simp: quiet_context split: sum.splits intro!: go)
      have inner: "yields m P" if "yields m (?at ?ctx)" "\<And>r c t. lg_context (lg t) = Some ?ctx \<Longrightarrow> P (r, c, t)" for m P
        using that by (auto simp: yields_def)
      have body: "yields (command_parse_options e self ?s) (?at ?ctx)"
        using parse_options_context [of e self ?s] enter by simp
      have leave: "yields (logger_leave (lg u)) (\<lambda>l. lg_context l = Some ctx)" if "lg_context (lg u) = Some ?ctx" for u
        using that by (auto intro: leave_over)
      show ?thesis
        unfolding Cons list.case yields_simps
        apply (rule over)
         apply (cases "mode = MODE_HELP")
          apply (simp add: quiet_context s case_prod_unfold)
         apply (simp only: if_False)
         apply (simp only: yields_simps prod.case)
         apply (rule inner [OF body])
         apply (simp only: yields_simps prod.case)
         apply (rule inner [OF said], assumption)
         apply (simp add: leave)
        apply (simp add: go)
        done
    qed (use s in simp)
    then show "?at ctx y" using run by simp
  qed
  with assms(2) show ?thesis by (cases y) auto
qed

end
