(* ===== verification/Client_Context.thy ===== *)
theory Client_Context
  imports Client_Props Client_Frames
begin

text \<open>
  Properties of the client's use of the library's state: the context stack of the logger, which
  names the command at work in every message, and the settings of the library.
\<close>

section \<open>The context stack of the logger\<close>

lemma enter_leave:
  assumes "lg_context l = Some ctx" "lg_context k = lg_context (logger_enter name l)"
  shows "logger_leave k = Some (k\<lparr>lg_context := Some ctx\<rparr>)"
  using assms by (simp add: logger_enter_def logger_leave_def)

lemma command_runs:
  assumes "lg_context (lg s) = Some ctx" "mode \<noteq> MODE_HELP"
    and parse: "command_parse_options e c (s\<lparr>lg := logger_enter (command_get_name c) (lg s)\<rparr>) = Some (True, c', t)"
    and "cm_id c' \<noteq> COMMAND_NONE" and run: "command_dispatch e c' mode t = Some (r, mode', u)"
  shows "lg_context (lg u) = Some (ctx @ [command_get_name c]) \<and>
    command_execute e c mode s = Some (r, mode', u\<lparr>lg := (lg u)\<lparr>lg_context := Some ctx\<rparr>\<rparr>)"
proof -
  have "lg_context (lg u) = lg_context (logger_enter (command_get_name c) (lg s))"
    using yieldsD [OF parse_options_context parse] yieldsD [OF dispatch_context run] by simp
  from this enter_leave [OF assms(1) this] assms show ?thesis
    by (simp add: command_execute_def commands_execute.simps logger_enter_def stringlist_append_def)
qed

definition named_state :: "uchar list xlink" where
  "named_state = (sample_state BUsb [])\<lparr>lg := logger_enter ''xlink'' logger_init\<rparr>"

definition help_command :: command where
  "help_command = fst (command_new [] [''help''])"

text \<open>C15. A command runs under its own name and leaves no trace of it: while its options are parsed and
  while it works the context stack of the logger is the one before with the name of the command
  on top, leaving never meets an empty stack, and afterwards the stack is as before.\<close>

theorem command_context:
  assumes "lg_context (lg s) = Some ctx" "mode \<noteq> MODE_HELP"
    and "command_parse_options e c (s\<lparr>lg := logger_enter (command_get_name c) (lg s)\<rparr>) = Some (True, c', t)"
    and "cm_id c' \<noteq> COMMAND_NONE" and "command_dispatch e c' mode t = Some (r, mode', u)"
  shows "lg_context (lg t) = Some (ctx @ [command_get_name c]) \<and>
    lg_context (lg u) = Some (ctx @ [command_get_name c]) \<and>
    (\<exists>s'. command_execute e c mode s = Some (r, mode', s') \<and> lg_context (lg s') = Some ctx)"
proof -
  have "lg_context (lg t) = lg_context (logger_enter (command_get_name c) (lg s))"
    using yieldsD [OF parse_options_context assms(3)] by simp
  with command_runs [OF assms] assms(1) show ?thesis
    by (simp add: logger_enter_def stringlist_append_def)
qed

theorem command_context_witness:
  "\<exists>s'. command_execute sample_env help_command MODE_EXEC named_state = Some (True, MODE_HELP, s') \<and>
     lg_context (lg s') = Some [''xlink'']"
proof -
  let ?s = "named_state\<lparr>lg := logger_enter (command_get_name help_command) (lg named_state)\<rparr>"
  have p: "map_option (\<lambda>(r, c, t). (r, cm_id c, cm_argv c)) (command_parse_options sample_env help_command ?s) =
      Some (True, COMMAND_HELP, [])" by code_simp
  then obtain c' t where parse: "command_parse_options sample_env help_command ?s = Some (True, c', t)"
    and c': "cm_id c' = COMMAND_HELP" "cm_argv c' = []" by auto
  have run: "command_dispatch sample_env c' MODE_EXEC t = Some (True, MODE_HELP, t)"
    using c' by (simp add: command_dispatch_def command_help_def command_ids)
  have "lg_context (lg named_state) = Some [''xlink'']" "MODE_EXEC \<noteq> MODE_HELP" "cm_id c' \<noteq> COMMAND_NONE"
    using c' by (simp_all add: named_state_def logger_enter_def logger_init_def stringlist_new_def stringlist_append_def
        MODE_EXEC_def MODE_HELP_def command_ids)
  from command_context [OF this(1,2) parse this(3) run] show ?thesis by auto
qed

text \<open>Executing any number of command lines, with the command lines that a list of files stands for
  nested in them, ends with the context stack it began with, whether it succeeds or not.\<close>

theorem commands_context:
  assumes "commands_execute e cs mode s = Some (r, mode', s')" "lg_context (lg s) = Some ctx"
  shows "lg_context (lg s') = Some ctx"
  using execute_context [OF assms] by simp

theorem commands_context_witness:
  "\<exists>y. commands_execute sample_env [help_command, help_command] MODE_HELP named_state = Some y \<and>
     lg_context (lg (snd (snd y))) = Some [''xlink'']"
proof -
  have c: "lg_context (lg named_state) = Some [''xlink'']"
    by (simp add: named_state_def logger_enter_def logger_init_def stringlist_new_def stringlist_append_def)
  have "ce_help sample_env i = (True, [])" for i by (simp add: sample_env_def)
  then have "commands_execute sample_env [help_command, help_command] MODE_HELP named_state =
      Some (True, MODE_HELP, print [] (print [] named_state))"
    by (simp add: commands_execute.simps)
  from commands_context [OF this c] this show ?thesis by auto
qed

text \<open>No command but by its options changes the machine, the timeout or the transfer state.\<close>

theorem command_keeps_settings:
  assumes "command_dispatch e c mode s = Some (r, mode', s')"
  shows "machine s' = machine s \<and> drv_timeout s' = drv_timeout s \<and> drv_state s' = drv_state s"
proof -
  have "yields (command_dispatch e c mode s) (\<lambda>(r, m, t). frame t = frame s)" by (auto intro!: keeps)
  from yieldsD [OF this assms] show ?thesis by (simp add: frame_def)
qed

theorem command_keeps_settings_witness:
  "\<exists>t. command_dispatch sample_env (help_command\<lparr>cm_argv := []\<rparr>) MODE_EXEC (sample_state BUsb []) =
     Some (True, MODE_HELP, t) \<and> machine t = c64"
proof -
  have "cm_id help_command = COMMAND_HELP" by code_simp
  then have "command_dispatch sample_env (help_command\<lparr>cm_argv := []\<rparr>) MODE_EXEC (sample_state BUsb []) =
      Some (True, MODE_HELP, sample_state BUsb [])"
    by (simp add: command_dispatch_def command_help_def command_ids)
  from command_keeps_settings [OF this] this show ?thesis by (simp add: sample_state_def)
qed

end
