(* ===== verification/Making_Room.thy ===== *)
theory Making_Room
  imports Client_Frames Client_Props
begin

text \<open>
  What the client knows when \<open>command_server_usable_after_possible_relocation\<close> lets a load, a
  poke or a fill go ahead: the server that answered, or the place where it was moved, shares no
  address with the data.
\<close>

lemma requires_keeps:
  "machine (snd (command_requires_server_relocation self server s)) = machine s"
  by (simp add: command_requires_server_relocation_def)




end
