(* ===== verification/Driver_Props.thy ===== *)
theory Driver_Props
  imports Driver
begin

text \<open>
  Which back end driver.c installs for a device, and what the automatic detection picks.
\<close>

text \<open>
  A specification of the choice: a name that begins with shm is the shared memory port; any other
  name has to be a character device, whose major number decides.
\<close>

definition device_backend :: "'w sys \<Rightarrow> string \<Rightarrow> 'w \<Rightarrow> backend option" where
  "device_backend sy path w =
     (if take 3 path = ''shm'' then Some BShm
      else case os_stat (sy_os sy) path w of
        Some (True, major) \<Rightarrow>
          map_of [(99, BParport), (189, BUsb), (188, BSerial), (-1, BShm)] major
      | _ \<Rightarrow> None)"

lemma setup_backend_error:
  "setup_backend sy b w s = Some (False, s') \<Longrightarrow> err_code s' = XLINK_ERROR_DEVICE"
  by (auto simp: setup_backend_def bind_iff Let_def)

lemma setup_device:
  assumes "driver_setup sy path s = Some (r, s')"
  shows "(err_code s' = XLINK_SUCCESS \<longleftrightarrow> r) \<and> (\<not> r \<longrightarrow> err_code s' = XLINK_ERROR_DEVICE) \<and>
    (case device_backend sy path (world s) of
       None \<Rightarrow> \<not> r \<and> drv_backend s' = drv_backend s \<and> trace s' = trace s
     | Some b \<Rightarrow> drv_backend s' = b)"
proof -
  have err: "err_code s' = XLINK_ERROR_DEVICE" if "\<not> r"
    using assms that
    by (auto simp: driver_setup_def device_identify_def device_is_supported_def device_is_defs bind_pair_iff
        CLEAR_ERROR_IF_def SET_ERROR_def split: if_splits option.splits prod.splits dest: setup_backend_error)
  have ok: "r \<Longrightarrow> err_code s' = XLINK_SUCCESS" using driver_setup_result [OF assms] by simp
  have "case device_backend sy path (world s) of
       None \<Rightarrow> \<not> r \<and> drv_backend s' = drv_backend s \<and> trace s' = trace s
     | Some b \<Rightarrow> drv_backend s' = b"
    using assms
    by (auto simp: driver_setup_def device_identify_def strncmp0_def device_is_supported_def device_is_defs device_consts
        device_backend_def CLEAR_ERROR_IF_def SET_ERROR_def bind_pair_iff split: if_splits option.splits prod.splits
        dest!: setup_backend_result)
  with err ok show ?thesis by (cases r) (simp_all add: error_codes)
qed

text \<open>C16. Setting up a device installs exactly the back end that the name and the major number call for,
  or, when they call for none, fails without touching any device and leaves the installed back
  end; a set-up that fails reports the device error, one that succeeds clears the error.\<close>

theorem driver_setup_device:
  assumes "driver_setup sy path s = Some (r, s')"
  shows "(err_code s' = XLINK_SUCCESS \<longleftrightarrow> r) \<and> (\<not> r \<longrightarrow> err_code s' = XLINK_ERROR_DEVICE) \<and>
    (case device_backend sy path (world s) of
       None \<Rightarrow> \<not> r \<and> drv_backend s' = drv_backend s \<and> trace s' = trace s
     | Some b \<Rightarrow> drv_backend s' = b)"
  using assms by (rule setup_device)

theorem driver_setup_device_witness:
  "\<exists>s'. driver_setup sample_sys ''/dev/parport0'' (sample_state BSetup []) = Some (True, s') \<and> drv_backend s' = BParport"
proof -
  let ?run = "driver_setup sample_sys ''/dev/parport0'' (sample_state BSetup [])"
  have "map_option fst ?run = Some True" by code_simp
  then obtain s' where run: "?run = Some (True, s')" by auto
  have "device_backend sample_sys ''/dev/parport0'' (world (sample_state BSetup [])) = Some BParport" by code_simp
  with driver_setup_device [OF run] run show ?thesis by simp
qed


section \<open>The device that is used\<close>







lemma paths [simp]:
  "drv_path (SET_ERROR c f a s) = drv_path s" "drv_path (CLEAR_ERROR_IF q s) = drv_path s"
  by (simp_all add: SET_ERROR_def CLEAR_ERROR_IF_def)







end
