(* ===== verification/Live.thy ===== *)
theory Live
  imports Xlink_Bus
begin

text \<open>
  That the requests return. Waiting for the other side has a time limit in each of load, save,
  fill, peek, poke, jump, run, inject, identify and ping, so when time passes none of these hangs
  over a byte port, whatever the other side does. \<open>xlink_reset\<close> is not among them: on a C128
  it pings as long as it is answered. The contracts are
  \<open>live_port\<close>, of the single byte operations, and \<open>live_driver\<close>, of the driver that xlink.c uses.
\<close>

section \<open>Total runs\<close>

text \<open>\<open>returns m P\<close>: m returns, and what it returns satisfies P.\<close>

definition returns :: "'a option \<Rightarrow> ('a \<Rightarrow> bool) \<Rightarrow> bool" where
  "returns m P \<longleftrightarrow> (\<exists>y. m = Some y \<and> P y)"

lemma returns_simps [simp]:
  "\<not> returns None P" "returns (Some y) P = P y"
  "returns (Option.bind m f) P = returns m (\<lambda>x. returns (f x) P)"
  "returns (map_option g m) P = returns m (\<lambda>x. P (g x))"
  by (auto simp: returns_def bind_iff)

lemma returns_if [simp]: "returns (if b then m else n) P = ((b \<longrightarrow> returns m P) \<and> (\<not> b \<longrightarrow> returns n P))"
  by simp

lemma returns_mono: "returns m P \<Longrightarrow> (\<And>y. P y \<Longrightarrow> Q y) \<Longrightarrow> returns m Q"
  by (auto simp: returns_def)

lemma returns_keeps: "returns m (\<lambda>(x, t). p t) \<Longrightarrow> (\<And>x t. p t \<Longrightarrow> P (x, t)) \<Longrightarrow> returns m P"
  by (auto simp: returns_def)

section \<open>The contracts\<close>

locale live_port =
  fixes d :: "('w, 'm) prims_scheme"
    and port :: "'w xlink \<Rightarrow> bool"
  assumes write_returns: "port s \<Longrightarrow> returns (d_write d b s) port"
    and read_returns: "port s \<Longrightarrow> returns (d_read d s) (\<lambda>(b, t). port t)"
    and strobe_returns: "port s \<Longrightarrow> returns (d_strobe d s) port"
    and wait_returns: "port s \<Longrightarrow> 0 < t \<Longrightarrow> returns (d_wait d t s) (\<lambda>(r, t). port t)"
    and port_timeout: "port s \<Longrightarrow> 0 < drv_timeout s"
    and port_error: "port (SET_ERROR c f a s) = port s"
begin

lemma pulse_returns: "port s \<Longrightarrow> (\<And>t. port t \<Longrightarrow> P t) \<Longrightarrow> returns (d_strobe d s) P"
  by (rule returns_mono [OF strobe_returns])

lemma put_returns: "port s \<Longrightarrow> (\<And>t. port t \<Longrightarrow> P t) \<Longrightarrow> returns (d_write d b s) P"
  by (rule returns_mono [OF write_returns])

lemma wait_over: "port s \<Longrightarrow> 0 < n \<Longrightarrow> (\<And>r t. port t \<Longrightarrow> P (r, t)) \<Longrightarrow> returns (d_wait d n s) P"
  by (rule returns_keeps [OF wait_returns])

lemma read_over: "port s \<Longrightarrow> (\<And>b t. port t \<Longrightarrow> P (b, t)) \<Longrightarrow> returns (d_read d s) P"
  by (rule returns_keeps [OF read_returns])

lemma send_returns: "port s \<Longrightarrow> returns (handshake_send code d i len r bs s) (\<lambda>(r, t). port t)"
  by (induction bs arbitrary: i r s)
    (auto simp: port_error port_timeout intro!: put_returns pulse_returns wait_over)

lemma receive_returns:
  "port s \<Longrightarrow> returns (handshake_receive code d i len r n bs s) (\<lambda>(x, t). port t)"
  by (induction n arbitrary: i r bs s)
    (auto simp: port_error port_timeout intro!: read_over pulse_returns wait_over)

end

locale live_driver =
  fixes d :: "('w, 'm) driver_scheme"
    and port :: "'w xlink \<Rightarrow> bool"
  assumes open_returns: "port s \<Longrightarrow> returns (d_open d s) (\<lambda>(r, t). port t)"
    and close_returns: "port s \<Longrightarrow> returns (d_close d s) port"
    and input_returns: "port s \<Longrightarrow> returns (d_input d s) port"
    and output_returns: "port s \<Longrightarrow> returns (d_output d s) port"
    and strobe_returns: "port s \<Longrightarrow> returns (d_strobe d s) port"
    and ping_returns: "port s \<Longrightarrow> returns (d_ping d s) (\<lambda>(r, t). port t)"
    and send_returns: "port s \<Longrightarrow> returns (d_send d bs s) (\<lambda>(r, t). port t)"
    and receive_returns: "port s \<Longrightarrow> returns (d_receive d n s) (\<lambda>(x, t). port t)"
    and port_error: "port (SET_ERROR c f a s) = port s"
    and port_clear: "port (CLEAR_ERROR_IF q s) = port s"
begin

lemma over:
  "port s \<Longrightarrow> (\<And>r t. port t \<Longrightarrow> P (r, t)) \<Longrightarrow> returns (d_open d s) P"
  "port s \<Longrightarrow> (\<And>r t. port t \<Longrightarrow> P (r, t)) \<Longrightarrow> returns (d_ping d s) P"
  "port s \<Longrightarrow> (\<And>r t. port t \<Longrightarrow> P (r, t)) \<Longrightarrow> returns (d_send d bs s) P"
  "port s \<Longrightarrow> (\<And>x t. port t \<Longrightarrow> Q (x, t)) \<Longrightarrow> returns (d_receive d n s) Q"
  "port s \<Longrightarrow> (\<And>t. port t \<Longrightarrow> R t) \<Longrightarrow> returns (d_close d s) R"
  "port s \<Longrightarrow> (\<And>t. port t \<Longrightarrow> R t) \<Longrightarrow> returns (d_input d s) R"
  "port s \<Longrightarrow> (\<And>t. port t \<Longrightarrow> R t) \<Longrightarrow> returns (d_output d s) R"
  "port s \<Longrightarrow> (\<And>t. port t \<Longrightarrow> R t) \<Longrightarrow> returns (d_strobe d s) R"
  by (erule returns_keeps [OF open_returns] returns_keeps [OF ping_returns] returns_keeps [OF send_returns]
    returns_keeps [OF receive_returns] returns_mono [OF close_returns] returns_mono [OF input_returns]
    returns_mono [OF output_returns] returns_mono [OF strobe_returns], blast)+

lemma closing_over: "port s \<Longrightarrow> (\<And>t. port t \<Longrightarrow> P (r, t)) \<Longrightarrow> returns (closing d r s) P"
  by (auto simp: closing_def intro!: over)

lemma session_returns:
  assumes "port s" "\<And>t. port t \<Longrightarrow> returns (body t) (\<lambda>(x, u). port u)"
  shows "returns (session d ok initial body s) (\<lambda>(x, t). port t)"
  using assms(1) by (auto simp: session_def port_clear intro!: over returns_keeps [OF assms(2)])

lemma request_returns:
  assumes "port s" "\<And>t. port t \<Longrightarrow> returns (rest t) (\<lambda>(x, u). port u)"
  shows "returns (request d bad bytes rest s) (\<lambda>(x, t). port t)"
  using assms(1) by (auto simp: request_def port_error intro!: over closing_over returns_keeps [OF assms(2)])

lemma exchange_returns:
  assumes "port s" "\<And>t. port t \<Longrightarrow> returns (rest t) (\<lambda>(x, u). port u)"
  shows "returns (session d ok initial (request d bad bytes rest) s) (\<lambda>(x, t). port t)"
  by (rule session_returns [OF assms(1) request_returns [OF _ assms(2)]])

lemma requests_return:
  assumes "port s"
  shows "returns (xlink_load d m b a bytes s) (\<lambda>(x, t). port t)"
    and "returns (xlink_save d m b a n s) (\<lambda>(x, t). port t)"
    and "returns (xlink_peek d m b a s) (\<lambda>(x, t). port t)"
    and "returns (xlink_poke d m b a v s) (\<lambda>(x, t). port t)"
    and "returns (xlink_jump d m b a s) (\<lambda>(x, t). port t)"
    and "returns (xlink_run d s) (\<lambda>(x, t). port t)"
    and "returns (xlink_identify d si s) (\<lambda>(x, t). port t)"
    and "returns (xlink_ping d s) (\<lambda>(x, t). port t)"
  unfolding xlink_load_def xlink_save_def xlink_peek_def xlink_poke_def xlink_jump_def xlink_run_def
    xlink_identify_def xlink_ping_def
  by (auto simp: turn_def Let_def port_error intro!: session_returns request_returns over closing_over assms)

lemma inject_returns:
  assumes "port s"
  shows "returns (xlink_inject d a code s) (\<lambda>(x, t). port t)"
  unfolding xlink_inject_def
  by (auto simp: Let_def port_clear intro!: returns_keeps [OF requests_return(1)] session_returns request_returns
      closing_over assms)

end

section \<open>Time passes\<close>

definition microseconds :: "timeval \<Rightarrow> int" where
  "microseconds t = fst t * 1000000 + snd t"

text \<open>
  The clock reaches every time T: there are only so many readings of the clock before T, however
  often the program looks at its port or sleeps between them.
\<close>

definition clock_runs :: "'w sys \<Rightarrow> bool" where
  "clock_runs sy \<longleftrightarrow> (\<forall>T. \<exists>left :: 'w \<Rightarrow> nat. \<forall>w.
     (microseconds (fst (os_now (sy_os sy) w)) < T \<longrightarrow> left (snd (os_now (sy_os sy) w)) < left w) \<and>
     (\<forall>fd. left (snd (pp_rstatus (sy_pp sy) fd w)) \<le> left w) \<and>
     left (snd (shm_pa2 (sy_shm sy) w)) \<le> left w \<and>
     (\<forall>n. left (os_usleep (sy_os sy) n w) \<le> left w))"

lemma not_expired: "\<not> watch_expired start t n \<longleftrightarrow> microseconds t < microseconds start + n * 1000"
  by (simp add: watch_expired_def watch_elapsed_us_def microseconds_def algebra_simps) arith

lemma parport_poll_returns:
  assumes "clock_runs sy"
  shows "\<exists>y. parport_poll_timed sy start n c s = Some y"
proof -
  from assms obtain left :: "'a \<Rightarrow> nat" where
    now: "\<And>w. microseconds (fst (os_now (sy_os sy) w)) < microseconds start + n * 1000 \<Longrightarrow>
      left (snd (os_now (sy_os sy) w)) < left w"
    and look: "\<And>fd w. left (snd (pp_rstatus (sy_pp sy) fd w)) \<le> left w"
    unfolding clock_runs_def by (metis (no_types))
  show ?thesis
  proof (induction "left (world s)" arbitrary: c s rule: less_induct)
    case less
    obtain c' s1 where 1: "parport_read_status sy s = (c', s1)" by fastforce
    obtain t s2 where 2: "now sy s1 = (t, s2)" by fastforce
    have le: "left (world s1) \<le> left (world s)"
      using 1 look by (auto simp: parport_read_status_def ask_def Let_def)
    have t: "t = fst (os_now (sy_os sy) (world s1))" "world s2 = snd (os_now (sy_os sy) (world s1))"
      using 2 by (auto simp: now_def ask_def)
    have again: "\<exists>y. parport_poll_timed sy start n c' s2 = Some y" if "\<not> watch_expired start t n"
      using less [of s2 c'] le now [of "world s1"] that t by (simp add: not_expired)
    show ?case
      using 1 2 again by (subst parport_poll_timed.simps) auto
  qed
qed

lemma shm_poll_returns:
  assumes "clock_runs sy"
  shows "\<exists>y. shm_poll_timed sy start n c s = Some y"
proof -
  from assms obtain left :: "'a \<Rightarrow> nat" where
    now: "\<And>w. microseconds (fst (os_now (sy_os sy) w)) < microseconds start + n * 1000 \<Longrightarrow>
      left (snd (os_now (sy_os sy) w)) < left w"
    and look: "\<And>w. left (snd (shm_pa2 (sy_shm sy) w)) \<le> left w"
    and sleep: "\<And>k w. left (os_usleep (sy_os sy) k w) \<le> left w"
    unfolding clock_runs_def by (metis (no_types))
  show ?thesis
  proof (induction "left (world s)" arbitrary: c s rule: less_induct)
    case less
    obtain c' s1 where 1: "ask (shm_pa2 (sy_shm sy)) s = (c', s1)" by fastforce
    obtain t s2 where 2: "now sy (usleep sy 0 s1) = (t, s2)" by fastforce
    have le: "left (world (usleep sy 0 s1)) \<le> left (world s)"
      using 1 look [of "world s"] sleep [of 0 "world s1"] by (auto simp: ask_def usleep_def act_def)
    have t: "t = fst (os_now (sy_os sy) (world (usleep sy 0 s1)))" "world s2 = snd (os_now (sy_os sy) (world (usleep sy 0 s1)))"
      using 2 by (auto simp: now_def ask_def)
    have again: "\<exists>y. shm_poll_timed sy start n c' s2 = Some y" if "\<not> watch_expired start t n"
      using less [of s2 c'] le now [of "world (usleep sy 0 s1)"] that t by (simp add: not_expired)
    show ?case
      using 1 2 again by (subst shm_poll_timed.simps) auto
  qed
qed

section \<open>The byte ports provide it\<close>

definition live_at :: "backend \<Rightarrow> 'w sys \<Rightarrow> 'w xlink \<Rightarrow> bool" where
  "live_at b sy s \<longleftrightarrow> clock_runs sy \<and> drv_backend s = b \<and> 0 < drv_timeout s"

lemma live_at_seat: "seat t = seat s \<Longrightarrow> live_at b sy t = live_at b sy s"
  by (simp add: live_at_def seat_def frame_def)

lemma live_at_core: "live_at b sy s \<Longrightarrow> core t = core s \<Longrightarrow> live_at b sy t"
  using live_at_seat core_seat by blast

lemma live_at_errors: "live_at b sy (SET_ERROR c f a s) = live_at b sy s" "live_at b sy (CLEAR_ERROR_IF q s) = live_at b sy s"
  by (rule live_at_seat, simp)+

lemma live_at_byte_calls:
  assumes "live_at b sy s" "b = BParport \<or> b = BShm"
  shows "returns (driver_write sy v s) (live_at b sy)" "returns (driver_read sy s) (\<lambda>(v, t). live_at b sy t)"
    "returns (driver_strobe sy s) (live_at b sy)" "returns (driver_input sy s) (live_at b sy)"
    "returns (driver_output sy s) (live_at b sy)"
    "0 < n \<Longrightarrow> returns (driver_wait sy n s) (\<lambda>(r, t). live_at b sy t)"
proof -
  have be: "drv_backend s = b" and c: "clock_runs sy" using assms(1) by (simp_all add: live_at_def)
  have "\<exists>y. driver_write sy v s = Some y" "\<exists>y. driver_read sy s = Some y" "\<exists>y. driver_strobe sy s = Some y"
    "\<exists>y. driver_input sy s = Some y" "\<exists>y. driver_output sy s = Some y"
    using assms(2) be
    by (auto simp: driver_write_def driver_parport_write_def driver_shm_write_def driver_read_def
        driver_parport_read_def driver_shm_read_def driver_strobe_def driver_parport_strobe_def driver_shm_strobe_def
        driver_input_def driver_parport_input_def driver_shm_input_def driver_output_def driver_parport_output_def
        driver_shm_output_def Let_def case_prod_unfold)
  then show "returns (driver_write sy v s) (live_at b sy)" "returns (driver_read sy s) (\<lambda>(v, t). live_at b sy t)"
    "returns (driver_strobe sy s) (live_at b sy)" "returns (driver_input sy s) (live_at b sy)"
    "returns (driver_output sy s) (live_at b sy)"
    using live_at_core [OF assms(1)] by (auto simp: returns_def dest: driver_core)
  have "\<exists>y. driver_wait sy n s = Some y" if "0 < n"
  proof -
    have "\<exists>y. driver_parport_wait sy n s = Some y"
    proof -
      let ?t = "snd (now sy (snd (now sy s)))"
      obtain y where "parport_poll_timed sy (fst (now sy (snd (now sy s)))) n (pp_last_status s) ?t = Some y"
        using parport_poll_returns [OF c] by blast
      then show ?thesis using that by (auto simp: driver_parport_wait_def Let_def case_prod_unfold)
    qed
    moreover have "\<exists>y. driver_shm_wait sy n s = Some y"
      using that shm_poll_returns [OF c] by (auto simp: driver_shm_wait_def Let_def case_prod_unfold)
    ultimately show ?thesis using assms(2) be by (auto simp: driver_wait_def)
  qed
  then show "0 < n \<Longrightarrow> returns (driver_wait sy n s) (\<lambda>(r, t). live_at b sy t)"
    using live_at_core [OF assms(1)] by (auto simp: returns_def dest: driver_core)
qed

interpretation pp_live: live_port "driver_prims sy" "live_at BParport sy" for sy
  by unfold_locales (auto simp: live_at_byte_calls live_at_errors, simp add: live_at_def)

interpretation shm_live: live_port "driver_prims sy" "live_at BShm sy" for sy
  by unfold_locales (auto simp: live_at_byte_calls live_at_errors, simp add: live_at_def)

lemma driver_parport_open_returns: "driver_parport_open sy s \<noteq> None"
  by (simp add: driver_parport_open_def Let_def case_prod_unfold) blast

lemma driver_shm_open_returns: "drv_backend s = BShm \<Longrightarrow> driver_shm_open sy (driver_prims sy) s \<noteq> None"
  by (simp add: driver_shm_open_def Let_def case_prod_unfold driver_input_def driver_shm_input_def shm_write_flag_def
      world_defs) blast

lemma live_at_open:
  assumes "live_at b sy s" "b = BParport \<or> b = BShm"
  shows "returns (driver_open sy s) (\<lambda>(r, t). live_at b sy t)"
proof -
  have be: "drv_backend s = b" using assms(1) by (simp add: live_at_def)
  have "driver_open sy s \<noteq> None"
    using assms(2) be driver_parport_open_returns [of sy s] driver_shm_open_returns [of s sy]
    by (auto simp: driver_open_def backend_open_def)
  then obtain r t where t: "driver_open sy s = Some (r, t)" by auto
  have "driver_open sy s = backend_open sy s" using assms(2) be by (auto simp: driver_open_def)
  with t backend_open_result [of sy s r t] have "seat t = seat s" by simp
  from live_at_seat [OF this] t assms(1) show ?thesis by (simp add: returns_def)
qed

lemma live_at_close:
  assumes "live_at b sy s" "b = BParport \<or> b = BShm"
  shows "returns (driver_close sy s) (live_at b sy)"
proof -
  have "\<exists>t. driver_close sy s = Some t"
    using live_at_byte_calls(4) [OF assms] assms(2)
    by (auto simp: driver_close_def driver_parport_close_def driver_shm_close_def returns_def live_at_def Let_def)
  then show ?thesis using live_at_core [OF assms(1)] by (auto simp: returns_def dest: driver_close_core)
qed

lemma live_at_over:
  assumes "b = BParport \<or> b = BShm" "live_at b sy s"
  shows "(\<And>t. live_at b sy t \<Longrightarrow> P t) \<Longrightarrow> returns (driver_write sy v s) P"
    "(\<And>t. live_at b sy t \<Longrightarrow> P t) \<Longrightarrow> returns (driver_strobe sy s) P"
    "(\<And>t. live_at b sy t \<Longrightarrow> P t) \<Longrightarrow> returns (driver_output sy s) P"
  by (erule returns_mono [OF live_at_byte_calls(1) [OF assms(2,1)]] returns_mono [OF live_at_byte_calls(3) [OF assms(2,1)]]
    returns_mono [OF live_at_byte_calls(5) [OF assms(2,1)]])+

lemma live_at_transfers:
  assumes b: "b = BParport \<or> b = BShm" and s: "live_at b sy s"
  shows "returns (driver_ping sy s) (\<lambda>(r, t). live_at b sy t)"
    "returns (driver_send sy bs s) (\<lambda>(r, t). live_at b sy t)"
    "returns (driver_receive sy n s) (\<lambda>(x, t). live_at b sy t)"
proof -
  have be: "drv_backend s = b" using s by (simp add: live_at_def)
  have "driver_ping sy s = driver_parport_ping (driver_prims sy) s"
    using b be by (auto simp: driver_ping_def driver_parport_ping_def driver_shm_ping_def)
  then show "returns (driver_ping sy s) (\<lambda>(r, t). live_at b sy t)"
    using s by (auto simp: driver_parport_ping_def intro!: live_at_over [OF b] live_at_byte_calls(6) b)
  show "returns (driver_send sy bs s) (\<lambda>(r, t). live_at b sy t)"
    using b be s pp_live.send_returns [of sy s] shm_live.send_returns [of sy s]
    by (auto simp: driver_send_def driver_parport_send_def driver_shm_send_def)
  show "returns (driver_receive sy n s) (\<lambda>(x, t). live_at b sy t)"
    using b be s pp_live.receive_returns [of sy s] shm_live.receive_returns [of sy s]
    by (auto simp: driver_receive_def driver_parport_receive_def driver_shm_receive_def)
qed

lemma live_at_driver:
  assumes "b = BParport \<or> b = BShm"
  shows "live_driver (libxlink_driver sy) (live_at b sy)"
  by unfold_locales
    (simp_all add: libxlink_driver_def live_at_open live_at_close live_at_byte_calls live_at_transfers live_at_errors assms)

interpretation pp_driver: live_driver "libxlink_driver sy" "live_at BParport sy" for sy
  by (rule live_at_driver) simp

interpretation shm_driver: live_driver "libxlink_driver sy" "live_at BShm sy" for sy
  by (rule live_at_driver) simp

section \<open>Properties\<close>

text \<open>C14. Over the parallel port, with a time limit set and time passing, ten functions of the library
  return whatever the Commodore does: load, save, fill, peek, poke, jump, run, inject,
  identification and ping. (Not xlink_reset, which on a C128 pings as long as it is answered,
  and so not xlink_ready, which calls it.)\<close>

theorem parport_requests_return:
  assumes "clock_runs sy" "drv_backend s = BParport" "0 < drv_timeout s"
  shows "xlink_load (libxlink_driver sy) m b a bytes s \<noteq> None \<and> xlink_save (libxlink_driver sy) m b a n s \<noteq> None \<and>
    xlink_peek (libxlink_driver sy) m b a s \<noteq> None \<and> xlink_poke (libxlink_driver sy) m b a v s \<noteq> None \<and>
    xlink_jump (libxlink_driver sy) m b a s \<noteq> None \<and> xlink_run (libxlink_driver sy) s \<noteq> None \<and>
    xlink_identify (libxlink_driver sy) si s \<noteq> None \<and> xlink_ping (libxlink_driver sy) s \<noteq> None \<and>
    xlink_fill (libxlink_driver sy) m b a v n s \<noteq> None \<and> xlink_inject (libxlink_driver sy) a bytes s \<noteq> None"
proof -
  have "live_at BParport sy s" using assms by (simp add: live_at_def)
  from pp_driver.requests_return [OF this] pp_driver.inject_returns [OF this] show ?thesis
    unfolding returns_def xlink_fill_def by (intro conjI) (metis option.distinct(1))+
qed

text \<open>A clock that shows one microsecond more at each reading, and a Commodore that acknowledges soon.\<close>

definition clock_sys :: "uchar list sys" where
  "clock_sys = sample_sys
     \<lparr>sy_os := (sy_os sample_sys)\<lparr>os_now := \<lambda>w. ((0, int (length w)), 0 # w)\<rparr>,
      sy_pp := (sy_pp sample_sys)\<lparr>pp_rstatus := \<lambda>fd w. (Some (if even (length w) then 0x80 else 0), w)\<rparr>,
      sy_shm := (sy_shm sample_sys)\<lparr>shm_pa2 := \<lambda>w. (0, w)\<rparr>\<rparr>"

lemma clock_sys_runs: "clock_runs clock_sys"
  unfolding clock_runs_def
proof
  fix T :: int
  show "\<exists>left :: uchar list \<Rightarrow> nat. \<forall>w.
     (microseconds (fst (os_now (sy_os clock_sys) w)) < T \<longrightarrow> left (snd (os_now (sy_os clock_sys) w)) < left w) \<and>
     (\<forall>fd. left (snd (pp_rstatus (sy_pp clock_sys) fd w)) \<le> left w) \<and>
     left (snd (shm_pa2 (sy_shm clock_sys) w)) \<le> left w \<and>
     (\<forall>n. left (os_usleep (sy_os clock_sys) n w) \<le> left w)"
    by (rule exI [of _ "\<lambda>w. nat (T - int (length w))"])
      (auto simp: clock_sys_def sample_sys_def microseconds_def)
qed

theorem parport_requests_return_witness:
  "xlink_load (libxlink_driver clock_sys) 0x37 0 0x0801 [1, 2] (sample_state BParport []) \<noteq> None"
  using parport_requests_return [OF clock_sys_runs, of "sample_state BParport []"]
  by (simp add: sample_state_def)

lemma empty_load_fails:
  assumes "xlink_load (libxlink_driver sy) m b a [] s = Some (r, s')" "drv_backend s = BParport"
  shows "\<not> r"
proof
  assume r
  with assms(1) obtain t1 q2 t2 t3 cmd t4 t5 where to: "driver_open sy s = Some (True, t1)"
      "driver_ping sy t1 = Some (q2, t2)" "driver_output sy t2 = Some t3"
      "driver_send sy cmd t3 = Some (True, t4)"
    and send: "driver_send sy [] t4 = Some (True, t5)"
    by (fastforce simp: xlink_load_def session_def request_def closing_def bind_iff libxlink_driver_def split: if_splits)
  have "driver_open sy s = backend_open sy s" using assms(2) by (simp add: driver_open_def)
  with to(1) backend_open_result [of sy s True t1] have "seat t1 = seat s" by simp
  with core_seat [OF driver_ping_core [OF to(2)]] core_seat [OF driver_core(2) [OF to(3)]] driver_send_result [OF to(4)]
  have "seat t4 = seat s" by simp
  then have "drv_backend t4 = BParport" using assms(2) by (simp add: seat_def)
  with send show False by (simp add: driver_send_def driver_parport_send_def)
qed

text \<open>C5. So with a running clock a load over the parallel port returns, and reports success only when all
  its bytes were on the bus, the ping, the command and the data in this order. A load of at
  least one byte that fails says so in the error code; a load of no bytes never succeeds, and
  its error code says nothing.\<close>

theorem parport_load_outcome:
  assumes "clock_runs sy" "drv_backend s = BParport" "0 < drv_timeout s"
  shows "\<exists>r s'. xlink_load (libxlink_driver sy) m b a bytes s = Some (r, s') \<and>
    (bytes \<noteq> [] \<longrightarrow> (err_code s' = XLINK_SUCCESS \<longleftrightarrow> r)) \<and> (bytes = [] \<longrightarrow> \<not> r) \<and>
    (r \<longrightarrow> pp_bus (trace s') =
       pp_bus (trace s) @ map Sent (0xfd # range_command XLINK_COMMAND_LOAD m b a (length bytes) @ bytes))"
proof -
  have "live_at BParport sy s" using assms by (simp add: live_at_def)
  from pp_driver.requests_return(1) [OF this, of m b a bytes] obtain r s' where
    run: "xlink_load (libxlink_driver sy) m b a bytes s = Some (r, s')"
    by (auto simp: returns_def)
  have "r \<Longrightarrow> pp_bus (trace s') =
       pp_bus (trace s) @ map Sent (0xfd # range_command XLINK_COMMAND_LOAD m b a (length bytes) @ bytes)"
    using run ppb.load_says [of sy m b a bytes s s'] assms(2) by (simp add: pp_port_def)
  with run lib.load_result [OF run] empty_load_fails [of sy m b a s r s'] assms(2) show ?thesis by blast
qed

theorem parport_load_outcome_witness:
  "map_option (\<lambda>(r, s). (r, pp_bus (trace s)))
     (xlink_load (libxlink_driver clock_sys) 0x37 0 0x0801 [9, 8] (sample_state BParport [])) =
   Some (True, map Sent [0xfd, 1, 0x37, 0, 0x01, 0x08, 0x03, 0x08, 9, 8])"
proof -
  let ?s = "sample_state BParport []"
  have "drv_backend ?s = BParport" "0 < drv_timeout ?s" by (simp_all add: sample_state_def)
  from parport_load_outcome [OF clock_sys_runs this] obtain r s' where
    run: "xlink_load (libxlink_driver clock_sys) 0x37 0 0x0801 [9, 8] ?s = Some (r, s')"
    and bus: "r \<longrightarrow> pp_bus (trace s') =
       pp_bus (trace ?s) @ map Sent (0xfd # range_command XLINK_COMMAND_LOAD 0x37 0 0x0801 (length [9, 8 :: uchar]) @ [9, 8])"
    by blast
  have "map_option fst (xlink_load (libxlink_driver clock_sys) 0x37 0 0x0801 [9, 8] ?s) = Some True" by code_simp
  moreover have "pp_bus (trace ?s) = []" by code_simp
  moreover have "range_command XLINK_COMMAND_LOAD 0x37 0 0x0801 (length [9, 8 :: uchar]) = [1, 0x37, 0, 0x01, 0x08, 0x03, 0x08]"
    by code_simp
  ultimately show ?thesis using run bus by simp
qed

end
