(* ===== verification/Ack_Poll.thy ===== *)
theory Ack_Poll
  imports Prelude
begin

text \<open>
  The wait for the acknowledge line that both firmwares have in Send and Receive: look at the
  line until it differs from the last value, or until the timer says that it is too late. The
  contract of the loop is stated once, as a locale, for any way to look and to measure time.
\<close>

partial_function (option) poll_ack :: "('m \<Rightarrow> uchar \<times> 'm) \<Rightarrow> ('m \<Rightarrow> bool) \<Rightarrow> ('m \<Rightarrow> uchar) \<Rightarrow> uchar \<Rightarrow> 'm
    \<Rightarrow> (bool \<times> uchar \<times> 'm) option" where
  "poll_ack look late prev current m =
     (if current = prev m then
        (case look m of (current, m) \<Rightarrow>
           if late m then Some (True, current, m) else poll_ack look late prev current m)
      else Some (False, current, m))"

declare poll_ack.simps [code]

lemma poll_ack_invariant:
  assumes step: "\<And>m c m'. I m \<Longrightarrow> look m = (c, m') \<Longrightarrow> I m'"
    and run: "poll_ack look late prev c m = Some (l, c', m')" and start: "I m"
  shows "I m'"
proof -
  let ?P = "\<lambda>lo la pr c m y. lo = look \<longrightarrow> I m \<longrightarrow> I (snd (snd y))"
  have "?P look late prev c m (l, c', m')"
    by (rule poll_ack.raw_induct [where P = ?P, OF _ run]) (auto dest: step split: if_splits prod.splits)
  then show ?thesis using start by simp
qed

text \<open>\<open>face\<close> is what a look leaves alone, the last acknowledge among it.\<close>

locale ack_poll =
  fixes look :: "'m \<Rightarrow> uchar \<times> 'm" and late :: "'m \<Rightarrow> bool" and prev :: "'m \<Rightarrow> uchar" and face :: "'m \<Rightarrow> 'f"
  assumes look_face: "look m = (c, m') \<Longrightarrow> face m' = face m"
    and prev_face: "face m' = face m \<Longrightarrow> prev m' = prev m"
begin

lemma result:
  assumes "poll_ack look late prev c m = Some (l, c', m')"
  shows "face m' = face m \<and> (l \<longrightarrow> late m') \<and> (\<not> l \<longrightarrow> c' \<noteq> prev m)"
proof -
  let ?Q = "\<lambda>m y. case y of (l, c', m') \<Rightarrow> face m' = face m \<and> (l \<longrightarrow> late m') \<and> (\<not> l \<longrightarrow> c' \<noteq> prev m)"
  let ?P = "\<lambda>lo la pr c m y. lo = look \<longrightarrow> la = late \<longrightarrow> pr = prev \<longrightarrow> ?Q m y"
  have "?P look late prev c m (l, c', m')"
  proof (rule poll_ack.raw_induct [where P = ?P, OF _ assms])
    fix go lo la pr c m y
    assume IH: "\<And>lo la pr c m y. go lo la pr c m = Some y \<Longrightarrow> ?P lo la pr c m y"
      and run: "(if c = pr m then (case lo m of (c, m) \<Rightarrow> if la m then Some (True, c, m) else go lo la pr c m)
        else Some (False, c, m)) = Some y"
    obtain c1 m1 where l: "look m = (c1, m1)" by fastforce
    show "?P lo la pr c m y"
      using run l look_face [OF l] prev_face [OF look_face [OF l]] IH [of look late prev c1 m1 y]
      by (auto split: if_splits)
  qed
  then show ?thesis by simp
qed

end

text \<open>Time passes: a look either ends the wait or brings its end nearer.\<close>

locale timed_ack_poll = ack_poll look late prev face
  for look :: "'m \<Rightarrow> uchar \<times> 'm" and late prev and face :: "'m \<Rightarrow> 'f" +
  fixes running :: "'m \<Rightarrow> bool" and rank :: "'m \<Rightarrow> nat \<times> nat"
  assumes progress: "running m \<Longrightarrow> look m = (c, m') \<Longrightarrow>
    late m' \<or> running m' \<and> (rank m', rank m) \<in> {(x, y). x < y} <*lex*> {(x, y). x < y}"
begin

lemma returns: "running m \<Longrightarrow> \<exists>y. poll_ack look late prev c m = Some y"
proof (induction "rank m" arbitrary: m c rule: wf_induct_rule [OF wf_lex_prod [OF wf_less wf_less]])
  case (1 m c)
  obtain c1 m1 where l: "look m = (c1, m1)" by fastforce
  from progress [OF 1(2) l] consider "late m1" | "\<exists>y. poll_ack look late prev c1 m1 = Some y"
    using 1(1) by blast
  then show ?case by cases (auto simp: poll_ack.simps [of look late prev c m] l)
qed

lemma silent:
  assumes "running m" "\<And>m'. face m' = face m \<Longrightarrow> fst (look m') = prev m"
  shows "\<exists>c' m'. poll_ack look late prev (prev m) m = Some (True, c', m')"
proof -
  have "l" if "poll_ack look late prev (prev m) m = Some (l, c', m')" for l c' m'
  proof -
    let ?P = "\<lambda>lo la pr c n y. lo = look \<longrightarrow> la = late \<longrightarrow> pr = prev \<longrightarrow>
      face n = face m \<longrightarrow> c = prev m \<longrightarrow> fst y"
    have "?P look late prev (prev m) m (l, c', m')"
    proof (rule poll_ack.raw_induct [where P = ?P, OF _ that])
      fix go lo la pr c n y
      assume IH: "\<And>lo la pr c n y. go lo la pr c n = Some y \<Longrightarrow> ?P lo la pr c n y"
        and run: "(if c = pr n then (case lo n of (c, n) \<Rightarrow> if la n then Some (True, c, n) else go lo la pr c n)
          else Some (False, c, n)) = Some y"
      obtain c1 n1 where l: "look n = (c1, n1)" by fastforce
      show "?P lo la pr c n y"
        using run l look_face [OF l] prev_face [of n m] assms(2) [of n] IH [of look late prev c1 n1 y]
        by (auto split: if_splits)
    qed
    then show ?thesis by simp
  qed
  with returns [OF assms(1), of "prev m"] show ?thesis by (metis prod_cases3)
qed

end

text \<open>
  The timer interrupt counts overflows in 32 bits and gives their d-th part in 16 bits: until
  the limit is reached, nothing wraps.
\<close>

lemma timer_tick:
  fixes q :: uint and t :: uint
  assumes "unat q < d * unat t" "unat t < 65536" "0 < d" "d \<le> 4"
    and "\<not> unat t \<le> unat (ucast ((q + 1) div word_of_nat d) :: ushort)"
  shows "unat (q + 1) = Suc (unat q)" "unat (q + 1) < d * unat t"
proof -
  have "d * unat t \<le> 4 * 65536" using assms(2,4) by (intro mult_le_mono) auto
  then have q: "unat q < 4 * 65536" using assms(1) by linarith
  then show u: "unat (q + 1) = Suc (unat q)" by (simp add: unat_word_ariths)
  have "unat (word_of_nat d :: uint) = d" using assms(4) by (simp add: unat_of_nat)
  then have e: "unat ((q + 1) div word_of_nat d :: uint) = unat (q + 1) div d" by (simp add: unat_div)
  have "unat (q + 1) div d \<le> unat t"
    using assms(1,3) u by (metis Suc_leI div_le_mono nonzero_mult_div_cancel_left not_gr0)
  then have "unat (ucast ((q + 1) div word_of_nat d) :: ushort) = unat (q + 1) div d"
    using e assms(2) by (simp add: unsigned_ucast_eq take_bit_nat_eq_self)
  then have "unat (q + 1) div d < unat t" using assms(5) by linarith
  then show "unat (q + 1) < d * unat t"
    using assms(3) by (metis div_less_iff_less_mult mult.commute)
qed

end
