(* ===== verification/Servant64.thy ===== *)
theory Servant64
  imports Protocol Ack_Poll
begin

text \<open>
  driver/servant64/xlink.c: the firmware of the serial adapter (ATmega), which takes 9 byte
  commands from the host and drives the user port of the Commodore. The eight data lines are
  spread over three ports. What the pins and the serial line bring is the environment \<open>'e\<close>;
  the timer interrupt is delivered at the polling points of the wait loop. The watchdog is
  not modelled. Three fields are for the theorems only: what was read from the serial line,
  what was written to it, and the bytes on the data lines at each strobe.
\<close>

section \<open>Registers and pins\<close>

definition PIN_RESET :: uchar where "PIN_RESET = 0x10"
definition PIN_STROBE :: uchar where "PIN_STROBE = 0x10"
definition PIN_ACK :: uchar where "PIN_ACK = 0x08"

record 'e mcu =
  PORTB :: uchar
  PORTC :: uchar
  PORTD :: uchar
  DDRB :: uchar
  DDRC :: uchar
  DDRD :: uchar
  sv_last :: uchar
  sv_elapsed :: ushort
  sv_qs :: uint
  sv_in :: "uchar list"
  sv_out :: "uchar list"
  sv_strobed :: "uchar list"
  sv_env :: 'e

record 'e board =
  PINB :: "'e \<Rightarrow> uchar \<times> 'e"
  PINC :: "'e \<Rightarrow> uchar \<times> 'e"
  PIND :: "'e \<Rightarrow> uchar \<times> 'e"
  uart_rx :: "'e \<Rightarrow> (uchar \<times> 'e) option" \<comment> \<open>\<open>None\<close>: no byte ever comes\<close>
  uart_flush_rx :: "'e \<Rightarrow> 'e"
  overflows :: "'e \<Rightarrow> nat \<times> 'e" \<comment> \<open>timer overflows since the last look\<close>
  delay :: "'e \<Rightarrow> 'e"

definition look :: "('e \<Rightarrow> 'a \<times> 'e) \<Rightarrow> 'e mcu \<Rightarrow> 'a \<times> 'e mcu" where
  "look f m = (fst (f (sv_env m)), m\<lparr>sv_env := snd (f (sv_env m))\<rparr>)"

section \<open>Timer and serial line\<close>

definition ResetTimer :: "'e mcu \<Rightarrow> 'e mcu" where
  "ResetTimer m = m\<lparr>sv_qs := 0, sv_elapsed := 0\<rparr>"

definition TIMER1_OVF_vect :: "'e mcu \<Rightarrow> 'e mcu" where
  "TIMER1_OVF_vect m = (let qs = sv_qs m + 1 in m\<lparr>sv_qs := qs, sv_elapsed := ucast (qs div 4)\<rparr>)"

definition interrupts :: "'e board \<Rightarrow> 'e mcu \<Rightarrow> 'e mcu" where
  "interrupts p m = (case look (overflows p) m of (n, m) \<Rightarrow> (TIMER1_OVF_vect ^^ n) m)"

definition ReadSerial :: "'e board \<Rightarrow> 'e mcu \<Rightarrow> (uchar \<times> 'e mcu) option" where
  "ReadSerial p m =
     (case uart_rx p (sv_env m) of
        None \<Rightarrow> None
      | Some (b, env) \<Rightarrow> Some (b, m\<lparr>sv_env := env, sv_in := sv_in m @ [b]\<rparr>))"

definition WriteSerial :: "uchar \<Rightarrow> 'e mcu \<Rightarrow> 'e mcu" where
  "WriteSerial c m = m\<lparr>sv_out := sv_out m @ [c]\<rparr>"

text \<open>The four calls that send a count, which the parameter of \<open>WriteSerial\<close> cuts to bytes.\<close>

definition WriteCount :: "uint \<Rightarrow> 'e mcu \<Rightarrow> 'e mcu" where
  "WriteCount n m =
     WriteSerial (ucast (drop_bit 24 n)) (WriteSerial (ucast (drop_bit 16 n))
       (WriteSerial (ucast (drop_bit 8 n)) (WriteSerial (ucast n) m)))"

section \<open>Port set-up\<close>

definition SetupSTROBE :: "'e mcu \<Rightarrow> 'e mcu" where
  "SetupSTROBE m = m\<lparr>DDRD := DDRD m OR PIN_STROBE, PORTD := PORTD m OR PIN_STROBE\<rparr>"

definition SetupACK :: "'e mcu \<Rightarrow> 'e mcu" where
  "SetupACK m = m\<lparr>DDRD := DDRD m AND NOT PIN_ACK, PORTD := PORTD m OR PIN_ACK\<rparr>"

definition ReadACK :: "'e board \<Rightarrow> 'e mcu \<Rightarrow> 'e mcu" where
  "ReadACK p m = (case look (PIND p) m of (d, m) \<Rightarrow> m\<lparr>sv_last := d AND PIN_ACK\<rparr>)"

definition TristateRESET :: "'e mcu \<Rightarrow> 'e mcu" where
  "TristateRESET m = m\<lparr>DDRC := DDRC m AND NOT PIN_RESET, PORTC := PORTC m OR PIN_RESET\<rparr>"

definition AssertRESET :: "'e mcu \<Rightarrow> 'e mcu" where
  "AssertRESET m = m\<lparr>DDRC := DDRC m OR PIN_RESET, PORTC := PORTC m AND NOT PIN_RESET\<rparr>"

definition Input :: "'e mcu \<Rightarrow> 'e mcu" where
  "Input m =
     m\<lparr>DDRD := DDRD m AND 0x1f, PORTD := PORTD m OR 0xe0,
       DDRB := DDRB m AND 0xfc, PORTB := PORTB m OR 0x03,
       DDRC := DDRC m AND 0xf8, PORTC := PORTC m OR 0x07\<rparr>"

definition Output :: "'e mcu \<Rightarrow> 'e mcu" where
  "Output m = m\<lparr>DDRD := DDRD m OR 0xe0, DDRB := DDRB m OR 0x03, DDRC := DDRC m OR 0x07\<rparr>"

definition SetupHardware :: "'e board \<Rightarrow> 'e mcu \<Rightarrow> 'e mcu" where
  "SetupHardware p m = Input (ReadACK p (SetupACK (SetupSTROBE (TristateRESET (ResetTimer m)))))"

section \<open>The data lines\<close>

text \<open>The byte on the data lines when the three ports have these values.\<close>

definition Read_pins :: "uchar \<Rightarrow> uchar \<Rightarrow> uchar \<Rightarrow> uchar" where
  "Read_pins d b c =
     ((0 OR drop_bit 5 d) OR push_bit 3 (b AND 0x03)) OR push_bit 5 c"

definition Read :: "'e board \<Rightarrow> 'e mcu \<Rightarrow> uchar \<times> 'e mcu" where
  "Read p m =
     (let (d, m) = look (PIND p) m; (b, m) = look (PINB p) m; (c, m) = look (PINC p) m
      in (Read_pins d b c, m))"

definition Write :: "uchar \<Rightarrow> 'e mcu \<Rightarrow> 'e mcu" where
  "Write byte m =
     m\<lparr>PORTD := (PORTD m AND 0x1f) OR push_bit 5 (byte AND 0x07),
       PORTB := (PORTB m AND 0xfc) OR drop_bit 3 (byte AND 0x18),
       PORTC := (PORTC m AND 0xf8) OR drop_bit 5 (byte AND 0xe0)\<rparr>"

definition bus :: "'e mcu \<Rightarrow> uchar" where
  "bus m = Read_pins (PORTD m) (PORTB m) (PORTC m)"

definition Strobe :: "'e mcu \<Rightarrow> 'e mcu" where
  "Strobe m =
     (let m = m\<lparr>PORTD := PORTD m AND NOT PIN_STROBE\<rparr>;
          m = m\<lparr>sv_strobed := sv_strobed m @ [bus m]\<rparr>
      in m\<lparr>PORTD := PORTD m OR PIN_STROBE\<rparr>)"

definition Acked :: "'e board \<Rightarrow> 'e mcu \<Rightarrow> 'e mcu" where
  "Acked p m =
     (case look (PIND p) m of (d, m) \<Rightarrow>
        (let current = d AND PIN_ACK in
         if sv_last m \<noteq> current then WriteSerial 0x55 (m\<lparr>sv_last := current\<rparr>) else WriteSerial 0xaa m))"

definition Reset :: "'e board \<Rightarrow> 'e mcu \<Rightarrow> 'e mcu" where
  "Reset p m = (let m = AssertRESET m in TristateRESET (m\<lparr>sv_env := delay p (sv_env m)\<rparr>))"

section \<open>Transfers\<close>

text \<open>The wait for the acknowledge: whether the time ran out, and the value last seen.\<close>

definition look_ack :: "'e board \<Rightarrow> 'e mcu \<Rightarrow> uchar \<times> 'e mcu" where
  "look_ack p m = (case look (PIND p) m of (d, m) \<Rightarrow> (d AND PIN_ACK, interrupts p m))"

definition too_late :: "uint \<Rightarrow> 'e mcu \<Rightarrow> bool" where
  "too_late timeout m \<longleftrightarrow> timeout > 0 \<and> uint (sv_elapsed m) \<ge> uint timeout"

definition wait_ack :: "'e board \<Rightarrow> uint \<Rightarrow> uchar \<Rightarrow> 'e mcu \<Rightarrow> (bool \<times> uchar \<times> 'e mcu) option" where
  "wait_ack p timeout = poll_ack (look_ack p) (too_late timeout) sv_last"

text \<open>\<open>bytesToSend\<close> is \<open>i + n\<close>; the result is \<open>bytesSent\<close>.\<close>

fun send_loop :: "'e board \<Rightarrow> uint \<Rightarrow> nat \<Rightarrow> nat \<Rightarrow> uchar \<Rightarrow> 'e mcu \<Rightarrow> (nat \<times> 'e mcu) option" where
  "send_loop p timeout i 0 current m = Some (i, m)"
| "send_loop p timeout i (Suc n) current m =
     do { (b, m) \<leftarrow> ReadSerial p m;
          let m = ResetTimer (Strobe (Write b m));
          (late, current, m) \<leftarrow> wait_ack p timeout current m;
          if late then Some (i + 1, m\<lparr>sv_env := uart_flush_rx p (sv_env m)\<rparr>)
          else send_loop p timeout (i + 1) n current (m\<lparr>sv_last := current\<rparr>) }"

definition Send :: "'e board \<Rightarrow> uint \<Rightarrow> uint \<Rightarrow> 'e mcu \<Rightarrow> 'e mcu option" where
  "Send p bytesToSend timeout m =
     do { (bytesSent, m) \<leftarrow> send_loop p timeout 0 (unat bytesToSend) (sv_last m) m;
          Some (WriteCount (word_of_nat bytesSent) m) }"

fun receive_loop :: "'e board \<Rightarrow> uint \<Rightarrow> nat \<Rightarrow> nat \<Rightarrow> uchar \<Rightarrow> 'e mcu \<Rightarrow> (nat \<times> 'e mcu) option" where
  "receive_loop p timeout i 0 current m = Some (i, m)"
| "receive_loop p timeout i (Suc n) current m =
     do { (late, current, m) \<leftarrow> wait_ack p timeout current (ResetTimer m);
          if late then Some (i + 1, (WriteSerial 0xff ^^ Suc n) m)
          else
            (let m = m\<lparr>sv_last := current\<rparr>; (b, m) = Read p m
             in receive_loop p timeout (i + 1) n current (Strobe (WriteSerial b m))) }"

definition Receive :: "'e board \<Rightarrow> uint \<Rightarrow> uint \<Rightarrow> 'e mcu \<Rightarrow> 'e mcu option" where
  "Receive p bytesToReceive timeout m =
     do { (bytesReceived, m) \<leftarrow> receive_loop p timeout 0 (unat bytesToReceive) (sv_last m) m;
          Some (WriteCount (word_of_nat bytesReceived) m) }"

section \<open>The command loop\<close>

fun read_bytes :: "'e board \<Rightarrow> nat \<Rightarrow> 'e mcu \<Rightarrow> (uchar list \<times> 'e mcu) option" where
  "read_bytes p 0 m = Some ([], m)"
| "read_bytes p (Suc n) m =
     do { (b, m) \<leftarrow> ReadSerial p m; (bs, m) \<leftarrow> read_bytes p n m; Some (b # bs, m) }"

text \<open>What the shifts and ors of \<open>main\<close> make of the nine bytes: command, byte, size, timeout.\<close>

definition servant_decode :: "uchar list \<Rightarrow> uchar \<times> uchar \<times> uint \<times> uint" where
  "servant_decode bs =
     (0 OR bs ! 0, 0 OR bs ! 1, 0 OR word32_le (bs ! 1) (bs ! 2) (bs ! 3) (bs ! 4),
      0 OR word32_le (bs ! 5) (bs ! 6) (bs ! 7) (bs ! 8))"

definition servant_command :: "'e board \<Rightarrow> uchar \<times> uchar \<times> uint \<times> uint \<Rightarrow> 'e mcu \<Rightarrow> 'e mcu option" where
  "servant_command p command m =
     (let (cmd, byte, len, timeout) = command in
      if cmd = CMD_RESET then Some (Reset p m)
      else if cmd = CMD_STROBE then Some (Strobe m)
      else if cmd = CMD_ACKED then Some (Acked p m)
      else if cmd = CMD_INPUT then Some (Input m)
      else if cmd = CMD_OUTPUT then Some (Output m)
      else if cmd = CMD_READ then (case Read p m of (b, m) \<Rightarrow> Some (WriteSerial b m))
      else if cmd = CMD_WRITE then Some (Write byte m)
      else if cmd = CMD_SEND then Send p len timeout m
      else if cmd = CMD_RECEIVE then Receive p len timeout m
      else Some m)"

text \<open>One turn of the endless loop.\<close>

definition servant_step :: "'e board \<Rightarrow> 'e mcu \<Rightarrow> 'e mcu option" where
  "servant_step p m =
     do { (bs, m) \<leftarrow> read_bytes p 9 m;
          servant_command p (servant_decode bs) m }"

end
