(* ===== verification/Servant64_Laws.thy ===== *)
theory Servant64_Laws
  imports Servant64 Serial
begin

text \<open>
  What the firmware makes of the frames of serial.c: the port arithmetic, the bytes that Send
  and Receive move and the count they report, and that the timed transfers end.
\<close>

section \<open>Ports and frames\<close>

lemma bit_high: "\<not> bit (w :: uchar) (8 + n)"
  using bit_imp_le_length [of w "8 + n"] by auto

lemmas bit_high_num = bit_high [of _ 0] bit_high [of _ 1] bit_high [of _ 2] bit_high [of _ 3] bit_high [of _ 4]

lemma bits8: "i < LENGTH(8) \<longleftrightarrow> i = 0 \<or> i = 1 \<or> i = 2 \<or> i = 3 \<or> i = 4 \<or> i = 5 \<or> i = 6 \<or> i = 7"
  by auto

lemma bit_Read_pins:
  "i < 8 \<Longrightarrow> bit (Read_pins d b c) i =
     (if i < 3 then bit d (i + 5) else if i < 5 then bit b (i - 3) else bit c (i - 5))"
  using bits8 [of i] by (auto simp: Read_pins_def bit_simps bit_high_num [simplified])

lemma bit_PORTD_Write: "bit (PORTD (Write v m)) i = (if i < 5 then bit (PORTD m) i else i < 8 \<and> bit v (i - 5))"
proof (cases "i < 8")
  case True
  then show ?thesis using bits8 [of i] by (auto simp: Write_def bit_simps)
qed (auto simp: dest: bit_imp_le_length)

lemma bit_PORTB_Write: "bit (PORTB (Write v m)) i = (if i < 2 then bit v (i + 3) else bit (PORTB m) i)"
proof (cases "i < 8")
  case True
  then show ?thesis using bits8 [of i] by (auto simp: Write_def bit_simps bit_high_num [simplified])
qed (auto simp: dest: bit_imp_le_length)

lemma bit_PORTC_Write: "bit (PORTC (Write v m)) i = (if i < 3 then bit v (i + 5) else bit (PORTC m) i)"
proof (cases "i < 8")
  case True
  then show ?thesis using bits8 [of i] by (auto simp: Write_def bit_simps bit_high_num [simplified])
qed (auto simp: dest: bit_imp_le_length)

lemmas bit_ports_Write = bit_PORTD_Write bit_PORTB_Write bit_PORTC_Write

lemma bus_Write: "bus (Write v m) = v"
  by (rule bit_word_eqI) (auto simp: bus_def bit_Read_pins bit_ports_Write)

lemma bus_strobe_low: "bus (m\<lparr>PORTD := PORTD m AND NOT PIN_STROBE\<rparr>) = bus m"
proof (rule bit_word_eqI)
  fix i assume "i < LENGTH(8)"
  then show "bit (bus (m\<lparr>PORTD := PORTD m AND NOT PIN_STROBE\<rparr>)) i \<longleftrightarrow> bit (bus m) i"
    using bits8 [of i] by (auto simp: bus_def bit_Read_pins PIN_STROBE_def bit_simps)
qed

lemma servant_decode_frame: "servant_decode (cmd_frame c a b) = (c, lo a, a, b)"
  by (simp add: servant_decode_def cmd_frame_def numeral_eq_Suc byte_simps)


section \<open>The wait for the acknowledge\<close>

text \<open>What no step of the wait touches: the ports, the last acknowledge and the three records.\<close>

definition face :: "'e mcu \<Rightarrow> uchar \<times> uchar \<times> uchar \<times> uchar \<times> uchar list \<times> uchar list \<times> uchar list" where
  "face m = (PORTB m, PORTC m, PORTD m, sv_last m, sv_in m, sv_out m, sv_strobed m)"

lemma face_look: "look f m = (x, m') \<Longrightarrow> face m' = face m"
  by (auto simp: look_def face_def)

lemma face_reset: "face (ResetTimer m) = face m"
  by (simp add: ResetTimer_def face_def)

lemma face_ticks: "face ((TIMER1_OVF_vect ^^ n) m) = face m"
  by (induction n) (auto simp: TIMER1_OVF_vect_def Let_def face_def)

lemma face_interrupts: "face (interrupts p m) = face m"
  by (auto simp: interrupts_def face_ticks split: prod.splits dest: face_look)

text \<open>
  The assumption on the hardware: the timer overflows again and again. \<open>rank\<close> bounds the looks
  until the next overflow, and a look at the pins does not push it away.
\<close>

definition time_flows :: "'e board \<Rightarrow> ('e \<Rightarrow> nat) \<Rightarrow> bool" where
  "time_flows p rank \<longleftrightarrow> (\<forall>e. rank (snd (PIND p e)) \<le> rank e \<and>
     (fst (overflows p e) = 1 \<or> fst (overflows p e) = 0 \<and> rank (snd (overflows p e)) < rank e))"

definition timer_ok :: "uint \<Rightarrow> 'e mcu \<Rightarrow> bool" where
  "timer_ok t m \<longleftrightarrow> t > 0 \<and> unat t < 65536 \<and>
     sv_elapsed m = ucast (sv_qs m div 4) \<and> unat (sv_qs m) < 4 * unat t"

lemma timer_ok_reset: "t > 0 \<Longrightarrow> unat t < 65536 \<Longrightarrow> timer_ok t (ResetTimer m)"
  by (auto simp: timer_ok_def ResetTimer_def word_less_nat_alt)

lemma tick_ok:
  assumes "timer_ok t m" "\<not> too_late t (TIMER1_OVF_vect m)"
  shows "timer_ok t (TIMER1_OVF_vect m) \<and> unat (sv_qs (TIMER1_OVF_vect m)) = Suc (unat (sv_qs m))"
proof -
  have "\<not> uint t \<le> uint (ucast ((sv_qs m + 1) div 4) :: ushort)"
    using assms by (simp add: timer_ok_def too_late_def TIMER1_OVF_vect_def Let_def)
  then have "\<not> unat t \<le> unat (ucast ((sv_qs m + 1) div 4) :: ushort)"
    unfolding uint_nat by linarith
  then show ?thesis using assms(1) timer_tick [of "sv_qs m" 4 t]
    by (simp add: timer_ok_def TIMER1_OVF_vect_def Let_def)
qed

lemma look_ack_progress:
  assumes "time_flows p rank" "timer_ok t m" "look_ack p m = (c, m')" "\<not> too_late t m'"
  shows "timer_ok t m' \<and> (4 * unat t - unat (sv_qs m') < 4 * unat t - unat (sv_qs m) \<or>
    sv_qs m' = sv_qs m \<and> rank (sv_env m') < rank (sv_env m))"
proof -
  let ?e = "snd (PIND p (sv_env m))"
  let ?m = "m\<lparr>sv_env := snd (overflows p ?e)\<rparr>"
  have m': "m' = (TIMER1_OVF_vect ^^ fst (overflows p ?e)) ?m"
    using assms(3) by (auto simp: look_ack_def interrupts_def look_def)
  have ok: "timer_ok t ?m" using assms(2) by (simp add: timer_ok_def)
  have e: "rank ?e \<le> rank (sv_env m)" using assms(1) by (simp add: time_flows_def)
  from assms(1) consider "fst (overflows p ?e) = 1"
    | "fst (overflows p ?e) = 0" "rank (snd (overflows p ?e)) < rank ?e"
    unfolding time_flows_def by (auto dest: spec [of _ ?e])
  then show ?thesis
  proof cases
    case 1
    then show ?thesis using m' tick_ok [OF ok] assms(2,4) by (auto simp: timer_ok_def)
  next
    case 2
    then show ?thesis using m' ok e by simp
  qed
qed

interpretation sv_ack: timed_ack_poll "look_ack p" "too_late t" sv_last face
  "\<lambda>m. time_flows p rank \<and> timer_ok t m" "\<lambda>m. (4 * unat t - unat (sv_qs m), rank (sv_env m))"
proof
  show "look_ack p m = (c, m') \<Longrightarrow> face m' = face m" for m m' c
    by (auto simp: look_ack_def face_interrupts split: prod.splits dest: face_look)
  show "face m' = face m \<Longrightarrow> sv_last m' = sv_last m" for m m' :: "'a mcu" by (simp add: face_def)
  show "time_flows p rank \<and> timer_ok t m \<Longrightarrow> look_ack p m = (c, m') \<Longrightarrow> too_late t m' \<or>
      (time_flows p rank \<and> timer_ok t m') \<and>
      ((4 * unat t - unat (sv_qs m'), rank (sv_env m')), 4 * unat t - unat (sv_qs m), rank (sv_env m))
        \<in> {(x, y). x < y} <*lex*> {(x, y). x < y}" for m m' c
    using look_ack_progress [of p rank t m c m'] by auto
qed

lemma wait_ack_result:
  "wait_ack p t c m = Some (late, c', m') \<Longrightarrow>
     face m' = face m \<and> (late \<longrightarrow> t > 0) \<and> (\<not> late \<longrightarrow> c' \<noteq> sv_last m)"
  using sv_ack.result [of p t c m] by (auto simp: wait_ack_def too_late_def)

lemma wait_ack_returns:
  "time_flows p rank \<Longrightarrow> t > 0 \<Longrightarrow> unat t < 65536 \<Longrightarrow>
     \<exists>late c' m'. wait_ack p t c (ResetTimer m) = Some (late, c', m')"
  using sv_ack.returns [of p rank t "ResetTimer m" c] timer_ok_reset [of t m]
  by (auto simp: wait_ack_def)


section \<open>Transfers\<close>

definition count_bytes :: "nat \<Rightarrow> uchar list" where
  "count_bytes n = (let w = (word_of_nat n :: uint) in [lo w, hi w, hlo w, hhi w])"

lemma lo_ucast: "ucast w = lo w" "lo (drop_bit 8 w) = hi w"
  "lo (drop_bit 16 w) = hlo w" "lo (drop_bit 24 w) = hhi w"
  by (rule bit_word_eqI; auto simp: bit_simps bit_bytes ac_simps)+

lemma sv_out_WriteCount: "sv_out (WriteCount (word_of_nat n) m) = sv_out m @ count_bytes n"
  "sv_in (WriteCount w m) = sv_in m" "sv_strobed (WriteCount w m) = sv_strobed m"
  by (simp_all add: WriteCount_def WriteSerial_def count_bytes_def Let_def lo_ucast)

lemma count_of_count_bytes: "count_of (count_bytes n) = word_of_nat n"
  by (simp add: count_of_def count_bytes_def Let_def numeral_eq_Suc byte_simps)

lemma strobed_Strobe_Write: "sv_strobed (Strobe (Write v m)) = sv_strobed m @ [v]"
  "sv_in (Strobe m) = sv_in m" "sv_out (Strobe m) = sv_out m"
  "sv_in (Write v m) = sv_in m" "sv_out (Write v m) = sv_out m"
  using bus_strobe_low [of "Write v m"] bus_Write [of v m]
  by (simp_all add: Strobe_def Let_def) (simp_all add: Write_def)

lemma ReadSerial_in: "ReadSerial p m = Some (b, m') \<Longrightarrow>
    sv_in m' = sv_in m @ [b] \<and> sv_out m' = sv_out m \<and> sv_strobed m' = sv_strobed m"
  by (auto simp: ReadSerial_def split: option.splits)

lemma send_loop_result:
  assumes "send_loop p t i n c m = Some (k, m')"
  shows "\<exists>bs. sv_in m' = sv_in m @ bs \<and> sv_strobed m' = sv_strobed m @ bs \<and> sv_out m' = sv_out m \<and>
    k = i + length bs \<and> length bs \<le> n \<and> (t = 0 \<longrightarrow> length bs = n)"
  using assms
proof (induction n arbitrary: i c m)
  case 0
  then show ?case by auto
next
  case (Suc n)
  from Suc.prems obtain b m1 late d m2 where r: "ReadSerial p m = Some (b, m1)"
    and w: "wait_ack p t c (ResetTimer (Strobe (Write b m1))) = Some (late, d, m2)"
    and rest: "if late then k = i + 1 \<and> m' = m2\<lparr>sv_env := uart_flush_rx p (sv_env m2)\<rparr>
      else send_loop p t (i + 1) n d (m2\<lparr>sv_last := d\<rparr>) = Some (k, m')"
    by (auto simp: bind_iff Let_def split: if_splits)
  have f: "face m2 = face (Strobe (Write b m1))" using wait_ack_result [OF w] by (simp add: face_reset)
  then have m2: "sv_in m2 = sv_in m @ [b]" "sv_strobed m2 = sv_strobed m @ [b]" "sv_out m2 = sv_out m"
    using ReadSerial_in [OF r] by (simp_all add: face_def strobed_Strobe_Write)
  show ?case
  proof (cases late)
    case True
    then show ?thesis using rest m2 wait_ack_result [OF w] by (intro exI [of _ "[b]"]) auto
  next
    case False
    with rest have "send_loop p t (i + 1) n d (m2\<lparr>sv_last := d\<rparr>) = Some (k, m')" by simp
    from Suc.IH [OF this] obtain bs where
      "sv_in m' = sv_in m2 @ bs" "sv_strobed m' = sv_strobed m2 @ bs" "sv_out m' = sv_out m2"
      "k = i + 1 + length bs" "length bs \<le> n" "t = 0 \<longrightarrow> length bs = n" by auto
    with m2 show ?thesis by (intro exI [of _ "b # bs"]) auto
  qed
qed

lemma sv_out_pad: "sv_out ((WriteSerial c ^^ n) m) = sv_out m @ replicate n c"
  "sv_strobed ((WriteSerial c ^^ n) m) = sv_strobed m"
  by (induction n) (auto simp: WriteSerial_def replicate_append_same)

lemma receive_loop_result:
  assumes "receive_loop p t i n c m = Some (k, m')"
  shows "\<exists>ds ss. sv_out m' = sv_out m @ ds \<and> sv_strobed m' = sv_strobed m @ ss \<and> length ds = n \<and>
    (k = i + n \<and> length ss = n \<or>
     t > 0 \<and> k = i + length ss + 1 \<and> length ss < n \<and> (\<exists>gs. ds = gs @ replicate (n - length ss) 0xff \<and> length gs = length ss))"
  using assms
proof (induction n arbitrary: i c m)
  case 0
  then show ?case by auto
next
  case (Suc n)
  from Suc.prems obtain late d m1 where w: "wait_ack p t c (ResetTimer m) = Some (late, d, m1)"
    and rest: "if late then k = i + 1 \<and> m' = (WriteSerial 0xff ^^ Suc n) m1
      else (\<exists>b m2. Read p (m1\<lparr>sv_last := d\<rparr>) = (b, m2) \<and>
        receive_loop p t (i + 1) n d (Strobe (WriteSerial b m2)) = Some (k, m'))"
    by (auto simp: bind_iff Let_def split: if_splits prod.splits simp del: funpow.simps)
  have f: "face m1 = face m" using wait_ack_result [OF w] by (simp add: face_reset)
  show ?case
  proof (cases late)
    case True
    then show ?thesis using rest f wait_ack_result [OF w]
      by (intro exI [of _ "replicate (Suc n) 0xff"] exI [of _ "[]"])
        (auto simp: sv_out_pad face_def simp del: funpow.simps replicate.simps)
  next
    case False
    with rest obtain b m2 where rd: "Read p (m1\<lparr>sv_last := d\<rparr>) = (b, m2)"
      and go: "receive_loop p t (i + 1) n d (Strobe (WriteSerial b m2)) = Some (k, m')" by auto
    have m2: "sv_out m2 = sv_out m" "sv_strobed m2 = sv_strobed m"
      using rd f by (auto simp: Read_def look_def face_def Let_def)
    obtain s where s: "sv_strobed (Strobe (WriteSerial b m2)) = sv_strobed m @ [s]"
        "sv_out (Strobe (WriteSerial b m2)) = sv_out m @ [b]"
      using m2 by (simp add: Strobe_def WriteSerial_def Let_def)
    from Suc.IH [OF go] obtain ds ss where IH: "sv_out m' = sv_out m @ b # ds"
      "sv_strobed m' = sv_strobed m @ s # ss" "length ds = n"
      "k = i + 1 + n \<and> length ss = n \<or>
       t > 0 \<and> k = i + 1 + length ss + 1 \<and> length ss < n \<and>
         (\<exists>gs. ds = gs @ replicate (n - length ss) 0xff \<and> length gs = length ss)"
      using s by auto
    from IH(4) have "k = i + Suc n \<and> length (s # ss) = Suc n \<or>
       t > 0 \<and> k = i + length (s # ss) + 1 \<and> length (s # ss) < Suc n \<and>
         (\<exists>gs. b # ds = gs @ replicate (Suc n - length (s # ss)) 0xff \<and> length gs = length (s # ss))"
    proof
      assume "t > 0 \<and> k = i + 1 + length ss + 1 \<and> length ss < n \<and>
         (\<exists>gs. ds = gs @ replicate (n - length ss) 0xff \<and> length gs = length ss)"
      then obtain gs where "t > 0" "k = i + 1 + length ss + 1" "length ss < n"
        "ds = gs @ replicate (n - length ss) 0xff" "length gs = length ss" by blast
      then show ?thesis by (intro disjI2 conjI exI [of _ "b # gs"]) auto
    qed auto
    with IH(1-3) show ?thesis by (intro exI [of _ "b # ds"] exI [of _ "s # ss"]) simp
  qed
qed


section \<open>The transfers end\<close>

lemma send_loop_returns:
  assumes "time_flows p rank" "unat t < 65536" "t > 0" and rx: "\<And>e. uart_rx p e \<noteq> None"
  shows "\<exists>y. send_loop p t i n c m = Some y"
proof (induction n arbitrary: i c m)
  case (Suc n)
  obtain b m1 where r: "ReadSerial p m = Some (b, m1)"
    using rx [of "sv_env m"] by (auto simp: ReadSerial_def)
  obtain late d m2 where w: "wait_ack p t c (ResetTimer (Strobe (Write b m1))) = Some (late, d, m2)"
    using wait_ack_returns [OF assms(1,3,2)] by blast
  show ?case using r w Suc.IH by (cases late) (auto simp: Let_def)
qed auto

lemma receive_loop_returns:
  assumes "time_flows p rank" "unat t < 65536" "t > 0"
  shows "\<exists>y. receive_loop p t i n c m = Some y"
proof (induction n arbitrary: i c m)
  case (Suc n)
  obtain late d m1 where w: "wait_ack p t c (ResetTimer m) = Some (late, d, m1)"
    using wait_ack_returns [OF assms(1,3,2)] by blast
  show ?case using w Suc.IH by (cases late) (auto simp: Let_def split: prod.splits simp del: funpow.simps)
qed auto

section \<open>Properties\<close>

lemma port_bits:
  "PORTD (Write v m) AND 0x1f = PORTD m AND 0x1f"
  "PORTC (Write v m) AND 0xf8 = PORTC m AND 0xf8"
  "PORTB (Write v m) AND 0xfc = PORTB m AND 0xfc"
proof -
  have D: "bit (PORTD (Write v m) AND 0x1f) i = bit (PORTD m AND 0x1f) i" if "i < LENGTH(8)" for i
    using that bits8 [of i] by (auto simp: bit_ports_Write bit_simps)
  have C: "bit (PORTC (Write v m) AND 0xf8) i = bit (PORTC m AND 0xf8) i" if "i < LENGTH(8)" for i
    using that bits8 [of i] by (auto simp: bit_ports_Write bit_simps)
  have B: "bit (PORTB (Write v m) AND 0xfc) i = bit (PORTB m AND 0xfc) i" if "i < LENGTH(8)" for i
    using that bits8 [of i] by (auto simp: bit_ports_Write bit_simps)
  show "PORTD (Write v m) AND 0x1f = PORTD m AND 0x1f" by (rule bit_word_eqI) (rule D)
  show "PORTC (Write v m) AND 0xf8 = PORTC m AND 0xf8" by (rule bit_word_eqI) (rule C)
  show "PORTB (Write v m) AND 0xfc = PORTB m AND 0xfc" by (rule bit_word_eqI) (rule B)
qed

definition sample_mcu :: "nat mcu" where
  "sample_mcu = \<lparr>PORTB = 0x83, PORTC = 0x17, PORTD = 0xf8, DDRB = 0, DDRC = 0, DDRD = 0x10, sv_last = 0,
     sv_elapsed = 0, sv_qs = 0, sv_in = [], sv_out = [], sv_strobed = [], sv_env = 0\<rparr>"

text \<open>The acknowledge toggles at each look when \<open>acks\<close>, the line holds the bytes of a frame.\<close>

definition sample_board :: "bool \<Rightarrow> uchar list \<Rightarrow> nat board" where
  "sample_board acks line = \<lparr>
     PINB = (\<lambda>e. (0x02, e)), PINC = (\<lambda>e. (0x01, e)),
     PIND = (\<lambda>e. (if acks \<and> odd e then 0x08 else 0, e)),
     uart_rx = (\<lambda>e. Some ((line @ [0x41]) ! min e (length line), e + 1)),
     uart_flush_rx = (\<lambda>e. e), overflows = (\<lambda>e. (1, e)), delay = (\<lambda>e. e)\<rparr>"

lemma sample_time_flows: "time_flows (sample_board acks line) (\<lambda>e. 0)"
  by (simp add: time_flows_def sample_board_def)

lemma length_count_bytes [simp]: "length (count_bytes n) = 4"
  by (simp add: count_bytes_def Let_def)

lemma uart_sample: "uart_rx (sample_board acks line) e \<noteq> None"
  by (simp add: sample_board_def)

text \<open>C9. The nine bytes in which serial.c frames a command are decoded by the firmware to that
  command, the low byte of the first argument, and both arguments; a byte that the host writes
  with the write command appears on the eight data lines, and the port bits of the strobe,
  acknowledge and reset lines are left as they were.
\<close>

theorem servant_executes_frame:
  "servant_decode (cmd_frame cmd a b) = (cmd, lo a, a, b) \<and>
   map_option bus (servant_command p (servant_decode (cmd_frame CMD_WRITE (ucast v) 0)) m) = Some v \<and>
   PORTD (Write v m) AND 0x1f = PORTD m AND 0x1f \<and>
   PORTC (Write v m) AND 0xf8 = PORTC m AND 0xf8 \<and>
   PORTB (Write v m) AND 0xfc = PORTB m AND 0xfc"
proof -
  have "lo (ucast v) = v" by (rule bit_word_eqI) (simp add: bit_lo bit_simps)
  then have "map_option bus (servant_command p (servant_decode (cmd_frame CMD_WRITE (ucast v) 0)) m) = Some v"
    by (simp add: servant_decode_frame servant_command_def cmd_defs bus_Write)
  then show ?thesis by (simp add: servant_decode_frame port_bits)
qed

text \<open>The send command of the firmware takes bytes from the serial line and strobes exactly
  these bytes, in order, on the data lines; the four bytes it answers are read by serial.c as
  their number, which is at most the size of the command, and the size itself when the command
  has no timeout.
\<close>

theorem servant_send_reports:
  assumes "Send p n t m = Some m'"
  shows "\<exists>bs reply. sv_in m' = sv_in m @ bs \<and> sv_strobed m' = sv_strobed m @ bs \<and>
    sv_out m' = sv_out m @ reply \<and> length reply = 4 \<and> count_of reply = word_of_nat (length bs) \<and>
    length bs \<le> unat n \<and> (t = 0 \<longrightarrow> length bs = unat n)"
proof -
  from assms obtain k m1 where s: "send_loop p t 0 (unat n) (sv_last m) m = Some (k, m1)"
    and m': "m' = WriteCount (word_of_nat k) m1" by (auto simp: Send_def bind_iff)
  from send_loop_result [OF s] obtain bs where bs: "sv_in m1 = sv_in m @ bs"
    "sv_strobed m1 = sv_strobed m @ bs" "sv_out m1 = sv_out m" "k = length bs" "length bs \<le> unat n"
    "t = 0 \<longrightarrow> length bs = unat n" by auto
  then show ?thesis
    by - (rule exI [of _ bs], rule exI [of _ "count_bytes k"],
      auto simp: m' sv_out_WriteCount count_of_count_bytes length_count_bytes)
qed

theorem servant_send_reports_witness:
  "\<exists>m' bs. Send (sample_board True [1, 2]) 2 2 sample_mcu = Some m' \<and> sv_strobed m' = bs \<and> length bs \<le> 2"
proof -
  obtain m' where m': "Send (sample_board True [1, 2]) 2 2 sample_mcu = Some m'"
    using send_loop_returns [OF sample_time_flows [of True "[1, 2]"], of 2 0 "unat (2 :: uint)" "sv_last sample_mcu" sample_mcu]
    by (auto simp: Send_def uart_sample)
  from servant_send_reports [OF m'] have "length (sv_strobed m') \<le> 2" by (auto simp: sample_mcu_def)
  with m' show ?thesis by blast
qed

text \<open>C34. The receive command always answers with as many data bytes as it was asked for and four
  bytes of count. Without a timeout every byte was strobed and the count is the size. With a
  timeout the bytes not received are sent as 255, and the count is one more than the bytes that
  were received.
\<close>

theorem servant_receive_reports:
  assumes "Receive p n t m = Some m'"
  shows "\<exists>data reply got. sv_out m' = sv_out m @ data @ reply \<and> length data = unat n \<and> length reply = 4 \<and>
    sv_strobed m' = sv_strobed m @ got \<and>
    (count_of reply = n \<and> length got = unat n \<or>
     t > 0 \<and> length got < unat n \<and> count_of reply = word_of_nat (length got + 1) \<and>
     drop (length got) data = replicate (unat n - length got) 0xff)"
proof -
  from assms obtain k m1 where s: "receive_loop p t 0 (unat n) (sv_last m) m = Some (k, m1)"
    and m': "m' = WriteCount (word_of_nat k) m1" by (auto simp: Receive_def bind_iff)
  from receive_loop_result [OF s] obtain ds ss where ds: "sv_out m1 = sv_out m @ ds"
    "sv_strobed m1 = sv_strobed m @ ss" "length ds = unat n"
    "k = unat n \<and> length ss = unat n \<or> t > 0 \<and> k = length ss + 1 \<and> length ss < unat n \<and>
      drop (length ss) ds = replicate (unat n - length ss) 0xff" by auto
  then show ?thesis
    by - (rule exI [of _ ds], rule exI [of _ "count_bytes k"], rule exI [of _ ss],
      auto simp: m' sv_out_WriteCount count_of_count_bytes length_count_bytes)
qed

theorem servant_receive_reports_witness:
  "\<exists>m' data reply. Receive (sample_board False []) 3 2 sample_mcu = Some m' \<and>
     sv_out m' = data @ reply \<and> length data = 3 \<and> length reply = 4"
proof -
  obtain m' where m': "Receive (sample_board False []) 3 2 sample_mcu = Some m'"
    using receive_loop_returns [OF sample_time_flows [of False "[]"], of 2 0 "unat (3 :: uint)" "sv_last sample_mcu" sample_mcu]
    by (auto simp: Receive_def)
  from servant_receive_reports [OF m'] obtain data reply where
    "sv_out m' = data @ reply" "length data = 3" "length reply = 4" by (auto simp: sample_mcu_def)
  with m' show ?thesis by blast
qed



end
