(* ===== verification/Ring.thy ===== *)
theory Ring
  imports Prelude
begin

text \<open>
  Circular buffers as the firmware keeps them: \<open>head\<close> is the slot last written, \<open>tail\<close> the
  slot last read, so that the slot at the tail holds nothing and a buffer of n slots takes
  n - 1 elements. The contents are read off as a list.
\<close>

definition ring_len :: "nat \<Rightarrow> nat \<Rightarrow> nat \<Rightarrow> nat" where
  "ring_len n head tail = (n + head - tail) mod n"

definition ring :: "'a list \<Rightarrow> nat \<Rightarrow> nat \<Rightarrow> 'a list" where
  "ring buf head tail =
     map (\<lambda>i. buf ! ((tail + Suc i) mod length buf)) [0 ..< ring_len (length buf) head tail]"

lemma length_ring [simp]: "length (ring buf head tail) = ring_len (length buf) head tail"
  by (simp add: ring_def)

lemma ring_len_less: "0 < n \<Longrightarrow> ring_len n head tail < n"
  by (simp add: ring_len_def)

lemma ring_len_cases:
  "head < n \<Longrightarrow> tail < n \<Longrightarrow> ring_len n head tail = (if tail \<le> head then head - tail else n + head - tail)"
  by (auto simp: ring_len_def le_mod_geq)

lemma mod_Suc_cases: "i < n \<Longrightarrow> Suc i mod n = (if Suc i = n then 0 else Suc i)"
  by simp

lemma add_mod_cases: "(i::nat) < n \<Longrightarrow> j \<le> n \<Longrightarrow> (i + j) mod n = (if i + j < n then i + j else i + j - n)"
  by (auto simp: le_mod_geq)

lemma ring_empty_iff:
  "head < length buf \<Longrightarrow> tail < length buf \<Longrightarrow> ring buf head tail = [] \<longleftrightarrow> head = tail"
  by (auto simp: ring_def ring_len_cases split: if_splits)

lemma ring_empty [simp]: "ring buf tail tail = []"
  by (simp add: ring_def ring_len_def)

lemma ring_full_iff:
  "head < n \<Longrightarrow> tail < n \<Longrightarrow> Suc (ring_len n head tail) = n \<longleftrightarrow> Suc head mod n = tail"
  by (auto simp: ring_len_cases mod_Suc_cases)

lemma ring_len_push:
  "head < n \<Longrightarrow> tail < n \<Longrightarrow> Suc head mod n \<noteq> tail \<Longrightarrow>
     ring_len n (Suc head mod n) tail = Suc (ring_len n head tail)"
  by (auto simp: ring_len_cases mod_Suc_cases split: if_splits)

lemma ring_len_pop:
  "head < n \<Longrightarrow> tail < n \<Longrightarrow> head \<noteq> tail \<Longrightarrow>
     ring_len n head tail = Suc (ring_len n head (Suc tail mod n))"
  by (auto simp: ring_len_cases mod_Suc_cases split: if_splits)

lemma ring_head:
  "head < n \<Longrightarrow> tail < n \<Longrightarrow> (tail + ring_len n head tail) mod n = head"
  by (auto simp: ring_len_cases add_mod_cases split: if_splits)

lemma ring_slot:
  assumes "i < n" "tail < n"
  shows "(tail + Suc i) mod n = (if tail + Suc i < n then tail + Suc i else tail + Suc i - n)"
  using assms by (intro add_mod_cases) simp_all

text \<open>The slots in use are neither the one at the tail nor the one behind the head.\<close>

lemma ring_slot_used:
  assumes "head < n" "tail < n" "i < ring_len n head tail"
  shows "(tail + Suc i) mod n \<noteq> tail" "(tail + Suc i) mod n \<noteq> Suc head mod n"
proof -
  have i: "Suc i < n" using ring_len_less [of n head tail] assms by linarith
  have len: "ring_len n head tail = (if tail \<le> head then head - tail else n + head - tail)"
    using assms(1,2) by (rule ring_len_cases)
  show "(tail + Suc i) mod n \<noteq> tail"
    unfolding ring_slot [OF Suc_lessD [OF i] assms(2)] using i assms(2) by (auto split: if_splits)
  show "(tail + Suc i) mod n \<noteq> Suc head mod n"
    unfolding ring_slot [OF Suc_lessD [OF i] assms(2)] mod_Suc_cases [OF assms(1)]
    using assms unfolding len by (auto split: if_splits)
qed

text \<open>Storing into the slot behind the head appends.\<close>

lemma ring_push:
  assumes "head < length buf" "tail < length buf" and free: "Suc head mod length buf \<noteq> tail"
  shows "ring (buf[Suc head mod length buf := x]) (Suc head mod length buf) tail = ring buf head tail @ [x]"
proof -
  let ?n = "length buf" and ?h = "Suc head mod length buf"
  have len: "ring_len ?n ?h tail = Suc (ring_len ?n head tail)" using assms by (rule ring_len_push)
  have new: "(tail + Suc (ring_len ?n head tail)) mod ?n = ?h"
    using ring_head [OF assms(1,2)] by (metis add_Suc_right mod_Suc_eq)
  have h: "?h < ?n" using assms(1) by (intro mod_less_divisor) linarith
  then have "buf[?h := x] ! ((tail + Suc i) mod ?n) = buf ! ((tail + Suc i) mod ?n)"
    if "i < ring_len ?n head tail" for i
    using ring_slot_used(2) [OF assms(1,2) that] by (metis nth_list_update_neq)
  moreover have "buf[?h := x] ! ((tail + Suc (ring_len ?n head tail)) mod ?n) = x"
    using h new by simp
  ultimately show ?thesis by (simp add: ring_def len)
qed

text \<open>Stepping the tail takes the first element.\<close>

lemma ring_pop:
  assumes "head < length buf" "tail < length buf" "head \<noteq> tail"
  shows "ring buf head tail = buf ! (Suc tail mod length buf) # ring buf head (Suc tail mod length buf)"
proof -
  let ?n = "length buf" and ?t = "Suc tail mod length buf"
  have "(tail + Suc (Suc i)) mod ?n = (?t + Suc i) mod ?n" for i
    using mod_add_left_eq [of "Suc tail" ?n "Suc i"] by simp
  then show ?thesis
    by (simp add: ring_def ring_len_pop [OF assms] upt_conv_Cons map_Suc_upt [symmetric] comp_def del: upt_Suc)
qed

text \<open>What lies outside the contents, the slot at the tail included, does not matter.\<close>

lemma ring_outside:
  assumes "head < length buf" "tail < length buf" "k = tail \<or> k = Suc head mod length buf"
  shows "ring (buf[k := x]) head tail = ring buf head tail"
proof -
  have "buf[k := x] ! ((tail + Suc i) mod length buf) = buf ! ((tail + Suc i) mod length buf)"
    if "i < ring_len (length buf) head tail" for i
    using ring_slot_used [OF assms(1,2) that] assms(3) by (metis nth_list_update_neq)
  then show ?thesis by (simp add: ring_def)
qed

end
