(* ===== verification/Uart.thy ===== *)
theory Uart
  imports Ring
begin

text \<open>
  driver/servant64/uart.c for the ATmega328P of the Makefile: the UART0 branch
  (ATMEGA_USART0) with the buffer sizes of uart.h; UART1 to UART3 are disabled there and
  not compiled. The bit numbers of the registers come from avr/io.h, which is not part of
  the repository: they are the record \<open>usart\<close>. \<open>uart_line\<close> is what was written to
  the data register.

  The two interrupt handlers and the functions of the main program share the two ring buffers.
  \<open>uart_step\<close> is their interleaving, with an interrupt possible at every point where the main
  program has made part of its accesses visible.
\<close>

section \<open>Registers and buffers\<close>

record usart =
  FE0 :: nat
  DOR0 :: nat
  UDRIE0 :: nat
  RXCIE0 :: nat
  RXEN0 :: nat
  TXEN0 :: nat
  U2X0 :: nat
  UCSZ00 :: nat

definition BV :: "nat \<Rightarrow> uchar" where
  "BV n = push_bit n 1"

definition UART_RX0_BUFFER_SIZE :: ushort where "UART_RX0_BUFFER_SIZE = 128"
definition UART_TX0_BUFFER_SIZE :: ushort where "UART_TX0_BUFFER_SIZE = 128"
definition UART_RX0_BUFFER_MASK :: ushort where "UART_RX0_BUFFER_MASK = UART_RX0_BUFFER_SIZE - 1"
definition UART_TX0_BUFFER_MASK :: ushort where "UART_TX0_BUFFER_MASK = UART_TX0_BUFFER_SIZE - 1"
definition UART_FRAME_ERROR :: ushort where "UART_FRAME_ERROR = 0x0800"
definition UART_OVERRUN_ERROR :: ushort where "UART_OVERRUN_ERROR = 0x0400"
definition UART_BUFFER_OVERFLOW :: ushort where "UART_BUFFER_OVERFLOW = 0x0200"
definition UART_NO_DATA :: ushort where "UART_NO_DATA = 0x0100"

lemmas uart_sizes = UART_RX0_BUFFER_MASK_def UART_RX0_BUFFER_SIZE_def
  UART_TX0_BUFFER_MASK_def UART_TX0_BUFFER_SIZE_def

definition UART_BAUD_SELECT :: "nat \<Rightarrow> nat \<Rightarrow> nat" where
  "UART_BAUD_SELECT baudRate xtalCpu = (xtalCpu + 8 * baudRate) div (16 * baudRate) - 1"

record uart0 =
  UART_TxBuf :: "uchar list"
  UART_RxBuf :: "uchar list"
  UART_TxHead :: uchar
  UART_TxTail :: uchar
  UART_RxHead :: uchar
  UART_RxTail :: uchar
  UART_LastRxError :: uchar
  UART0_STATUS :: uchar
  UART0_CONTROL :: uchar
  UBRR0H :: uchar
  UBRR0L :: uchar
  UCSR0C :: uchar
  uart_line :: "uchar list"

section \<open>The interrupt handlers\<close>

definition UART0_RECEIVE_INTERRUPT :: "usart \<Rightarrow> uchar \<Rightarrow> uchar \<Rightarrow> uart0 \<Rightarrow> uart0" where
  "UART0_RECEIVE_INTERRUPT hw usr data u =
     (let lastRxError = usr AND (BV (FE0 hw) OR BV (DOR0 hw));
          tmphead = (ucast (UART_RxHead u) + 1 :: ushort) AND UART_RX0_BUFFER_MASK;
          (lastRxError, u) =
            (if tmphead = ucast (UART_RxTail u) then (ucast (drop_bit 8 UART_BUFFER_OVERFLOW), u)
             else (lastRxError,
               u\<lparr>UART_RxHead := ucast tmphead, UART_RxBuf := (UART_RxBuf u)[unat tmphead := data]\<rparr>))
      in u\<lparr>UART_LastRxError := lastRxError\<rparr>)"

definition UART0_TRANSMIT_INTERRUPT :: "usart \<Rightarrow> uart0 \<Rightarrow> uart0" where
  "UART0_TRANSMIT_INTERRUPT hw u =
     (if UART_TxHead u \<noteq> UART_TxTail u then
        (let tmptail = (ucast (UART_TxTail u) + 1 :: ushort) AND UART_TX0_BUFFER_MASK
         in u\<lparr>UART_TxTail := ucast tmptail, uart_line := uart_line u @ [UART_TxBuf u ! unat tmptail]\<rparr>)
      else u\<lparr>UART0_CONTROL := UART0_CONTROL u AND NOT (BV (UDRIE0 hw))\<rparr>)"

section \<open>The functions of the main program\<close>

definition uart0_init :: "usart \<Rightarrow> ushort \<Rightarrow> uart0 \<Rightarrow> uart0" where
  "uart0_init hw baudrate u =
     (let u = u\<lparr>UART_TxHead := 0, UART_TxTail := 0, UART_RxHead := 0, UART_RxTail := 0\<rparr>;
          (baudrate, u) =
            (if baudrate AND 0x8000 \<noteq> 0 then (baudrate AND NOT 0x8000, u\<lparr>UART0_STATUS := BV (U2X0 hw)\<rparr>)
             else (baudrate, u))
      in u\<lparr>UBRR0H := ucast (drop_bit 8 baudrate), UBRR0L := ucast baudrate,
           UART0_CONTROL := (BV (RXCIE0 hw) OR BV (RXEN0 hw)) OR BV (TXEN0 hw),
           UCSR0C := push_bit (UCSZ00 hw) 3\<rparr>)"

definition uart0_getc :: "uart0 \<Rightarrow> ushort \<times> uart0" where
  "uart0_getc u =
     (if UART_RxHead u = UART_RxTail u then (UART_NO_DATA, u)
      else
        (let tmptail = (ucast (UART_RxTail u) + 1 :: ushort) AND UART_RX0_BUFFER_MASK;
             u = u\<lparr>UART_RxTail := ucast tmptail\<rparr>;
             data = UART_RxBuf u ! unat tmptail
         in (push_bit 8 (ucast (UART_LastRxError u)) + ucast data, u)))"

definition uart0_peek :: "uart0 \<Rightarrow> ushort" where
  "uart0_peek u =
     (if UART_RxHead u = UART_RxTail u then UART_NO_DATA
      else
        (let tmptail = (ucast (UART_RxTail u) + 1 :: ushort) AND UART_RX0_BUFFER_MASK
         in push_bit 8 (ucast (UART_LastRxError u)) + ucast (UART_RxBuf u ! unat tmptail)))"

definition uart0_available :: "uart0 \<Rightarrow> ushort" where
  "uart0_available u =
     (UART_RX0_BUFFER_SIZE + ucast (UART_RxHead u) - ucast (UART_RxTail u)) AND UART_RX0_BUFFER_MASK"

definition uart0_flush :: "uart0 \<Rightarrow> uart0" where
  "uart0_flush u = u\<lparr>UART_RxHead := UART_RxTail u\<rparr>"

text \<open>
  The wait of \<open>uart0_putc\<close> ends only by an interrupt: \<open>irqs i\<close> are those that run before its
  i-th look at the tail.
\<close>

datatype irq = Receive_irq uchar uchar | Transmit_irq

fun run_irq :: "usart \<Rightarrow> irq \<Rightarrow> uart0 \<Rightarrow> uart0" where
  "run_irq hw (Receive_irq usr data) u = UART0_RECEIVE_INTERRUPT hw usr data u"
| "run_irq hw Transmit_irq u = UART0_TRANSMIT_INTERRUPT hw u"

partial_function (option) putc_wait :: "usart \<Rightarrow> (nat \<Rightarrow> irq list) \<Rightarrow> nat \<Rightarrow> ushort \<Rightarrow> uart0 \<Rightarrow> uart0 option" where
  "putc_wait hw irqs i tmphead u =
     (if tmphead = ucast (UART_TxTail u) then putc_wait hw irqs (Suc i) tmphead (fold (run_irq hw) (irqs i) u)
      else Some u)"

declare putc_wait.simps [code]

definition uart0_putc :: "usart \<Rightarrow> (nat \<Rightarrow> irq list) \<Rightarrow> uchar \<Rightarrow> uart0 \<Rightarrow> uart0 option" where
  "uart0_putc hw irqs data u =
     (let tmphead = (ucast (UART_TxHead u) + 1 :: ushort) AND UART_TX0_BUFFER_MASK in
      do { u \<leftarrow> putc_wait hw irqs 0 tmphead u;
           let u = u\<lparr>UART_TxBuf := (UART_TxBuf u)[unat tmphead := data]\<rparr>;
           let u = u\<lparr>UART_TxHead := ucast tmphead\<rparr>;
           Some (u\<lparr>UART0_CONTROL := UART0_CONTROL u OR BV (UDRIE0 hw)\<rparr>) })"

text \<open>The strings of \<open>uart0_puts\<close> and \<open>uart0_puts_p\<close>, without their terminating zero.\<close>

fun uart0_puts :: "usart \<Rightarrow> (nat \<Rightarrow> nat \<Rightarrow> irq list) \<Rightarrow> uchar list \<Rightarrow> uart0 \<Rightarrow> uart0 option" where
  "uart0_puts hw irqs [] u = Some u"
| "uart0_puts hw irqs (c # s) u =
     do { u \<leftarrow> uart0_putc hw (irqs (length s)) c u; uart0_puts hw irqs s u }"

section \<open>Their interleaving\<close>

text \<open>
  Where the main program stands: outside, in \<open>uart0_getc\<close> behind the store of the tail, or in
  \<open>uart0_putc\<close> at the wait, behind the store of the byte, behind the store of the head.
\<close>

datatype uart_pc = Outside | Getc_read ushort | Putc_wait uchar ushort | Putc_publish uchar ushort | Putc_enable

text \<open>
  What an observer of a step sees: a byte is on the line and the receive interrupt runs, the
  transmit interrupt runs, \<open>uart0_getc\<close> takes a byte, \<open>uart0_putc\<close> publishes the one it
  was given, the receive buffer is flushed; the other accesses are silent. \<open>log_got\<close> is for
  the theorems: the bytes that \<open>uart0_getc\<close> gave out.
\<close>

datatype uart_label = RxArrive uchar | TxSend | RxTake | TxPut uchar | RxForget | Silent

record uart_sys =
  dev :: uart0
  pc :: uart_pc
  log_got :: "uchar list"

definition rx_stored :: "uart0 \<Rightarrow> bool" where
  "rx_stored u \<longleftrightarrow> (ucast (UART_RxHead u) + 1 :: ushort) AND UART_RX0_BUFFER_MASK \<noteq> ucast (UART_RxTail u)"

inductive uart_step :: "usart \<Rightarrow> uart_sys \<Rightarrow> uart_label \<Rightarrow> uart_sys \<Rightarrow> bool" for hw :: usart where
  receive: "uart_step hw s (RxArrive data) (s\<lparr>dev := UART0_RECEIVE_INTERRUPT hw usr data (dev s)\<rparr>)"
| transmit: "UART0_CONTROL (dev s) AND BV (UDRIE0 hw) \<noteq> 0 \<Longrightarrow>
     uart_step hw s TxSend (s\<lparr>dev := UART0_TRANSMIT_INTERRUPT hw (dev s)\<rparr>)"
| getc_tail: "pc s = Outside \<Longrightarrow> UART_RxHead (dev s) \<noteq> UART_RxTail (dev s) \<Longrightarrow>
     tmptail = (ucast (UART_RxTail (dev s)) + 1 :: ushort) AND UART_RX0_BUFFER_MASK \<Longrightarrow>
     uart_step hw s RxTake (s\<lparr>dev := dev s\<lparr>UART_RxTail := ucast tmptail\<rparr>, pc := Getc_read tmptail\<rparr>)"
| getc_read: "pc s = Getc_read tmptail \<Longrightarrow>
     uart_step hw s Silent (s\<lparr>log_got := log_got s @ [UART_RxBuf (dev s) ! unat tmptail], pc := Outside\<rparr>)"
| putc_call: "pc s = Outside \<Longrightarrow>
     tmphead = (ucast (UART_TxHead (dev s)) + 1 :: ushort) AND UART_TX0_BUFFER_MASK \<Longrightarrow>
     uart_step hw s Silent (s\<lparr>pc := Putc_wait data tmphead\<rparr>)"
| putc_store: "pc s = Putc_wait data tmphead \<Longrightarrow> tmphead \<noteq> ucast (UART_TxTail (dev s)) \<Longrightarrow>
     uart_step hw s Silent (s\<lparr>dev := dev s\<lparr>UART_TxBuf := (UART_TxBuf (dev s))[unat tmphead := data]\<rparr>,
       pc := Putc_publish data tmphead\<rparr>)"
| putc_publish: "pc s = Putc_publish data tmphead \<Longrightarrow>
     uart_step hw s (TxPut data) (s\<lparr>dev := dev s\<lparr>UART_TxHead := ucast tmphead\<rparr>, pc := Putc_enable\<rparr>)"
| putc_enable: "pc s = Putc_enable \<Longrightarrow>
     uart_step hw s Silent (s\<lparr>dev := dev s\<lparr>UART0_CONTROL := UART0_CONTROL (dev s) OR BV (UDRIE0 hw)\<rparr>, pc := Outside\<rparr>)"
| flush: "pc s = Outside \<Longrightarrow> uart_step hw s RxForget (s\<lparr>dev := uart0_flush (dev s)\<rparr>)"

text \<open>The runs from the initialisation on, with what was seen.\<close>

inductive uart_run :: "usart \<Rightarrow> uart_label list \<Rightarrow> uart_sys \<Rightarrow> bool" for hw :: usart where
  start: "length (UART_RxBuf u) = 128 \<Longrightarrow> length (UART_TxBuf u) = 128 \<Longrightarrow> uart_line u = [] \<Longrightarrow>
    uart_run hw [] \<lparr>dev = uart0_init hw baud u, pc = Outside, log_got = []\<rparr>"
| step: "uart_run hw ls s \<Longrightarrow> uart_step hw s l s' \<Longrightarrow> uart_run hw (ls @ [l]) s'"

end
