(* ===== verification/Uart_Laws.thy ===== *)
theory Uart_Laws
  imports Uart
begin

text \<open>
  The two ring buffers of uart.c are queues: the functional laws of each operation, the
  invariant of the interleaving of main program and interrupts, and the refinement of a pair of
  bounded queues.
\<close>


section \<open>Slots\<close>

lemma uchar_less: "unat (h :: uchar) < 256"
  using unsigned_less [of h] by simp

lemma next_slot_raw:
  "unat ((ucast (h :: uchar) + 1 :: ushort) AND 127) = Suc (unat h) mod 128"
proof -
  have m: "(127 :: ushort) = mask 7" by (simp add: mask_eq_exp_minus_1)
  have "unat h < 256" by (rule uchar_less)
  then have "unat (ucast h + 1 :: ushort) = Suc (unat h)"
    by (simp add: unat_word_ariths unsigned_ucast_eq take_bit_nat_eq_self)
  then show ?thesis unfolding m take_bit_eq_mask [symmetric]
    by (simp add: unsigned_take_bit_eq) (simp add: take_bit_eq_mod)
qed

lemma next_slot:
  "unat ((ucast (h :: uchar) + 1 :: ushort) AND UART_RX0_BUFFER_MASK) = Suc (unat h) mod 128"
  "unat ((ucast (h :: uchar) + 1 :: ushort) AND UART_TX0_BUFFER_MASK) = Suc (unat h) mod 128"
  by (simp_all add: uart_sizes next_slot_raw)

lemma slot_eq: "(x :: ushort) = ucast (t :: uchar) \<longleftrightarrow> unat x = unat t"
  using uchar_less [of t] by (simp add: word_unat_eq_iff unsigned_ucast_eq take_bit_nat_eq_self)

lemma unat_slot: "unat (x :: ushort) < 128 \<Longrightarrow> unat (ucast x :: uchar) = unat x"
  by (simp add: unsigned_ucast_eq take_bit_nat_eq_self)

lemma BV_nonzero: "n < 8 \<Longrightarrow> BV n \<noteq> 0"
proof
  assume n: "n < 8" and "BV n = 0"
  then have "bit (BV n) n = bit (0 :: uchar) n" by simp
  then show False using n by (simp add: BV_def bit_simps)
qed

section \<open>The buffers as queues\<close>

definition uart_ok :: "uart0 \<Rightarrow> bool" where
  "uart_ok u \<longleftrightarrow> length (UART_RxBuf u) = 128 \<and> length (UART_TxBuf u) = 128 \<and>
     unat (UART_RxHead u) < 128 \<and> unat (UART_RxTail u) < 128 \<and>
     unat (UART_TxHead u) < 128 \<and> unat (UART_TxTail u) < 128"

definition rx_queue :: "uart0 \<Rightarrow> uchar list" where
  "rx_queue u = ring (UART_RxBuf u) (unat (UART_RxHead u)) (unat (UART_RxTail u))"

definition tx_queue :: "uart0 \<Rightarrow> uchar list" where
  "tx_queue u = ring (UART_TxBuf u) (unat (UART_TxHead u)) (unat (UART_TxTail u))"

lemmas queue_defs = uart_ok_def rx_queue_def tx_queue_def

lemma rx_stored_slot: "rx_stored u \<longleftrightarrow> Suc (unat (UART_RxHead u)) mod 128 \<noteq> unat (UART_RxTail u)"
  by (simp add: rx_stored_def slot_eq next_slot)

lemma rx_stored_iff: "uart_ok u \<Longrightarrow> rx_stored u \<longleftrightarrow> length (rx_queue u) < 127"
  using ring_full_iff [of "unat (UART_RxHead u)" 128 "unat (UART_RxTail u)"]
    ring_len_less [of 128 "unat (UART_RxHead u)" "unat (UART_RxTail u)"]
  by (auto simp: queue_defs rx_stored_slot)

text \<open>A state without the arithmetic: what the operations make of the slots.\<close>

lemma slot_less [simp]: "unat ((ucast (h :: uchar) + 1 :: ushort) AND UART_RX0_BUFFER_MASK) < 128"
  "unat ((ucast (h :: uchar) + 1 :: ushort) AND UART_TX0_BUFFER_MASK) < 128"
  by (simp_all add: next_slot)

lemma receive_queue:
  assumes "uart_ok u"
  shows "uart_ok (UART0_RECEIVE_INTERRUPT hw usr x u)"
    "rx_queue (UART0_RECEIVE_INTERRUPT hw usr x u) = rx_queue u @ (if rx_stored u then [x] else [])"
    "tx_queue (UART0_RECEIVE_INTERRUPT hw usr x u) = tx_queue u"
    "uart_line (UART0_RECEIVE_INTERRUPT hw usr x u) = uart_line u"
    "UART_RxBuf (UART0_RECEIVE_INTERRUPT hw usr x u) ! unat (UART_RxTail u) = UART_RxBuf u ! unat (UART_RxTail u)"
  using assms ring_push [of "unat (UART_RxHead u)" "UART_RxBuf u" "unat (UART_RxTail u)" x]
  by (auto simp: UART0_RECEIVE_INTERRUPT_def Let_def queue_defs rx_stored_def slot_eq next_slot unat_slot)

lemma receive_frame:
  "UART_RxTail (UART0_RECEIVE_INTERRUPT hw usr x u) = UART_RxTail u"
  "UART_TxBuf (UART0_RECEIVE_INTERRUPT hw usr x u) = UART_TxBuf u"
  "UART_TxHead (UART0_RECEIVE_INTERRUPT hw usr x u) = UART_TxHead u"
  "UART_TxTail (UART0_RECEIVE_INTERRUPT hw usr x u) = UART_TxTail u"
  "UART0_CONTROL (UART0_RECEIVE_INTERRUPT hw usr x u) = UART0_CONTROL u"
  by (simp_all add: UART0_RECEIVE_INTERRUPT_def Let_def)

lemma transmit_queue:
  assumes "uart_ok u"
  shows "uart_ok (UART0_TRANSMIT_INTERRUPT hw u)"
    "uart_line (UART0_TRANSMIT_INTERRUPT hw u) @ tl (tx_queue u) = uart_line u @ tx_queue u"
    "tx_queue (UART0_TRANSMIT_INTERRUPT hw u) = tl (tx_queue u)"
    "rx_queue (UART0_TRANSMIT_INTERRUPT hw u) = rx_queue u"
  using assms ring_pop [of "unat (UART_TxHead u)" "UART_TxBuf u" "unat (UART_TxTail u)"]
  by (auto simp: UART0_TRANSMIT_INTERRUPT_def Let_def queue_defs next_slot unat_slot word_unat_eq_iff)

lemma transmit_frame:
  "UART_RxTail (UART0_TRANSMIT_INTERRUPT hw u) = UART_RxTail u"
  "UART_RxHead (UART0_TRANSMIT_INTERRUPT hw u) = UART_RxHead u"
  "UART_RxBuf (UART0_TRANSMIT_INTERRUPT hw u) = UART_RxBuf u"
  "UART_TxBuf (UART0_TRANSMIT_INTERRUPT hw u) = UART_TxBuf u"
  "UART_TxHead (UART0_TRANSMIT_INTERRUPT hw u) = UART_TxHead u"
  by (simp_all add: UART0_TRANSMIT_INTERRUPT_def Let_def)

lemma rx_empty_iff: "uart_ok u \<Longrightarrow> rx_queue u = [] \<longleftrightarrow> UART_RxHead u = UART_RxTail u"
  by (simp add: queue_defs ring_empty_iff word_unat_eq_iff)

lemma tx_empty_iff: "uart_ok u \<Longrightarrow> tx_queue u = [] \<longleftrightarrow> UART_TxHead u = UART_TxTail u"
  by (simp add: queue_defs ring_empty_iff word_unat_eq_iff)

lemma tail_step:
  assumes "uart_ok u" "UART_RxHead u \<noteq> UART_RxTail u"
    and t: "t = (ucast (UART_RxTail u) + 1 :: ushort) AND UART_RX0_BUFFER_MASK"
  shows "uart_ok (u\<lparr>UART_RxTail := ucast t\<rparr>)"
    "rx_queue u = UART_RxBuf u ! unat t # rx_queue (u\<lparr>UART_RxTail := ucast t\<rparr>)"
    "tx_queue (u\<lparr>UART_RxTail := ucast t\<rparr>) = tx_queue u"
  using assms(1,2) ring_pop [of "unat (UART_RxHead u)" "UART_RxBuf u" "unat (UART_RxTail u)"]
  by (auto simp: t queue_defs next_slot unat_slot word_unat_eq_iff)

lemma getc_queue:
  assumes "uart_ok u"
  shows "uart0_getc u = (case rx_queue u of [] \<Rightarrow> (UART_NO_DATA, u)
    | x # xs \<Rightarrow> (push_bit 8 (ucast (UART_LastRxError u)) + ucast x, snd (uart0_getc u)))"
    "uart_ok (snd (uart0_getc u))"
    "rx_queue (snd (uart0_getc u)) = tl (rx_queue u)"
    "tx_queue (snd (uart0_getc u)) = tx_queue u"
    "uart0_peek u = fst (uart0_getc u)"
  using assms tail_step [OF assms _ refl] rx_empty_iff [OF assms]
  by (auto simp: uart0_getc_def uart0_peek_def Let_def split: list.splits)

lemma available_queue:
  assumes "uart_ok u"
  shows "unat (uart0_available u) = length (rx_queue u)"
proof -
  let ?h = "unat (UART_RxHead u)" and ?t = "unat (UART_RxTail u)"
  have b: "?h < 128" "?t < 128" using assms by (auto simp: uart_ok_def)
  have m: "(127 :: ushort) = mask 7" by (simp add: mask_eq_exp_minus_1)
  have h: "unat (128 + ucast (UART_RxHead u) :: ushort) = 128 + ?h"
    using b by (simp add: unat_word_ariths unsigned_ucast_eq take_bit_nat_eq_self)
  have t: "unat (ucast (UART_RxTail u) :: ushort) = ?t"
    using b by (simp add: unsigned_ucast_eq take_bit_nat_eq_self)
  have "(ucast (UART_RxTail u) :: ushort) \<le> 128 + ucast (UART_RxHead u)"
    using h t b by (simp add: word_le_nat_alt)
  then have "unat (128 + ucast (UART_RxHead u) - ucast (UART_RxTail u) :: ushort) = 128 + ?h - ?t"
    using h t by (simp add: unat_sub)
  then show ?thesis using assms
    unfolding uart0_available_def uart_sizes
    by (simp add: m take_bit_eq_mask [symmetric] unsigned_take_bit_eq take_bit_eq_mod unat_mod_distrib queue_defs ring_len_def)
qed

lemma flush_queue:
  "uart_ok u \<Longrightarrow> uart_ok (uart0_flush u)" "rx_queue (uart0_flush u) = []" "tx_queue (uart0_flush u) = tx_queue u"
  by (auto simp: uart0_flush_def queue_defs)


section \<open>The interleaving\<close>

definition in_hand :: "uart_sys \<Rightarrow> uchar list" where
  "in_hand s = (case pc s of Getc_read t \<Rightarrow> [UART_RxBuf (dev s) ! unat t] | _ \<Rightarrow> [])"

fun pc_ok :: "uart0 \<Rightarrow> uart_pc \<Rightarrow> bool" where
  "pc_ok u (Getc_read t) = (unat t = unat (UART_RxTail u))"
| "pc_ok u (Putc_wait d h) = (unat h = Suc (unat (UART_TxHead u)) mod 128)"
| "pc_ok u (Putc_publish d h) = (unat h = Suc (unat (UART_TxHead u)) mod 128 \<and> unat h \<noteq> unat (UART_TxTail u) \<and>
     UART_TxBuf u ! unat h = d)"
| "pc_ok u _ = True"

definition uart_inv :: "usart \<Rightarrow> uart_sys \<Rightarrow> bool" where
  "uart_inv hw s \<longleftrightarrow> uart_ok (dev s) \<and> pc_ok (dev s) (pc s) \<and>
     (tx_queue (dev s) \<noteq> [] \<longrightarrow> UART0_CONTROL (dev s) AND BV (UDRIE0 hw) \<noteq> 0 \<or> pc s = Putc_enable)"

lemma pc_ok_receive:
  assumes "uart_ok u" "pc_ok u c"
  shows "pc_ok (UART0_RECEIVE_INTERRUPT hw usr x u) c"
  using assms by (cases c) (auto simp: receive_frame)

lemma pc_ok_transmit:
  assumes "uart_ok u" "pc_ok u c"
  shows "pc_ok (UART0_TRANSMIT_INTERRUPT hw u) c"
  using assms by (cases c) (auto simp: UART0_TRANSMIT_INTERRUPT_def Let_def next_slot unat_slot uart_ok_def
      word_unat_eq_iff mod_Suc_cases split: if_splits)

lemma receive_inv: "uart_inv hw s \<Longrightarrow> uart_inv hw
    (s\<lparr>dev := UART0_RECEIVE_INTERRUPT hw usr data (dev s)\<rparr>)"
  by (auto simp: uart_inv_def in_hand_def receive_queue receive_frame pc_ok_receive split: uart_pc.splits)

lemma transmit_control:
  "uart_ok u \<Longrightarrow> tx_queue u \<noteq> [] \<Longrightarrow> UART0_CONTROL (UART0_TRANSMIT_INTERRUPT hw u) = UART0_CONTROL u"
  by (simp add: tx_empty_iff UART0_TRANSMIT_INTERRUPT_def Let_def)

lemma transmit_inv:
  assumes "uart_inv hw s"
  shows "uart_inv hw (s\<lparr>dev := UART0_TRANSMIT_INTERRUPT hw (dev s)\<rparr>)"
proof -
  have ok: "uart_ok (dev s)" using assms by (simp add: uart_inv_def)
  have "tl (tx_queue (dev s)) \<noteq> [] \<Longrightarrow> tx_queue (dev s) \<noteq> []" by auto
  then show ?thesis using assms transmit_control [OF ok]
    by (auto simp: uart_inv_def in_hand_def transmit_queue transmit_frame pc_ok_transmit split: uart_pc.splits)
qed

lemma getc_tail_inv:
  assumes "uart_inv hw s" "pc s = Outside" "UART_RxHead (dev s) \<noteq> UART_RxTail (dev s)"
    and t: "t = (ucast (UART_RxTail (dev s)) + 1 :: ushort) AND UART_RX0_BUFFER_MASK"
  shows "uart_inv hw (s\<lparr>dev := dev s\<lparr>UART_RxTail := ucast t\<rparr>, pc := Getc_read t\<rparr>)"
  using assms(1,2) tail_step [OF _ assms(3) t]
  by (auto simp: uart_inv_def in_hand_def unat_slot t)

lemma putc_store_inv:
  assumes "uart_inv hw s" "pc s = Putc_wait d h" "h \<noteq> ucast (UART_TxTail (dev s))"
  shows "uart_inv hw (s\<lparr>dev := dev s\<lparr>UART_TxBuf := (UART_TxBuf (dev s))[unat h := d]\<rparr>, pc := Putc_publish d h\<rparr>)"
  using assms ring_outside [of "unat (UART_TxHead (dev s))" "UART_TxBuf (dev s)" "unat (UART_TxTail (dev s))" "unat h" d]
  by (auto simp: uart_inv_def in_hand_def slot_eq queue_defs)

lemma publish_queue:
  assumes "uart_ok u" "unat h = Suc (unat (UART_TxHead u)) mod 128" "unat h \<noteq> unat (UART_TxTail u)"
    "UART_TxBuf u ! unat h = d"
  shows "uart_ok (u\<lparr>UART_TxHead := ucast (h :: ushort)\<rparr>)"
    "tx_queue (u\<lparr>UART_TxHead := ucast h\<rparr>) = tx_queue u @ [d]"
    "rx_queue (u\<lparr>UART_TxHead := ucast h\<rparr>) = rx_queue u"
  using assms ring_push [of "unat (UART_TxHead u)" "UART_TxBuf u" "unat (UART_TxTail u)" d]
    list_update_id [of "UART_TxBuf u" "unat h"]
  by (auto simp: queue_defs unat_slot)

lemma putc_publish_inv:
  assumes "uart_inv hw s" "pc s = Putc_publish d h"
  shows "uart_inv hw (s\<lparr>dev := dev s\<lparr>UART_TxHead := ucast h\<rparr>, pc := Putc_enable\<rparr>)"
  using assms publish_queue [of "dev s" h d] by (auto simp: uart_inv_def in_hand_def)

lemma enable_queue:
  "uart_ok (u\<lparr>UART0_CONTROL := c\<rparr>) = uart_ok u" "rx_queue (u\<lparr>UART0_CONTROL := c\<rparr>) = rx_queue u"
  "tx_queue (u\<lparr>UART0_CONTROL := c\<rparr>) = tx_queue u"
  by (simp_all add: queue_defs)

lemma uart_step_inv:
  assumes "uart_step hw s l s'" "uart_inv hw s" "UDRIE0 hw < 8"
  shows "uart_inv hw s'"
  using assms
proof (induction rule: uart_step.induct)
  case (receive s usr data)
  then show ?case by (intro receive_inv)
next
  case (transmit s)
  then show ?case by (intro transmit_inv)
next
  case (getc_tail s t)
  then show ?case by (intro getc_tail_inv)
next
  case (getc_read s t)
  then show ?case by (auto simp: uart_inv_def in_hand_def)
next
  case (putc_call s h data)
  then show ?case by (auto simp: uart_inv_def in_hand_def next_slot)
next
  case (putc_store s data h)
  then show ?case by (intro putc_store_inv)
next
  case (putc_publish s data h)
  then show ?case by (intro putc_publish_inv)
next
  case (putc_enable s)
  then show ?case by (auto simp: uart_inv_def in_hand_def enable_queue BV_nonzero)
next
  case (flush s)
  then show ?case by (auto simp: uart_inv_def in_hand_def flush_queue) (auto simp: uart0_flush_def)
qed

lemma init_queue:
  assumes "length (UART_RxBuf u) = 128" "length (UART_TxBuf u) = 128"
  shows "uart_ok (uart0_init hw baud u)" "rx_queue (uart0_init hw baud u) = []" "tx_queue (uart0_init hw baud u) = []"
    "uart_line (uart0_init hw baud u) = uart_line u"
  using assms by (auto simp: uart0_init_def Let_def queue_defs)

lemma uart_run_inv: "uart_run hw ls s \<Longrightarrow> UDRIE0 hw < 8 \<Longrightarrow> uart_inv hw s"
proof (induction rule: uart_run.induct)
  case (start u baud)
  then show ?case by (simp add: uart_inv_def init_queue)
next
  case (step ls s l s')
  then show ?case by (blast intro: uart_step_inv)
qed

section \<open>Putting a byte\<close>

lemma run_irq_tx:
  assumes "uart_ok u"
  shows "uart_ok (run_irq hw i u)" "UART_TxHead (run_irq hw i u) = UART_TxHead u"
    "uart_line (run_irq hw i u) @ tx_queue (run_irq hw i u) = uart_line u @ tx_queue u"
    "length (tx_queue (run_irq hw i u)) \<le> length (tx_queue u)"
  using assms by (cases i; simp add: receive_queue transmit_queue receive_frame transmit_frame)+

lemma run_irqs_tx:
  assumes "uart_ok u"
  shows "uart_ok (fold (run_irq hw) is u) \<and> UART_TxHead (fold (run_irq hw) is u) = UART_TxHead u \<and>
    uart_line (fold (run_irq hw) is u) @ tx_queue (fold (run_irq hw) is u) = uart_line u @ tx_queue u \<and>
    length (tx_queue (fold (run_irq hw) is u)) \<le> length (tx_queue u)"
  using assms
proof (induction "is" arbitrary: u)
  case (Cons i "is")
  from Cons.IH [OF run_irq_tx(1) [OF Cons.prems], of hw i] run_irq_tx [OF Cons.prems, of hw i]
  show ?case by auto
qed simp

lemma transmit_irq_frees:
  assumes "uart_ok u" "Transmit_irq \<in> set is" "tx_queue u \<noteq> []"
  shows "length (tx_queue (fold (run_irq hw) is u)) < length (tx_queue u)"
  using assms
proof (induction "is" arbitrary: u)
  case (Cons i "is")
  show ?case
  proof (cases i)
    case Transmit_irq
    have "length (tx_queue (fold (run_irq hw) is (run_irq hw i u))) \<le> length (tx_queue (run_irq hw i u))"
      using run_irqs_tx [OF run_irq_tx(1) [OF Cons.prems(1)]] by blast
    also have "\<dots> < length (tx_queue u)" using Transmit_irq Cons.prems by (simp add: transmit_queue)
    finally show ?thesis by simp
  next
    case (Receive_irq usr x)
    then show ?thesis using Cons.IH [of "run_irq hw i u"] Cons.prems by (simp add: receive_queue)
  qed
qed simp

definition tx_free :: "ushort \<Rightarrow> uart0 \<Rightarrow> bool" where
  "tx_free h u \<longleftrightarrow> h \<noteq> ucast (UART_TxTail u)"

lemma tx_free_iff:
  assumes "uart_ok u" "h = (ucast (UART_TxHead u) + 1 :: ushort) AND UART_TX0_BUFFER_MASK"
  shows "tx_free h u \<longleftrightarrow> length (tx_queue u) < 127"
  using assms ring_full_iff [of "unat (UART_TxHead u)" 128 "unat (UART_TxTail u)"]
    ring_len_less [of 128 "unat (UART_TxHead u)" "unat (UART_TxTail u)"]
  by (auto simp: tx_free_def queue_defs slot_eq next_slot)

lemma queue_bounds:
  assumes "uart_ok u"
  shows "length (tx_queue u) \<le> 127" "length (rx_queue u) \<le> 127"
  using assms ring_len_less [of 128 "unat (UART_TxHead u)" "unat (UART_TxTail u)"]
    ring_len_less [of 128 "unat (UART_RxHead u)" "unat (UART_RxTail u)"]
  by (auto simp: queue_defs)

lemma putc_wait_returns:
  assumes "uart_ok u" "h = (ucast (UART_TxHead u) + 1 :: ushort) AND UART_TX0_BUFFER_MASK"
    "tx_free h u \<or> Transmit_irq \<in> set (irqs (i + n))"
  shows "\<exists>u'. putc_wait hw irqs i h u = Some u' \<and> uart_ok u' \<and> tx_free h u' \<and> UART_TxHead u' = UART_TxHead u \<and>
    uart_line u' @ tx_queue u' = uart_line u @ tx_queue u"
  using assms
proof (induction n arbitrary: i u)
  case (0 i u)
  let ?u = "fold (run_irq hw) (irqs i) u"
  note tx = run_irqs_tx [OF "0.prems"(1), of hw "irqs i"]
  show ?case
  proof (cases "tx_free h u")
    case False
    then have "\<not> length (tx_queue u) < 127" using tx_free_iff [OF "0.prems"(1,2)] by simp
    then have "length (tx_queue ?u) < length (tx_queue u)"
      using transmit_irq_frees [OF "0.prems"(1), of "irqs i" hw] "0.prems"(3) False by fastforce
    then have "tx_free h ?u"
      using queue_bounds(1) [OF "0.prems"(1)] tx "0.prems"(2) tx_free_iff [of ?u h] by simp
    then show ?thesis using False tx
      by (subst putc_wait.simps, subst putc_wait.simps) (simp add: tx_free_def)
  qed (use "0.prems" in \<open>subst putc_wait.simps, simp add: tx_free_def\<close>)
next
  case (Suc n i u)
  let ?u = "fold (run_irq hw) (irqs i) u"
  note tx = run_irqs_tx [OF Suc.prems(1), of hw "irqs i"]
  show ?case
  proof (cases "tx_free h u")
    case True
    then show ?thesis using Suc.prems by (subst putc_wait.simps) (simp add: tx_free_def)
  next
    case False
    then have "putc_wait hw irqs i h u = putc_wait hw irqs (Suc i) h ?u"
      by (subst putc_wait.simps) (simp add: tx_free_def)
    then show ?thesis using Suc.IH [of ?u "Suc i"] Suc.prems tx False by auto
  qed
qed

lemma putc_returns:
  assumes "uart_ok u" "length (tx_queue u) < 127 \<or> (\<exists>i. Transmit_irq \<in> set (irqs i))"
  shows "\<exists>u'. uart0_putc hw irqs x u = Some u' \<and> uart_ok u' \<and>
    uart_line u' @ tx_queue u' = uart_line u @ tx_queue u @ [x]"
proof -
  define h where "h = (ucast (UART_TxHead u) + 1 :: ushort) AND UART_TX0_BUFFER_MASK"
  obtain n where "tx_free h u \<or> Transmit_irq \<in> set (irqs (0 + n))"
    using assms tx_free_iff [OF assms(1) h_def] by auto
  from putc_wait_returns [OF assms(1) h_def, of irqs 0 n hw] this obtain v where
    v: "putc_wait hw irqs 0 h u = Some v" "uart_ok v" "tx_free h v" "UART_TxHead v = UART_TxHead u"
      "uart_line v @ tx_queue v = uart_line u @ tx_queue u" by blast
  let ?v = "v\<lparr>UART_TxBuf := (UART_TxBuf v)[unat h := x]\<rparr>"
  have h: "unat h = Suc (unat (UART_TxHead ?v)) mod 128" using v(4) by (simp add: h_def next_slot)
  have "uart_ok ?v" "tx_queue ?v = tx_queue v"
    using v(2) h ring_outside [of "unat (UART_TxHead v)" "UART_TxBuf v" "unat (UART_TxTail v)" "unat h" x]
    by (auto simp: queue_defs)
  moreover have "unat h \<noteq> unat (UART_TxTail ?v)" using v(3) by (simp add: tx_free_def slot_eq)
  moreover have "UART_TxBuf ?v ! unat h = x" using v(2) h by (simp add: uart_ok_def)
  ultimately show ?thesis using publish_queue [of ?v h x] v h
    by (simp add: uart0_putc_def Let_def h_def [symmetric] enable_queue)
qed

end
