(* ===== verification/Uart_Queue.thy ===== *)
theory Uart_Queue
  imports Uart_Laws
begin

text \<open>
  The interface that the users of the ring buffers rely on, bounded queues, with its
  interpretations on the receive and the transmit buffer, and the properties of uart.c.
\<close>

section \<open>Queues of bounded length\<close>

text \<open>
  What a user of a bounded queue relies on. A queue may lose what it has no room for; a
  \<open>dropping\<close> queue loses exactly that.
\<close>

locale bounded_queue =
  fixes ok :: "'q \<Rightarrow> bool" and content :: "'q \<Rightarrow> 'a list" and cap :: nat
    and insert :: "'a \<Rightarrow> 'q \<Rightarrow> 'q" and remove :: "'q \<Rightarrow> ('a \<times> 'q) option"
  assumes insert_ok: "ok q \<Longrightarrow> ok (insert a q)"
    and insert_room: "ok q \<Longrightarrow> length (content q) < cap \<Longrightarrow> content (insert a q) = content q @ [a]"
    and remove_none: "ok q \<Longrightarrow> remove q = None \<longleftrightarrow> content q = []"
    and remove_some: "ok q \<Longrightarrow> remove q = Some (a, q') \<Longrightarrow> ok q' \<and> content q = a # content q'"

locale dropping_queue = bounded_queue ok content cap insert remove
  for ok :: "'q \<Rightarrow> bool" and content :: "'q \<Rightarrow> 'a list" and cap insert remove +
  assumes insert_full: "ok q \<Longrightarrow> length (content q) = cap \<Longrightarrow> content (insert a q) = content q"
    and bounded: "ok q \<Longrightarrow> length (content q) \<le> cap"

fun remove_all :: "('q \<Rightarrow> ('a \<times> 'q) option) \<Rightarrow> nat \<Rightarrow> 'q \<Rightarrow> 'a list" where
  "remove_all remove 0 q = []"
| "remove_all remove (Suc n) q = (case remove q of None \<Rightarrow> [] | Some (a, q) \<Rightarrow> a # remove_all remove n q)"

context bounded_queue
begin

lemma remove_all_content: "ok q \<Longrightarrow> remove_all remove n q = take n (content q)"
proof (induction n arbitrary: q)
  case (Suc n)
  show ?case
  proof (cases "remove q")
    case None
    then show ?thesis using remove_none [OF Suc.prems] None by simp
  next
    case (Some r)
    obtain a p where "remove q = Some (a, p)" using Some by (cases r) simp
    then show ?thesis using remove_some [OF Suc.prems] Suc.IH [of p] by simp
  qed
qed simp

lemma inserts_ok: "ok q \<Longrightarrow> ok (fold insert xs q)"
  by (induction xs arbitrary: q) (auto intro: insert_ok)

lemma inserts_room:
  "ok q \<Longrightarrow> length (content q) + length xs \<le> cap \<Longrightarrow> content (fold insert xs q) = content q @ xs"
  by (induction xs arbitrary: q) (auto simp: insert_ok insert_room)

lemma in_order:
  "ok q \<Longrightarrow> content q = [] \<Longrightarrow> length xs \<le> cap \<Longrightarrow> remove_all remove (length xs) (fold insert xs q) = xs"
  by (simp add: remove_all_content inserts_ok inserts_room)

end

context dropping_queue
begin

lemma inserts_drop: "ok q \<Longrightarrow> content (fold insert xs q) = content q @ take (cap - length (content q)) xs"
proof (induction xs arbitrary: q)
  case (Cons x xs)
  from Cons.IH [OF insert_ok [OF Cons.prems], of x] show ?case
    using insert_room [OF Cons.prems, of x] insert_full [OF Cons.prems, of x] bounded [OF Cons.prems]
    by (cases "length (content q) = cap") (auto simp: take_Cons')
qed simp

lemma burst: "ok q \<Longrightarrow> content q = [] \<Longrightarrow> cap \<le> n \<Longrightarrow> remove_all remove n (fold insert xs q) = take cap xs"
  by (simp add: remove_all_content inserts_ok inserts_drop)

end

text \<open>One turn of the wait of \<open>ReadSerial\<close> in servant64/xlink.c.\<close>

definition poll_serial :: "uart0 \<Rightarrow> (uchar \<times> uart0) option" where
  "poll_serial u =
     (if uart0_available u = 0 then None
      else (case uart0_getc u of (w, u) \<Rightarrow> Some (ucast (w AND 0xff), u)))"

text \<open>The byte that the transmit interrupt puts on the line, if any.\<close>

definition transmitted :: "usart \<Rightarrow> uart0 \<Rightarrow> (uchar \<times> uart0) option" where
  "transmitted hw u =
     (let u' = UART0_TRANSMIT_INTERRUPT hw u in
      if uart_line u' = uart_line u then None else Some (last (uart_line u'), u'))"

definition put_serial :: "usart \<Rightarrow> uchar \<Rightarrow> uart0 \<Rightarrow> uart0" where
  "put_serial hw x u = (case uart0_putc hw (\<lambda>i. [Transmit_irq]) x u of None \<Rightarrow> u | Some u' \<Rightarrow> u')"

lemma byte_of_word: "ucast ((push_bit 8 (ucast (e :: uchar)) + ucast (x :: uchar) :: ushort) AND 0xff) = x"
proof -
  have "(push_bit 8 (ucast e) :: ushort) AND ucast x = 0"
    by (rule bit_word_eqI) (auto simp: bit_simps dest: bit_imp_le_length)
  then have "(push_bit 8 (ucast e) + ucast x :: ushort) = push_bit 8 (ucast e) OR ucast x"
    by (simp add: disjunctive_add_eq_or)
  then have "ucast ((push_bit 8 (ucast e) + ucast x :: ushort) AND mask 8) = x"
    by (intro bit_word_eqI) (auto simp: bit_simps)
  then show ?thesis by (simp add: mask_eq_exp_minus_1)
qed

lemma poll_serial_queue:
  assumes "uart_ok u"
  shows "poll_serial u = (case rx_queue u of [] \<Rightarrow> None | x # xs \<Rightarrow> Some (x, snd (uart0_getc u)))"
proof -
  have "uart0_available u = 0 \<longleftrightarrow> rx_queue u = []"
    using available_queue [OF assms] by (metis length_0_conv unat_eq_zero)
  then show ?thesis using getc_queue(1) [OF assms]
    by (auto simp: poll_serial_def byte_of_word split: list.splits prod.splits)
qed

lemma transmitted_line:
  assumes "uart_ok u"
  shows "uart_line (UART0_TRANSMIT_INTERRUPT hw u) =
    uart_line u @ (case tx_queue u of [] \<Rightarrow> [] | x # xs \<Rightarrow> [x])"
proof (cases "tx_queue u")
  case Nil
  then show ?thesis using transmit_queue(2) [OF assms, of hw] by simp
next
  case (Cons x xs)
  then have "uart_line (UART0_TRANSMIT_INTERRUPT hw u) @ xs = (uart_line u @ [x]) @ xs"
    using transmit_queue(2) [OF assms, of hw] by simp
  then have "uart_line (UART0_TRANSMIT_INTERRUPT hw u) = uart_line u @ [x]" by (simp only: append_same_eq)
  with Cons show ?thesis by simp
qed

lemma transmitted_queue:
  assumes "uart_ok u"
  shows "transmitted hw u = (case tx_queue u of [] \<Rightarrow> None | x # xs \<Rightarrow> Some (x, UART0_TRANSMIT_INTERRUPT hw u))"
  using transmitted_line [OF assms, of hw] by (simp add: transmitted_def Let_def split: list.splits)

lemma putc_line:
  assumes "uart_ok u" "length (tx_queue u) < 127"
  shows "\<exists>u'. uart0_putc hw irqs x u = Some u' \<and> uart_ok u' \<and> tx_queue u' = tx_queue u @ [x] \<and> uart_line u' = uart_line u"
proof -
  obtain u' where u': "uart0_putc hw irqs x u = Some u'" "uart_ok u'"
    "uart_line u' @ tx_queue u' = uart_line u @ tx_queue u @ [x]" using putc_returns [OF assms(1)] assms(2) by blast
  define h where "h = (ucast (UART_TxHead u) + 1 :: ushort) AND UART_TX0_BUFFER_MASK"
  have "putc_wait hw irqs 0 h u = Some u"
    using tx_free_iff [OF assms(1) h_def] assms(2) by (subst putc_wait.simps) (simp add: tx_free_def)
  then have "uart_line u' = uart_line u"
    using u'(1) by (simp add: uart0_putc_def Let_def flip: h_def) auto
  then show ?thesis using u' by auto
qed

interpretation rx: dropping_queue uart_ok rx_queue 127 "UART0_RECEIVE_INTERRUPT hw usr" poll_serial
proof
  fix q a assume ok: "uart_ok q"
  show "uart_ok (UART0_RECEIVE_INTERRUPT hw usr a q)" using ok by (rule receive_queue)
  show "length (rx_queue q) < 127 \<Longrightarrow> rx_queue (UART0_RECEIVE_INTERRUPT hw usr a q) = rx_queue q @ [a]"
    by (simp add: receive_queue(2) [OF ok] rx_stored_iff [OF ok])
  show "length (rx_queue q) = 127 \<Longrightarrow> rx_queue (UART0_RECEIVE_INTERRUPT hw usr a q) = rx_queue q"
    by (simp add: receive_queue(2) [OF ok] rx_stored_iff [OF ok])
  show "length (rx_queue q) \<le> 127" using ok by (rule queue_bounds)
  show "(poll_serial q = None) = (rx_queue q = [])"
    by (simp add: poll_serial_queue [OF ok] split: list.splits)
  show "poll_serial q = Some (a, q') \<Longrightarrow> uart_ok q' \<and> rx_queue q = a # rx_queue q'" for q'
    using getc_queue(2,3) [OF ok] by (auto simp: poll_serial_queue [OF ok] split: list.splits)
qed

interpretation tx: bounded_queue uart_ok tx_queue 127 "put_serial hw" "transmitted hw"
proof
  fix q a assume ok: "uart_ok q"
  show "uart_ok (put_serial hw a q)"
    using putc_returns [OF ok, of "\<lambda>i. [Transmit_irq]" hw a] by (auto simp: put_serial_def)
  show "length (tx_queue q) < 127 \<Longrightarrow> tx_queue (put_serial hw a q) = tx_queue q @ [a]"
    using putc_line [OF ok, of hw "\<lambda>i. [Transmit_irq]" a] by (auto simp: put_serial_def)
  show "(transmitted hw q = None) = (tx_queue q = [])"
    by (simp add: transmitted_queue [OF ok] split: list.splits)
  show "transmitted hw q = Some (a, q') \<Longrightarrow> uart_ok q' \<and> tx_queue q = a # tx_queue q'" for q'
    using transmit_queue(1,3) [OF ok] by (auto simp: transmitted_queue [OF ok] split: list.splits)
qed

end
