(* ===== verification/Uart_Props.thy ===== *)
theory Uart_Props
  imports Uart_Queue "HOL-Library.Sublist"
begin

text \<open>
  The refinement of the interleaved uart to a pair of bounded queues, and the properties of
  uart.c.
\<close>

section \<open>The abstract line\<close>

text \<open>
  Without slots, interrupts and half done calls: two bounded queues. \<open>lk_given\<close> is what the
  main program has taken, \<open>lk_wire\<close> what was sent. \<open>link_do\<close> is what each label must do to
  them, \<open>link_may\<close> when the main program can do it: a byte that arrives at a full queue is
  dropped, and nothing else is.
\<close>

record link =
  lk_rx :: "uchar list"
  lk_given :: "uchar list"
  lk_tx :: "uchar list"
  lk_wire :: "uchar list"

fun link_do :: "uart_label \<Rightarrow> link \<Rightarrow> link" where
  "link_do (RxArrive x) l = (if length (lk_rx l) < 127 then l\<lparr>lk_rx := lk_rx l @ [x]\<rparr> else l)"
| "link_do RxTake l = l\<lparr>lk_rx := tl (lk_rx l), lk_given := lk_given l @ take 1 (lk_rx l)\<rparr>"
| "link_do (TxPut x) l = l\<lparr>lk_tx := lk_tx l @ [x]\<rparr>"
| "link_do TxSend l = l\<lparr>lk_tx := tl (lk_tx l), lk_wire := lk_wire l @ take 1 (lk_tx l)\<rparr>"
| "link_do RxForget l = l\<lparr>lk_rx := []\<rparr>"
| "link_do Silent l = l"

fun link_may :: "uart_label \<Rightarrow> link \<Rightarrow> bool" where
  "link_may RxTake l = (lk_rx l \<noteq> [])"
| "link_may (TxPut x) l = (length (lk_tx l) < 127)"
| "link_may _ l = True"

definition link_of :: "uart_sys \<Rightarrow> link" where
  "link_of s = \<lparr>lk_rx = rx_queue (dev s), lk_given = log_got s @ in_hand s,
     lk_tx = tx_queue (dev s), lk_wire = uart_line (dev s)\<rparr>"

lemma receive_link:
  assumes "uart_inv hw s"
  shows "link_of (s\<lparr>dev := UART0_RECEIVE_INTERRUPT hw usr x (dev s)\<rparr>) = link_do (RxArrive x) (link_of s)"
  using assms by (auto simp: link_of_def uart_inv_def in_hand_def receive_queue rx_stored_iff receive_frame
      split: uart_pc.splits)

lemma transmit_link:
  assumes "uart_inv hw s"
  shows "link_of (s\<lparr>dev := UART0_TRANSMIT_INTERRUPT hw (dev s)\<rparr>) = link_do TxSend (link_of s)"
proof -
  have ok: "uart_ok (dev s)" using assms by (simp add: uart_inv_def)
  have "uart_line (UART0_TRANSMIT_INTERRUPT hw (dev s)) =
      uart_line (dev s) @ (case tx_queue (dev s) of [] \<Rightarrow> [] | x # xs \<Rightarrow> [x])"
    using transmitted_line [OF ok] by (simp split: list.splits)
  then show ?thesis
    by (auto simp: link_of_def in_hand_def transmit_queue [OF ok] transmit_frame split: list.splits uart_pc.splits)
qed

lemma uart_step_link:
  assumes "uart_step hw s l s'" "uart_inv hw s"
  shows "link_may l (link_of s) \<and> link_of s' = link_do l (link_of s)"
  using assms
proof (induction rule: uart_step.induct)
  case (receive s x usr)
  then show ?case by (simp add: receive_link del: link_do.simps)
next
  case (transmit s)
  then show ?case by (simp add: transmit_link del: link_do.simps)
next
  case (getc_tail s t)
  have ok: "uart_ok (dev s)" using getc_tail.prems by (simp add: uart_inv_def)
  note t = tail_step [OF ok getc_tail.hyps(2,3)]
  show ?case
    using getc_tail.hyps(1) t by (simp add: link_of_def in_hand_def)
next
  case (getc_read s t)
  then show ?case by (simp add: link_of_def in_hand_def)
next
  case (putc_call s h x)
  then show ?case by (simp add: link_of_def in_hand_def)
next
  case (putc_store s x h)
  then have "rx_queue (dev s) = rx_queue (dev s\<lparr>UART_TxBuf := (UART_TxBuf (dev s))[unat h := x]\<rparr>)"
    "tx_queue (dev s\<lparr>UART_TxBuf := (UART_TxBuf (dev s))[unat h := x]\<rparr>) = tx_queue (dev s)"
    using ring_outside [of "unat (UART_TxHead (dev s))" "UART_TxBuf (dev s)" "unat (UART_TxTail (dev s))" "unat h" x]
    by (auto simp: queue_defs uart_inv_def)
  then show ?case using putc_store.hyps by (simp add: link_of_def in_hand_def)
next
  case (putc_publish s x h)
  then have ok: "uart_ok (dev s)" "unat h = Suc (unat (UART_TxHead (dev s))) mod 128"
      "unat h \<noteq> unat (UART_TxTail (dev s))" "UART_TxBuf (dev s) ! unat h = x" by (auto simp: uart_inv_def)
  note p = publish_queue [OF ok]
  have "length (tx_queue (dev s)) < 127" using p(2) queue_bounds(1) [OF p(1)] by simp
  then show ?case
    using putc_publish.hyps p by (simp add: link_of_def in_hand_def)
next
  case (putc_enable s)
  then show ?case by (simp add: link_of_def in_hand_def enable_queue)
next
  case (flush s)
  then show ?case
    by (simp add: link_of_def in_hand_def flush_queue uart_inv_def) (simp add: uart0_flush_def)
qed

section \<open>What was seen and what is there\<close>

definition arrived :: "uart_label list \<Rightarrow> uchar list" where
  "arrived ls = concat (map (\<lambda>l. case l of RxArrive x \<Rightarrow> [x] | _ \<Rightarrow> []) ls)"

definition puts :: "uart_label list \<Rightarrow> uchar list" where
  "puts ls = concat (map (\<lambda>l. case l of TxPut x \<Rightarrow> [x] | _ \<Rightarrow> []) ls)"

definition takes :: "uart_label list \<Rightarrow> nat" where
  "takes ls = length (filter ((=) RxTake) ls)"

text \<open>There was room for every byte that arrived: no flush, and never more than 127 ahead of the reader.\<close>

definition had_room :: "uart_label list \<Rightarrow> bool" where
  "had_room ls \<longleftrightarrow> RxForget \<notin> set ls \<and> (\<forall>p\<in>set (prefixes ls). length (arrived p) \<le> takes p + 127)"

lemmas seen_defs = arrived_def puts_def takes_def

lemma had_room_snoc:
  "had_room (ls @ [l]) \<longleftrightarrow> had_room ls \<and> l \<noteq> RxForget \<and> length (arrived (ls @ [l])) \<le> takes (ls @ [l]) + 127"
  by (auto simp: had_room_def)

lemma head_tail: "take (Suc 0) xs @ tl xs = xs"
  by (cases xs) simp_all

lemma length_head: "xs \<noteq> [] \<Longrightarrow> min (length xs) (Suc 0) = Suc 0"
  by (cases xs) simp_all

lemma subseq_snoc: "subseq (a @ b) c \<Longrightarrow> subseq (a @ b @ [x]) (c @ [x])"
  using subseq_append [of "a @ b" "[x]" c] by simp

lemma run_puts: "uart_run hw ls s \<Longrightarrow> UDRIE0 hw < 8 \<Longrightarrow> lk_wire (link_of s) @ lk_tx (link_of s) = puts ls"
proof (induction rule: uart_run.induct)
  case (start u baud)
  then show ?case by (simp add: link_of_def init_queue puts_def)
next
  case (step ls s l s')
  have "link_of s' = link_do l (link_of s)" using uart_step_link uart_run_inv step by blast
  then show ?case using step by (cases l) (auto simp: puts_def head_tail)
qed

lemma run_arrived:
  "uart_run hw ls s \<Longrightarrow> UDRIE0 hw < 8 \<Longrightarrow>
    subseq (lk_given (link_of s) @ lk_rx (link_of s)) (arrived ls) \<and> length (lk_given (link_of s)) = takes ls"
proof (induction rule: uart_run.induct)
  case (start u baud)
  then show ?case by (simp add: link_of_def init_queue seen_defs in_hand_def)
next
  case (step ls s l s')
  have "link_may l (link_of s) \<and> link_of s' = link_do l (link_of s)"
    using uart_step_link uart_run_inv step by blast
  moreover have "subseq (lk_given (link_of s)) (arrived ls)"
    using step by (meson subseq_order.trans list_emb_prefix subseq_order.refl)
  ultimately show ?case using step
    by (cases l) (auto simp: seen_defs head_tail length_head subseq_snoc list_emb_prefix)
qed

lemma run_room:
  "uart_run hw ls s \<Longrightarrow> UDRIE0 hw < 8 \<Longrightarrow> had_room ls \<Longrightarrow>
    lk_given (link_of s) @ lk_rx (link_of s) = arrived ls"
proof (induction rule: uart_run.induct)
  case (start u baud)
  then show ?case by (simp add: link_of_def init_queue seen_defs in_hand_def)
next
  case (step ls s l s')
  have l: "link_may l (link_of s) \<and> link_of s' = link_do l (link_of s)"
    using uart_step_link uart_run_inv step by blast
  have "length (lk_given (link_of s)) = takes ls" using run_arrived step by blast
  moreover have e: "lk_given (link_of s) @ lk_rx (link_of s) = arrived ls"
    using step by (simp add: had_room_snoc)
  ultimately have "length (arrived ls) = takes ls + length (lk_rx (link_of s))" by (metis length_append)
  then show ?case using l e step.prems
    by (cases l) (auto simp: had_room_snoc arrived_def takes_def neq_Nil_conv)
qed

section \<open>Whole calls\<close>

text \<open>
  The calls of the main program, not interrupted, are runs of the step relation.
\<close>

lemma getc_run:
  assumes run: "uart_run hw ls s" and "pc s = Outside" "uart_ok (dev s)" "rx_queue (dev s) = x # xs"
  shows "uart_run hw (ls @ [RxTake, Silent]) (s\<lparr>dev := snd (uart0_getc (dev s)), log_got := log_got s @ [x]\<rparr>)"
proof -
  define t where "t = (ucast (UART_RxTail (dev s)) + 1 :: ushort) AND UART_RX0_BUFFER_MASK"
  let ?a = "s\<lparr>dev := dev s\<lparr>UART_RxTail := ucast t\<rparr>, pc := Getc_read t\<rparr>"
  have ne: "UART_RxHead (dev s) \<noteq> UART_RxTail (dev s)" using assms rx_empty_iff by force
  have "uart_step hw s RxTake ?a" by (rule uart_step.getc_tail [OF assms(2) ne t_def])
  moreover have "uart_step hw ?a Silent (?a\<lparr>log_got := log_got ?a @ [UART_RxBuf (dev ?a) ! unat t], pc := Outside\<rparr>)"
    by (rule uart_step.getc_read) simp
  moreover have "?a\<lparr>log_got := log_got ?a @ [UART_RxBuf (dev ?a) ! unat t], pc := Outside\<rparr> =
      s\<lparr>dev := snd (uart0_getc (dev s)), log_got := log_got s @ [x]\<rparr>"
    using assms(2,4) ne tail_step(2) [OF assms(3) ne t_def]
    by (simp add: uart0_getc_def Let_def flip: t_def)
  ultimately have "uart_run hw ((ls @ [RxTake]) @ [Silent]) (s\<lparr>dev := snd (uart0_getc (dev s)), log_got := log_got s @ [x]\<rparr>)"
    by (metis uart_run.step [OF uart_run.step [OF run]])
  then show ?thesis by simp
qed

lemma putc_run:
  assumes run: "uart_run hw ls s" and "pc s = Outside" "uart_ok (dev s)" "length (tx_queue (dev s)) < 127"
    "uart0_putc hw irqs x (dev s) = Some u"
  shows "uart_run hw (ls @ [Silent, Silent, TxPut x, Silent]) (s\<lparr>dev := u\<rparr>)"
proof -
  define h where "h = (ucast (UART_TxHead (dev s)) + 1 :: ushort) AND UART_TX0_BUFFER_MASK"
  let ?a = "s\<lparr>pc := Putc_wait x h\<rparr>"
  let ?b = "?a\<lparr>dev := dev ?a\<lparr>UART_TxBuf := (UART_TxBuf (dev ?a))[unat h := x]\<rparr>, pc := Putc_publish x h\<rparr>"
  let ?c = "?b\<lparr>dev := dev ?b\<lparr>UART_TxHead := ucast h\<rparr>, pc := Putc_enable\<rparr>"
  let ?d = "?c\<lparr>dev := dev ?c\<lparr>UART0_CONTROL := UART0_CONTROL (dev ?c) OR BV (UDRIE0 hw)\<rparr>, pc := Outside\<rparr>"
  have free: "h \<noteq> ucast (UART_TxTail (dev s))"
    using tx_free_iff [OF assms(3) h_def] assms(4) by (simp add: tx_free_def)
  then have "putc_wait hw irqs 0 h (dev s) = Some (dev s)" by (subst putc_wait.simps) simp
  then have d': "?d = s\<lparr>dev := u\<rparr>"
    using assms(2,5) by (auto simp: uart0_putc_def Let_def simp flip: h_def)
  have a: "uart_step hw s Silent ?a" by (rule uart_step.putc_call [OF assms(2) h_def])
  have b: "uart_step hw ?a Silent ?b" by (rule uart_step.putc_store) (simp_all add: free)
  have c: "uart_step hw ?b (TxPut x) ?c" by (rule uart_step.putc_publish) simp
  have d: "uart_step hw ?c Silent ?d" by (rule uart_step.putc_enable) simp
  note runs = uart_run.step [OF uart_run.step [OF uart_run.step [OF uart_run.step [OF run a] b] c] d]
  show ?thesis using runs unfolding d' by simp
qed

section \<open>Properties\<close>

definition sample_usart :: usart where
  "sample_usart = \<lparr>FE0 = 4, DOR0 = 3, UDRIE0 = 5, RXCIE0 = 7, RXEN0 = 4, TXEN0 = 3, U2X0 = 1, UCSZ00 = 1\<rparr>"

definition blank_uart :: uart0 where
  "blank_uart = \<lparr>UART_TxBuf = replicate 128 0, UART_RxBuf = replicate 128 0, UART_TxHead = 0, UART_TxTail = 0,
     UART_RxHead = 0, UART_RxTail = 0, UART_LastRxError = 0, UART0_STATUS = 0, UART0_CONTROL = 0,
     UBRR0H = 0, UBRR0L = 0, UCSR0C = 0, uart_line = []\<rparr>"

definition sample_start :: uart_sys where
  "sample_start = \<lparr>dev = uart0_init sample_usart 1 blank_uart, pc = Outside, log_got = []\<rparr>"

lemma sample_start_run: "uart_run sample_usart [] sample_start"
  unfolding sample_start_def by (rule uart_run.start) (simp_all add: blank_uart_def)

definition sample_heard :: uart_sys where
  "sample_heard = sample_start\<lparr>dev := UART0_RECEIVE_INTERRUPT sample_usart 0 65 (dev sample_start)\<rparr>"

lemma sample_heard_run: "uart_run sample_usart [RxArrive 65] sample_heard"
  using uart_run.step [OF sample_start_run uart_step.receive, of 65 0] by (simp add: sample_heard_def)

text \<open>C4. Whatever the order in which the receive and the transmit interrupt fall between the
  accesses of the main program, also into the middle of a read or a write of a byte: the
  bytes on the line, followed by those in the transmit buffer, are the bytes put. The bytes
  given out, followed by the one in hand and those in the receive buffer, are a subsequence of
  the bytes that arrived on the line, so none is duplicated, reordered or made up; and while
  there was room for each (at most 127 ahead of the reader, and no flush) they are all of them.
  When the main program waits for room, the transmit interrupt is enabled and its next run
  makes that room.
\<close>

theorem uart_interleaving:
  assumes "uart_run hw ls s" "UDRIE0 hw < 8"
  shows "uart_line (dev s) @ tx_queue (dev s) = puts ls \<and>
    subseq (log_got s @ in_hand s @ rx_queue (dev s)) (arrived ls) \<and>
    (had_room ls \<longrightarrow> log_got s @ in_hand s @ rx_queue (dev s) = arrived ls) \<and>
    (\<forall>d h. pc s = Putc_wait d h \<longrightarrow> h = ucast (UART_TxTail (dev s)) \<longrightarrow>
      UART0_CONTROL (dev s) AND BV (UDRIE0 hw) \<noteq> 0 \<and>
      h \<noteq> ucast (UART_TxTail (UART0_TRANSMIT_INTERRUPT hw (dev s))))"
proof -
  have inv: "uart_inv hw s" using assms by (rule uart_run_inv)
  then have ok: "uart_ok (dev s)" by (simp add: uart_inv_def)
  have "UART0_CONTROL (dev s) AND BV (UDRIE0 hw) \<noteq> 0 \<and>
      h \<noteq> ucast (UART_TxTail (UART0_TRANSMIT_INTERRUPT hw (dev s)))"
    if p: "pc s = Putc_wait d h" and full: "h = ucast (UART_TxTail (dev s))" for d h
  proof -
    have "unat h = unat (UART_TxTail (dev s))" using full by (simp add: slot_eq)
    then have "Suc (unat (UART_TxHead (dev s))) mod 128 = unat (UART_TxTail (dev s))"
      using inv p by (simp add: uart_inv_def)
    then have ne: "UART_TxHead (dev s) \<noteq> UART_TxTail (dev s)"
      using ok by (auto simp: uart_ok_def mod_Suc_cases split: if_splits)
    then have "tx_queue (dev s) \<noteq> []" by (simp add: tx_empty_iff [OF ok])
    moreover have "unat (UART_TxTail (UART0_TRANSMIT_INTERRUPT hw (dev s))) = Suc (unat (UART_TxTail (dev s))) mod 128"
      using ne by (simp add: UART0_TRANSMIT_INTERRUPT_def Let_def unat_slot next_slot)
    moreover have "Suc (unat (UART_TxTail (dev s))) mod 128 \<noteq> unat (UART_TxTail (dev s))"
      using ok by (auto simp: uart_ok_def mod_Suc_cases)
    ultimately show ?thesis using inv p ok full by (simp add: uart_inv_def slot_eq uart_ok_def)
  qed
  then show ?thesis using run_puts [OF assms] run_arrived [OF assms] run_room [OF assms]
    by (auto simp: link_of_def)
qed

theorem uart_interleaving_witness:
  "log_got sample_heard @ in_hand sample_heard @ rx_queue (dev sample_heard) = [65]"
  using uart_interleaving [OF sample_heard_run]
  by (simp add: sample_usart_def had_room_def arrived_def)

text \<open>C8. The uart implements two bounded queues: seen through the contents of the two buffers, each
  step of the interleaving does exactly what its label says. The receive interrupt appends the
  byte on the line, or drops it when 127 bytes wait; the transmit interrupt sends the oldest
  byte, if there is one; a byte is taken only when one is there, and it is the oldest; a byte is
  put only when fewer than 127 wait; a flush empties the receive queue; and every other access
  changes nothing. The count of uart0_available is the number of bytes in the receive queue.
\<close>

theorem uart_refines_queues:
  assumes "uart_run hw ls s" "uart_step hw s l s'" "UDRIE0 hw < 8"
  shows "link_may l (link_of s) \<and> link_of s' = link_do l (link_of s) \<and>
    unat (uart0_available (dev s)) = length (lk_rx (link_of s))"
  using uart_step_link [OF assms(2) uart_run_inv [OF assms(1,3)]] uart_run_inv [OF assms(1,3)]
  by (simp add: uart_inv_def available_queue) (simp add: link_of_def)

theorem uart_refines_queues_witness:
  "link_of (sample_start\<lparr>dev := UART0_RECEIVE_INTERRUPT sample_usart 0 65 (dev sample_start)\<rparr>) =
     link_do (RxArrive 65) (link_of sample_start)"
  using uart_refines_queues [OF sample_start_run uart_step.receive, of 65 0] by (simp add: sample_usart_def)

text \<open>C35. After the initialisation, polling gives the bytes of a burst in order, and of a burst of
  more than 127 bytes exactly the first 127: the later ones are lost, and the error byte says
  overflow. Up to 127 bytes put are transmitted in order.
\<close>

theorem uart_bursts:
  assumes "length (UART_RxBuf u) = 128" "length (UART_TxBuf u) = 128"
  shows "remove_all poll_serial (127 + n) (fold (UART0_RECEIVE_INTERRUPT hw usr) xs (uart0_init hw baud u)) = take 127 xs \<and>
    (length xs > 127 \<longrightarrow>
      UART_LastRxError (fold (UART0_RECEIVE_INTERRUPT hw usr) xs (uart0_init hw baud u)) = 2) \<and>
    (length xs \<le> 127 \<longrightarrow>
      remove_all (transmitted hw) (length xs) (fold (put_serial hw) xs (uart0_init hw baud u)) = xs)"
proof (intro conjI impI)
  let ?u = "uart0_init hw baud u"
  note init = init_queue [OF assms, of hw baud]
  show "remove_all poll_serial (127 + n) (fold (UART0_RECEIVE_INTERRUPT hw usr) xs ?u) = take 127 xs"
    using rx.burst [OF init(1,2)] by simp
  show "length xs \<le> 127 \<Longrightarrow> remove_all (transmitted hw) (length xs) (fold (put_serial hw) xs ?u) = xs"
    using tx.in_order [OF init(1,3)] by simp
  assume long: "length xs > 127"
  then obtain ys y where xs: "xs = ys @ [y]" by (cases xs rule: rev_cases) auto
  let ?v = "fold (UART0_RECEIVE_INTERRUPT hw usr) ys ?u"
  have "rx_queue ?v = take 127 ys" using rx.inserts_drop [OF init(1)] init(2) by simp
  then have "\<not> rx_stored ?v" using rx_stored_iff [OF rx.inserts_ok [OF init(1)]] long xs by simp
  then show "UART_LastRxError (fold (UART0_RECEIVE_INTERRUPT hw usr) xs ?u) = 2"
    by (simp add: xs UART0_RECEIVE_INTERRUPT_def rx_stored_def Let_def UART_BUFFER_OVERFLOW_def)
qed

theorem uart_bursts_witness:
  "remove_all poll_serial 130 (fold (UART0_RECEIVE_INTERRUPT sample_usart 0) [1, 2] (uart0_init sample_usart 1 blank_uart)) = [1, 2]"
  using uart_bursts [of blank_uart 3 sample_usart 0 "[1, 2]" 1] by (simp add: blank_uart_def)

lemma high_flag:
  assumes "8 \<le> k" "k < 16"
  shows "(push_bit k 1 + ucast (x :: uchar) :: ushort) AND push_bit k 1 \<noteq> 0"
    "8 \<le> j \<Longrightarrow> j \<noteq> k \<Longrightarrow> (push_bit k 1 + ucast x :: ushort) AND push_bit j 1 = 0"
proof -
  have "(push_bit k 1 :: ushort) AND ucast x = 0"
    using assms by (intro bit_word_eqI) (auto simp: bit_simps dest: bit_imp_le_length)
  then have w: "(push_bit k 1 + ucast x :: ushort) = push_bit k 1 OR ucast x" by (simp add: disjunctive_add_eq_or)
  have "bit ((push_bit k 1 + ucast x :: ushort) AND push_bit k 1) k"
    using assms unfolding w by (simp add: bit_simps)
  then show "(push_bit k 1 + ucast x :: ushort) AND push_bit k 1 \<noteq> 0" by (metis bit_0_eq bot_apply bot_bool_def)
  show "8 \<le> j \<Longrightarrow> j \<noteq> k \<Longrightarrow> (push_bit k 1 + ucast x :: ushort) AND push_bit j 1 = 0"
    unfolding w by (intro bit_word_eqI) (auto simp: bit_simps dest: bit_imp_le_length)
qed

lemma flag_bits:
  "(0x0800 + ucast (x :: uchar) :: ushort) AND UART_FRAME_ERROR \<noteq> 0"
  "(0x0800 + ucast (x :: uchar) :: ushort) AND UART_OVERRUN_ERROR = 0"
  using high_flag(1) [of 11 x] high_flag(2) [of 11 10 x] by (simp_all add: UART_FRAME_ERROR_def UART_OVERRUN_ERROR_def)

text \<open>With the status bits of the ATmega328P (frame error 4, data overrun 3), an overrun of the
  receiver is given out as the UART_FRAME_ERROR of uart.h and not as its UART_OVERRUN_ERROR.
\<close>

theorem uart_overrun_flag:
  assumes "FE0 hw = 4" "DOR0 hw = 3" "uart_ok u" "rx_queue u = []"
  shows "fst (uart0_getc (UART0_RECEIVE_INTERRUPT hw (BV (DOR0 hw)) x u)) AND UART_FRAME_ERROR \<noteq> 0 \<and>
    fst (uart0_getc (UART0_RECEIVE_INTERRUPT hw (BV (DOR0 hw)) x u)) AND UART_OVERRUN_ERROR = 0"
proof -
  let ?u = "UART0_RECEIVE_INTERRUPT hw (BV (DOR0 hw)) x u"
  have st: "rx_stored u" using assms(3,4) by (simp add: rx_stored_iff)
  have "UART_LastRxError ?u = 8"
    using st assms(1,2) by (simp add: UART0_RECEIVE_INTERRUPT_def rx_stored_def Let_def BV_def)
  moreover have "rx_queue ?u = [x]" using receive_queue(2) [OF assms(3), of hw "BV (DOR0 hw)" x] st assms(4) by simp
  ultimately have g: "fst (uart0_getc ?u) = 0x0800 + ucast x"
    by (subst getc_queue(1) [OF receive_queue(1) [OF assms(3)]]) simp
  show ?thesis unfolding g by (intro conjI flag_bits)
qed

theorem uart_overrun_flag_witness:
  "fst (uart0_getc (UART0_RECEIVE_INTERRUPT sample_usart (BV 3) 65 blank_uart)) AND UART_FRAME_ERROR \<noteq> 0"
  using uart_overrun_flag [of sample_usart blank_uart 65]
  by (simp add: sample_usart_def blank_uart_def uart_ok_def rx_queue_def)

end
