(* ===== verification/Serial_Link.thy ===== *)
theory Serial_Link
  imports Servant64_Laws Uart_Props Wire
begin

text \<open>
  The two ends of the serial line put together: what serial.c of the host writes, uart.c of the
  adapter receives, and xlink.c of the adapter puts on the data lines of the Commodore. The
  firmware relies on its serial line through the interface \<open>serial_line\<close>, which the ring buffer
  of uart.c provides.
\<close>

section \<open>The interface\<close>

definition at_line :: "('e \<Rightarrow> bool) \<Rightarrow> ('e \<Rightarrow> uchar list) \<Rightarrow> uchar list \<Rightarrow> 'e mcu \<Rightarrow> bool" where
  "at_line ok line bs m \<longleftrightarrow> ok (sv_env m) \<and> line (sv_env m) = bs"

lemma env_ticks [simp]: "sv_env ((TIMER1_OVF_vect ^^ n) m) = sv_env m"
  by (induction n) (auto simp: TIMER1_OVF_vect_def Let_def)

lemma read_bytes_face:
  "read_bytes p n m = Some (xs, m') \<Longrightarrow> sv_strobed m' = sv_strobed m \<and> sv_out m' = sv_out m"
proof (induction n arbitrary: m xs)
  case (Suc n)
  then obtain b m1 ys where "ReadSerial p m = Some (b, m1)" "read_bytes p n m1 = Some (ys, m')"
    by (auto simp: bind_iff)
  then show ?case using Suc.IH [of m1 ys] ReadSerial_in [of p m b m1] by simp
qed simp

text \<open>
  \<open>line\<close> is what the host has sent and the firmware has not read. Reading takes its first byte;
  looking at the pins and serving the timer leave it alone.
\<close>

locale serial_line =
  fixes p :: "'e board" and ok :: "'e \<Rightarrow> bool" and line :: "'e \<Rightarrow> uchar list"
  assumes rx_takes: "ok e \<Longrightarrow> uart_rx p e = Some (b, e') \<Longrightarrow> ok e' \<and> line e = b # line e'"
    and pins_quiet: "ok e \<Longrightarrow> ok (snd (PIND p e)) \<and> line (snd (PIND p e)) = line e"
    and timer_quiet: "ok e \<Longrightarrow> ok (snd (overflows p e)) \<and> line (snd (overflows p e)) = line e"
begin

lemma ReadSerial_line: "ReadSerial p m = Some (b, m') \<Longrightarrow> at_line ok line bs m \<Longrightarrow> \<exists>cs. bs = b # cs \<and> at_line ok line cs m'"
  using rx_takes [of "sv_env m" b] by (auto simp: ReadSerial_def at_line_def split: option.splits)

lemma read_bytes_line:
  "read_bytes p n m = Some (xs, m') \<Longrightarrow> at_line ok line bs m \<Longrightarrow> \<exists>cs. bs = xs @ cs \<and> length xs = n \<and> at_line ok line cs m'"
  by (induction n arbitrary: m bs xs) (fastforce simp: bind_iff dest: ReadSerial_line)+

lemma look_ack_line: "look_ack p m = (c, m') \<Longrightarrow> at_line ok line bs m \<Longrightarrow> at_line ok line bs m'"
  using pins_quiet [of "sv_env m"] timer_quiet [of "snd (PIND p (sv_env m))"]
  by (auto simp: look_ack_def interrupts_def look_def at_line_def)

lemma wait_ack_line: "wait_ack p t c m = Some (l, c', m') \<Longrightarrow> at_line ok line bs m \<Longrightarrow> at_line ok line bs m'"
  unfolding wait_ack_def by (rule poll_ack_invariant [of "at_line ok line bs"]) (auto dest: look_ack_line)

lemma send_loop_line:
  assumes "send_loop p t i n c m = Some (k, m')" "at_line ok line bs m"
  shows "\<exists>xs rest. sv_in m' = sv_in m @ xs \<and> bs = xs @ rest"
  using assms
proof (induction n arbitrary: i c m bs)
  case (Suc n)
  from Suc.prems(1) obtain b m1 late d m2 where r: "ReadSerial p m = Some (b, m1)"
    and w: "wait_ack p t c (ResetTimer (Strobe (Write b m1))) = Some (late, d, m2)"
    and rest: "if late then m' = m2\<lparr>sv_env := uart_flush_rx p (sv_env m2)\<rparr>
      else send_loop p t (i + 1) n d (m2\<lparr>sv_last := d\<rparr>) = Some (k, m')"
    by (auto simp: bind_iff Let_def split: if_splits)
  obtain cs where cs: "bs = b # cs" "at_line ok line cs m1" using ReadSerial_line [OF r Suc.prems(2)] by blast
  then have "at_line ok line cs (ResetTimer (Strobe (Write b m1)))"
    by (simp add: at_line_def ResetTimer_def Strobe_def Write_def Let_def)
  then have m2: "at_line ok line cs (m2\<lparr>sv_last := d\<rparr>)" using wait_ack_line [OF w] by (simp add: at_line_def)
  have "face m2 = face (Strobe (Write b m1))" using wait_ack_result [OF w] by (simp add: face_reset)
  then have i: "sv_in m2 = sv_in m @ [b]"
    using ReadSerial_in [OF r] by (simp add: face_def strobed_Strobe_Write)
  show ?case
  proof (cases late)
    case True
    then show ?thesis using rest i cs(1) by simp
  next
    case False
    with rest have "send_loop p t (i + 1) n d (m2\<lparr>sv_last := d\<rparr>) = Some (k, m')" by simp
    from Suc.IH [OF this m2] obtain xs rest' where "sv_in m' = sv_in m2 @ xs" "cs = xs @ rest'" by auto
    then show ?thesis using i cs(1) by simp
  qed
qed auto

lemma read_frame:
  assumes "read_bytes p 9 m = Some (f, m')" "at_line ok line (cmd_frame c n t @ data) m"
  shows "f = cmd_frame c n t \<and> at_line ok line data m'"
proof -
  obtain cs where "cmd_frame c n t @ data = f @ cs" "length f = 9" "at_line ok line cs m'"
    using read_bytes_line [OF assms] by blast
  then show ?thesis by (auto simp: cmd_frame_def append_eq_conv_conj length_Suc_conv numeral_eq_Suc)
qed

text \<open>One turn of the command loop, when the host has written a send command and its data.\<close>

lemma step_send:
  assumes "servant_step p m = Some m'" "at_line ok line (cmd_frame CMD_SEND n t @ data) m" "unat n = length data"
  shows "\<exists>k reply. k \<le> length data \<and> sv_strobed m' = sv_strobed m @ take k data \<and>
    sv_out m' = sv_out m @ reply \<and> length reply = 4 \<and> count_of reply = word_of_nat k \<and>
    (t = 0 \<longrightarrow> k = length data)"
proof -
  from assms(1) obtain f m1 where rd: "read_bytes p 9 m = Some (f, m1)"
    and c: "servant_command p (servant_decode f) m1 = Some m'" by (auto simp: servant_step_def bind_iff)
  have f: "f = cmd_frame CMD_SEND n t" and l: "at_line ok line data m1"
    using read_frame [OF rd assms(2)] by simp_all
  have face: "sv_strobed m1 = sv_strobed m" "sv_out m1 = sv_out m" using read_bytes_face [OF rd] by simp_all
  from c have "Send p n t m1 = Some m'"
    by (simp add: f servant_decode_frame servant_command_def cmd_defs)
  then obtain k m2 where s: "send_loop p t 0 (unat n) (sv_last m1) m1 = Some (k, m2)"
    and m': "m' = WriteCount (word_of_nat k) m2" by (auto simp: Send_def bind_iff)
  from send_loop_result [OF s] obtain bs where bs: "sv_in m2 = sv_in m1 @ bs"
    "sv_strobed m2 = sv_strobed m1 @ bs" "sv_out m2 = sv_out m1" "k = length bs" "length bs \<le> unat n"
    "t = 0 \<longrightarrow> length bs = unat n" by auto
  moreover from send_loop_line [OF s l] obtain xs rest where "sv_in m2 = sv_in m1 @ xs" "data = xs @ rest" by blast
  ultimately have "bs = take k data" by simp
  then show ?thesis using bs face assms(3)
    by - (rule exI [of _ k], rule exI [of _ "count_bytes k"],
      auto simp: m' sv_out_WriteCount count_of_count_bytes length_count_bytes)
qed

lemma step_receive:
  assumes "servant_step p m = Some m'" "at_line ok line (cmd_frame CMD_RECEIVE n t @ data) m"
  shows "\<exists>bs reply got. sv_out m' = sv_out m @ bs @ reply \<and> length bs = unat n \<and> length reply = 4 \<and>
    length (sv_strobed m') = length (sv_strobed m) + got \<and> got \<le> unat n \<and>
    drop got bs = replicate (unat n - got) 0xff \<and> count_of reply = word_of_nat (min (Suc got) (unat n))"
proof -
  from assms(1) obtain f m1 where rd: "read_bytes p 9 m = Some (f, m1)"
    and c: "servant_command p (servant_decode f) m1 = Some m'" by (auto simp: servant_step_def bind_iff)
  have "Receive p n t m1 = Some m'"
    using c read_frame [OF rd assms(2)] by (simp add: servant_decode_frame servant_command_def cmd_defs)
  then obtain k m2 where s: "receive_loop p t 0 (unat n) (sv_last m1) m1 = Some (k, m2)"
    and m': "m' = WriteCount (word_of_nat k) m2" by (auto simp: Receive_def bind_iff)
  from receive_loop_result [OF s] obtain ds ss where ds: "sv_out m2 = sv_out m1 @ ds"
    "sv_strobed m2 = sv_strobed m1 @ ss" "length ds = unat n" "k = min (Suc (length ss)) (unat n)"
    "length ss \<le> unat n" "drop (length ss) ds = replicate (unat n - length ss) 0xff" by auto
  then show ?thesis using read_bytes_face [OF rd]
    by - (rule exI [of _ ds], rule exI [of _ "count_bytes k"], rule exI [of _ "length ss"],
      auto simp: m' sv_out_WriteCount count_of_count_bytes length_count_bytes)
qed

end

section \<open>The ring buffer provides it\<close>

text \<open>
  The board with uart.c on its serial line: the receive buffer, the bytes still on their way, and
  the rest of the environment. Before each read one byte comes in, and n at each look at the pins,
  but only as many as there is room for. This is an assumption on the speed of the line: there is
  no flow control, and bytes that come when the buffer is full are lost, as stated in Uart_Props.
\<close>

definition arrive :: "usart \<Rightarrow> nat \<Rightarrow> uart0 \<Rightarrow> uchar list \<Rightarrow> uart0 \<times> uchar list" where
  "arrive hw n u l =
     (let k = min n (127 - length (rx_queue u))
      in (fold (UART0_RECEIVE_INTERRUPT hw 0) (take k l) u, drop k l))"

definition uart_board :: "usart \<Rightarrow> nat \<Rightarrow> 'x board \<Rightarrow> (uart0 \<times> uchar list \<times> 'x) board" where
  "uart_board hw n q = \<lparr>
     PINB = (\<lambda>(u, l, x). case PINB q x of (v, x) \<Rightarrow> (v, u, l, x)),
     PINC = (\<lambda>(u, l, x). case PINC q x of (v, x) \<Rightarrow> (v, u, l, x)),
     PIND = (\<lambda>(u, l, x). case PIND q x of (v, x) \<Rightarrow> case arrive hw n u l of (u, l) \<Rightarrow> (v, u, l, x)),
     uart_rx = (\<lambda>(u, l, x). case arrive hw 1 u l of (u, l) \<Rightarrow>
       map_option (\<lambda>(b, u). (b, u, l, x)) (poll_serial u)),
     uart_flush_rx = (\<lambda>(u, l, x). (uart0_flush u, l, x)),
     overflows = (\<lambda>(u, l, x). case overflows q x of (k, x) \<Rightarrow> (k, u, l, x)),
     delay = (\<lambda>(u, l, x). (u, l, delay q x))\<rparr>"

definition uart_env_ok :: "uart0 \<times> uchar list \<times> 'x \<Rightarrow> bool" where
  "uart_env_ok e = uart_ok (fst e)"

definition uart_env_line :: "uart0 \<times> uchar list \<times> 'x \<Rightarrow> uchar list" where
  "uart_env_line e = rx_queue (fst e) @ fst (snd e)"

lemma arrive_line:
  assumes "uart_ok u" "arrive hw n u l = (u', l')"
  shows "uart_ok u' \<and> rx_queue u' @ l' = rx_queue u @ l"
proof -
  define k where "k = min n (127 - length (rx_queue u))"
  have "length (rx_queue u) + length (take k l) \<le> 127"
    using rx.bounded [OF assms(1)] by (simp add: k_def)
  from rx.inserts_room [OF assms(1) this] rx.inserts_ok [OF assms(1)] show ?thesis
    using assms(2) by (auto simp: arrive_def Let_def simp flip: k_def)
qed

interpretation uart: serial_line "uart_board hw n q" uart_env_ok uart_env_line
proof
  fix e :: "uart0 \<times> uchar list \<times> 'a" and e' b
  assume ok: "uart_env_ok e"
  obtain u l x where e: "e = (u, l, x)" by (cases e)
  then have u: "uart_ok u" using ok by (simp add: uart_env_ok_def)
  obtain u1 l1 where a: "arrive hw 1 u l = (u1, l1)" by fastforce
  note a1 = arrive_line [OF u a]
  show "uart_env_ok e' \<and> uart_env_line e = b # uart_env_line e'" if "uart_rx (uart_board hw n q) e = Some (b, e')"
    using that a a1 rx.remove_some [of u1 b] by (auto simp: e uart_board_def uart_env_ok_def uart_env_line_def)
  obtain u2 l2 where a': "arrive hw n u l = (u2, l2)" by fastforce
  show "uart_env_ok (snd (PIND (uart_board hw n q) e)) \<and>
      uart_env_line (snd (PIND (uart_board hw n q) e)) = uart_env_line e"
    using a' arrive_line [OF u a'] by (auto simp: e uart_board_def uart_env_ok_def uart_env_line_def split: prod.splits)
  show "uart_env_ok (snd (overflows (uart_board hw n q) e)) \<and>
      uart_env_line (snd (overflows (uart_board hw n q) e)) = uart_env_line e"
    using u by (auto simp: e uart_board_def uart_env_ok_def uart_env_line_def split: prod.splits)
qed

section \<open>The host reads the answer\<close>

text \<open>
  The other direction, as the host sees it: \<open>inbox\<close> is what the adapter will answer, and a read
  of n bytes gives the next n of them.
\<close>

definition tty_stream :: "'w tty_os \<Rightarrow> ('w \<Rightarrow> uchar list) \<Rightarrow> bool" where
  "tty_stream tty inbox \<longleftrightarrow>
     (\<forall>fd n w. fst (tty_read tty fd n w) = Some (take n (inbox w)) \<and>
       inbox (snd (tty_read tty fd n w)) = drop n (inbox w)) \<and>
     (\<forall>fd bs w. inbox (tty_write tty fd bs w) = inbox w)"

lemma serial_read_stream:
  assumes "tty_stream (sy_tty sy) inbox" "n \<le> length (inbox (world s))" "serial_read sy n s = Some (c, s')"
  shows "c = take n (inbox (world s)) \<and> inbox (world s') = drop n (inbox (world s))"
proof -
  let ?s = "s\<lparr>lg := logger_debug ''Serial read %d bytes'' [Aint (int n)] (lg s)\<rparr>"
  let ?r = "tty_read (sy_tty sy) (drv_device ?s) n (world ?s)"
  have "fst ?r = Some (take n (inbox (world s)))" "inbox (snd ?r) = drop n (inbox (world s))"
    using assms(1) by (simp_all add: tty_stream_def)
  then have "serial_read_loop sy n [] ?s =
      Some (take n (inbox (world s)), if n = 0 then ?s else ?s\<lparr>world := snd ?r\<rparr>)"
    using assms(2) by (subst serial_read_loop.simps, subst serial_read_loop.simps) (simp add: ask_def)
  then show ?thesis using assms(3) \<open>inbox (snd ?r) = _\<close> by (auto simp: serial_read_def)
qed

lemma write_chunks_inbox:
  "tty_stream (sy_tty sy) inbox \<Longrightarrow> run_chunks (write_chunk sy) cs (xs, s) = Some (r, d, t) \<Longrightarrow>
     inbox (world t) = inbox (world s)"
proof (induction cs arbitrary: xs s)
  case (Cons c cs)
  then show ?case by (auto simp: write_chunk_def Let_def act_def tty_stream_def)
qed simp

lemma serial_write_inbox:
  "tty_stream (sy_tty sy) inbox \<Longrightarrow> serial_write sy bs s = Some t \<Longrightarrow> inbox (world t) = inbox (world s)"
  by (auto simp: serial_write_def chunked_run_chunks bind_iff dest!: write_chunks_inbox)

section \<open>Properties\<close>

text \<open>C2. End to end over the serial adapter: when the adapter reads through its ring buffer what a send
  of the host has written, none of it arriving while the buffer is full, and the host reads what
  the adapter answers, the bytes put on the data lines of the Commodore are a prefix of the data,
  in order, and the host reports success exactly when they are all of it.
\<close>

theorem serial_send_link:
  assumes "driver_send sy data s = Some (r, s')" "drv_backend s = BSerial" "length data < 2 ^ 32"
    "tty_stream (sy_tty sy) inbox"
    "servant_step (uart_board hw n q) m = Some m'" "uart_ok u" "rx_queue u = []"
    "sv_env m = (u, drop (length (tty_out (trace s))) (tty_out (trace s')), x)"
    "inbox (world s) = drop (length (sv_out m)) (sv_out m')"
  shows "\<exists>k \<le> length data. sv_strobed m' = sv_strobed m @ take k data \<and> (r \<longleftrightarrow> k = length data) \<and>
    (err_code s' = XLINK_SUCCESS \<longleftrightarrow> r)"
proof -
  have run: "driver_serial_send sy data s = Some (r, s')" using assms(1,2) by (simp add: driver_send_def)
  then obtain s1 s2 c s3 where a: "serial_write sy (cmd_frame CMD_SEND (word_of_nat (length data)) 2) s = Some s1"
    and b: "serial_write sy data s1 = Some s2" and c: "serial_read sy 4 s2 = Some (c, s3)" "trace s' = trace s3"
      "r \<longleftrightarrow> count_of c = word_of_nat (length data)"
    by (auto simp: driver_serial_send_def serial_cmd_def bind_iff Let_def SET_ERROR_def CLEAR_ERROR_IF_def
        split: if_splits)
  have "tty_out (trace s') = tty_out (trace s) @ cmd_frame CMD_SEND (word_of_nat (length data)) 2 @ data"
    using serial_write_out [OF a] serial_write_out [OF b] serial_read_out [OF c(1)] c(2) by simp
  then have "at_line uart_env_ok uart_env_line (cmd_frame CMD_SEND (word_of_nat (length data)) 2 @ data) m"
    using assms(6-8) by (simp add: at_line_def uart_env_ok_def uart_env_line_def)
  from uart.step_send [OF assms(5) this] assms(3) obtain k reply where k: "k \<le> length data"
    "sv_strobed m' = sv_strobed m @ take k data" "sv_out m' = sv_out m @ reply" "length reply = 4"
    "count_of reply = word_of_nat k" by (auto simp: unat_of_nat)
  have "inbox (world s2) = reply"
    using serial_write_inbox [OF assms(4) a] serial_write_inbox [OF assms(4) b] assms(9) k(3) by simp
  then have "c = reply" using serial_read_stream [OF assms(4) _ c(1)] k(4) by simp
  moreover have "(word_of_nat k :: uint) = word_of_nat (length data) \<longleftrightarrow> k = length data"
    using k(1) assms(3) by (auto simp: word_of_nat_eq_iff take_bit_nat_eq_self)
  ultimately have "r \<longleftrightarrow> k = length data" using c(3) k(5) by simp
  then show ?thesis using k(1,2) serial_transfer_result(1) [OF run] by blast
qed

text \<open>A Commodore that acknowledges every byte, and its adapter with an empty buffer.\<close>

definition eager_board :: "nat board" where
  "eager_board = \<lparr>PINB = (\<lambda>e. (0, e)), PINC = (\<lambda>e. (0, e)),
     PIND = (\<lambda>e. (if odd e then 0 else 0x08, e + 1)), uart_rx = (\<lambda>e. None), uart_flush_rx = (\<lambda>e. e),
     overflows = (\<lambda>e. (1, e)), delay = (\<lambda>e. e)\<rparr>"

definition link_mcu :: "uchar list \<Rightarrow> (uart0 \<times> uchar list \<times> nat) mcu" where
  "link_mcu l = \<lparr>PORTB = 0, PORTC = 0, PORTD = 0, DDRB = 0, DDRC = 0, DDRD = 0, sv_last = 0,
     sv_elapsed = 0, sv_qs = 0, sv_in = [], sv_out = [], sv_strobed = [], sv_env = (blank_uart, l, 0)\<rparr>"

lemma sample_tty_stream: "tty_stream (sy_tty sample_sys) (\<lambda>w. w)"
  by (simp add: tty_stream_def sample_sys_def)

lemma link_mcu_env: "sv_env (link_mcu l) = (blank_uart, l, 0)" "sv_out (link_mcu l) = []" "sv_strobed (link_mcu l) = []"
  by (simp_all add: link_mcu_def)

lemma blank_uart_ok: "uart_ok blank_uart" "rx_queue blank_uart = []"
  by (simp_all add: blank_uart_def uart_ok_def rx_queue_def)

theorem serial_send_link_witness:
  "map_option sv_strobed (servant_step (uart_board sample_usart 3 eager_board) (link_mcu [8, 2, 0, 0, 0, 2, 0, 0, 0, 7, 9]))
     = Some [7, 9]"
proof -
  let ?step = "servant_step (uart_board sample_usart 3 eager_board) (link_mcu [8, 2, 0, 0, 0, 2, 0, 0, 0, 7, 9])"
  let ?s = "sample_state BSerial [2, 0, 0, 0]"
  have "map_option sv_out ?step = Some [2, 0, 0, 0]" by code_simp
  then obtain m' where m': "?step = Some m'" "sv_out m' = [2, 0, 0, 0]" by auto
  have "map_option (\<lambda>(r, t). (r, drop (length (tty_out (trace ?s))) (tty_out (trace t)))) (driver_send sample_sys [7, 9] ?s)
      = Some (True, [8, 2, 0, 0, 0, 2, 0, 0, 0, 7, 9])" by code_simp
  then obtain s' where s': "driver_send sample_sys [7, 9] ?s = Some (True, s')"
    "drop (length (tty_out (trace ?s))) (tty_out (trace s')) = [8, 2, 0, 0, 0, 2, 0, 0, 0, 7, 9]" by auto
  have "drv_backend ?s = BSerial" "world ?s = [2, 0, 0, 0]" by (simp_all add: sample_state_def)
  then have "\<exists>k \<le> length [7, 9 :: uchar]. sv_strobed m' = [] @ take k [7, 9] \<and> (True \<longleftrightarrow> k = length [7, 9 :: uchar]) \<and>
      (err_code s' = XLINK_SUCCESS \<longleftrightarrow> True)"
    using serial_send_link [OF s'(1) _ _ sample_tty_stream m'(1) blank_uart_ok, of 0] s'(2) m'(2)
    by (simp add: link_mcu_env)
  then have "sv_strobed m' = [7, 9]" by auto
  then show ?thesis using m'(1) by simp
qed

text \<open>C11. In the other direction the host gets the bytes that the adapter sent, one for each byte
  asked for; those that the Commodore did not deliver in time are 255. The host reports success
  when all bytes but possibly the last were delivered: a timeout at the last byte goes unnoticed.
\<close>

theorem serial_receive_link:
  assumes "driver_receive sy n s = Some ((r, bs), s')" "drv_backend s = BSerial" "n < 2 ^ 32"
    "tty_stream (sy_tty sy) inbox"
    "servant_step (uart_board hw k q) m = Some m'" "uart_ok u" "rx_queue u = []"
    "sv_env m = (u, drop (length (tty_out (trace s))) (tty_out (trace s')), x)"
    "inbox (world s) = drop (length (sv_out m)) (sv_out m')"
  shows "\<exists>got \<le> n. length (sv_strobed m') = length (sv_strobed m) + got \<and>
    bs = take n (drop (length (sv_out m)) (sv_out m')) \<and> drop got bs = replicate (n - got) 0xff \<and>
    (r \<longleftrightarrow> n \<le> got + 1) \<and> (err_code s' = XLINK_SUCCESS \<longleftrightarrow> r)"
proof -
  have run: "driver_serial_receive sy n s = Some ((r, bs), s')" using assms(1,2) by (simp add: driver_receive_def)
  then obtain s1 s2 c s3 where a: "serial_write sy (cmd_frame CMD_RECEIVE (word_of_nat n) 2) s = Some s1"
    and b: "serial_read sy n s1 = Some (bs, s2)" and c: "serial_read sy 4 s2 = Some (c, s3)" "trace s' = trace s3"
      "r \<longleftrightarrow> count_of c = word_of_nat n"
    by (auto simp: driver_serial_receive_def serial_cmd_def bind_iff Let_def SET_ERROR_def CLEAR_ERROR_IF_def
        split: if_splits)
  have "tty_out (trace s') = tty_out (trace s) @ cmd_frame CMD_RECEIVE (word_of_nat n) 2"
    using serial_write_out [OF a] serial_read_out [OF b] serial_read_out [OF c(1)] c(2) by simp
  then have "at_line uart_env_ok uart_env_line (cmd_frame CMD_RECEIVE (word_of_nat n) 2 @ []) m"
    using assms(6-8) by (simp add: at_line_def uart_env_ok_def uart_env_line_def)
  from uart.step_receive [OF assms(5) this] assms(3) obtain ds reply got where k:
    "sv_out m' = sv_out m @ ds @ reply" "length ds = n" "length reply = 4"
    "length (sv_strobed m') = length (sv_strobed m) + got" "got \<le> n"
    "drop got ds = replicate (n - got) 0xff" "count_of reply = word_of_nat (min (Suc got) n)"
    by (auto simp: unat_of_nat)
  have i: "inbox (world s1) = ds @ reply" using serial_write_inbox [OF assms(4) a] assms(9) k(1) by simp
  then have bs: "bs = ds" "inbox (world s2) = reply" using serial_read_stream [OF assms(4) _ b] k(2) by simp_all
  then have "c = reply" using serial_read_stream [OF assms(4) _ c(1)] k(3) by simp
  moreover have "(word_of_nat (min (Suc got) n) :: uint) = word_of_nat n \<longleftrightarrow> min (Suc got) n = n"
    using assms(3) by (auto simp: word_of_nat_eq_iff take_bit_nat_eq_self)
  ultimately have "r \<longleftrightarrow> n \<le> got + 1" using c(3) k(7) by auto
  then show ?thesis using k bs serial_transfer_result(2) [OF run] by (intro exI [of _ got]) auto
qed

text \<open>The Commodore is silent: one byte is asked for, none delivered, and the host is content.\<close>

definition silent_board :: "nat board" where
  "silent_board = eager_board\<lparr>PIND := (\<lambda>e. (0, e))\<rparr>"

theorem serial_receive_link_witness:
  "\<exists>s'. driver_receive sample_sys 1 (sample_state BSerial [0xff, 1, 0, 0, 0]) = Some ((True, [0xff]), s') \<and>
     err_code s' = XLINK_SUCCESS"
proof -
  let ?step = "servant_step (uart_board sample_usart 3 silent_board) (link_mcu [9, 1, 0, 0, 0, 2, 0, 0, 0])"
  let ?s = "sample_state BSerial [0xff, 1, 0, 0, 0]"
  have "map_option sv_out ?step = Some [0xff, 1, 0, 0, 0]" by code_simp
  then obtain m' where m': "?step = Some m'" "sv_out m' = [0xff, 1, 0, 0, 0]" by auto
  have "map_option (\<lambda>(r, t). (r, drop (length (tty_out (trace ?s))) (tty_out (trace t)))) (driver_receive sample_sys 1 ?s)
      = Some ((True, [0xff]), [9, 1, 0, 0, 0, 2, 0, 0, 0])" by code_simp
  then obtain s' where s': "driver_receive sample_sys 1 ?s = Some ((True, [0xff]), s')"
    "drop (length (tty_out (trace ?s))) (tty_out (trace s')) = [9, 1, 0, 0, 0, 2, 0, 0, 0]" by auto
  have "drv_backend ?s = BSerial" "world ?s = [0xff, 1, 0, 0, 0]" by (simp_all add: sample_state_def)
  then have "err_code s' = XLINK_SUCCESS"
    using serial_receive_link [OF s'(1) _ _ sample_tty_stream m'(1) blank_uart_ok, of 0] s'(2) m'(2)
    by (auto simp: link_mcu_env)
  then show ?thesis using s'(1) by blast
qed

end
