(* ===== verification/At90usb162.thy ===== *)
theory At90usb162
  imports Protocol Ack_Poll
begin

text \<open>
  driver/at90usb162/xlink.c and descriptors.c: the firmware of the usb adapter, which takes the
  commands as vendor control requests. The endpoint functions of the vendored LUFA library and
  the pins are the environment \<open>'e\<close>: what they answer are the functions of the record
  \<open>usb_board\<close>, what the firmware does to the endpoint is the log \<open>at_usb\<close>. The eight data
  lines are port D. The three other logs are for the theorems only: the bytes read from the
  endpoint, the bytes on the data lines at each strobe, and the looks at the data lines and the
  strobes in the order in which they happen. The watchdog is not modelled.
\<close>

section \<open>Registers and endpoint\<close>

definition AT_PIN_RESET :: uchar where "AT_PIN_RESET = 0x20"
definition AT_PIN_STROBE :: uchar where "AT_PIN_STROBE = 0x04"
definition AT_PIN_ACK :: uchar where "AT_PIN_ACK = 0x04"
definition MAGIC_BOOT_KEY :: uint where "MAGIC_BOOT_KEY = 0xFEEDBABE"
definition FIXED_CONTROL_ENDPOINT_SIZE :: ushort where "FIXED_CONTROL_ENDPOINT_SIZE = 64"

datatype usb_act = ClearSETUP | ClearOUT | ClearIN | ClearStatusStage | Write_8 uchar | Disable

datatype line_act = Seen uchar | Pulsed

record 'e at90 =
  portB :: uchar
  portC :: uchar
  portD :: uchar
  ddrB :: uchar
  ddrC :: uchar
  ddrD :: uchar
  at_last :: uchar
  hs :: uint
  at_elapsed :: ushort
  Boot_Key :: uint
  at_usb :: "usb_act list"
  at_in :: "uchar list"
  at_strobed :: "uchar list"
  at_lines :: "line_act list"
  at_env :: 'e

record 'e usb_board =
  pinB :: "'e \<Rightarrow> uchar \<times> 'e"
  pinD :: "'e \<Rightarrow> uchar \<times> 'e"
  IsOUTReceived :: "'e \<Rightarrow> bool \<times> 'e"
  IsINReady :: "'e \<Rightarrow> bool \<times> 'e"
  BytesInEndpoint :: "'e \<Rightarrow> uchar \<times> 'e"
  Read_8 :: "'e \<Rightarrow> uchar \<times> 'e"
  usb_effect :: "usb_act \<Rightarrow> 'e \<Rightarrow> 'e"
  at_overflows :: "'e \<Rightarrow> nat \<times> 'e" \<comment> \<open>timer overflows since the last look\<close>
  Delay_MS :: "nat \<Rightarrow> 'e \<Rightarrow> 'e"

definition at_look :: "('e \<Rightarrow> 'a \<times> 'e) \<Rightarrow> 'e at90 \<Rightarrow> 'a \<times> 'e at90" where
  "at_look f m = (fst (f (at_env m)), m\<lparr>at_env := snd (f (at_env m))\<rparr>)"

text \<open>\<open>PIND\<close>: the byte on the data lines.\<close>

definition PIND :: "'e usb_board \<Rightarrow> 'e at90 \<Rightarrow> uchar \<times> 'e at90" where
  "PIND p m = (case at_look (pinD p) m of (d, m) \<Rightarrow> (d, m\<lparr>at_lines := at_lines m @ [Seen d]\<rparr>))"

definition Endpoint :: "'e usb_board \<Rightarrow> usb_act \<Rightarrow> 'e at90 \<Rightarrow> 'e at90" where
  "Endpoint p a m = m\<lparr>at_env := usb_effect p a (at_env m), at_usb := at_usb m @ [a]\<rparr>"

text \<open>\<open>while(!f());\<close>\<close>

partial_function (option) wait_until :: "('e \<Rightarrow> bool \<times> 'e) \<Rightarrow> 'e at90 \<Rightarrow> 'e at90 option" where
  "wait_until f m = (case at_look f m of (ready, m) \<Rightarrow> if ready then Some m else wait_until f m)"

declare wait_until.simps [code]

section \<open>Timer and port set-up\<close>

definition ResetTimer_at90 :: "'e at90 \<Rightarrow> 'e at90" where
  "ResetTimer_at90 m = m\<lparr>hs := 0, at_elapsed := 0\<rparr>"

definition TIMER1_OVF_vect_at90 :: "'e at90 \<Rightarrow> 'e at90" where
  "TIMER1_OVF_vect_at90 m = (let n = hs m + 1 in m\<lparr>hs := n, at_elapsed := ucast (n div 2)\<rparr>)"

definition at_interrupts :: "'e usb_board \<Rightarrow> 'e at90 \<Rightarrow> 'e at90" where
  "at_interrupts p m = (case at_look (at_overflows p) m of (n, m) \<Rightarrow> (TIMER1_OVF_vect_at90 ^^ n) m)"

definition SetupSTROBE_at90 :: "'e at90 \<Rightarrow> 'e at90" where
  "SetupSTROBE_at90 m = m\<lparr>ddrC := ddrC m OR AT_PIN_STROBE, portC := portC m OR AT_PIN_STROBE\<rparr>"

definition SetupACK_at90 :: "'e at90 \<Rightarrow> 'e at90" where
  "SetupACK_at90 m = m\<lparr>ddrB := ddrB m AND NOT AT_PIN_ACK, portB := portB m OR AT_PIN_ACK\<rparr>"

definition ReadACK_at90 :: "'e usb_board \<Rightarrow> 'e at90 \<Rightarrow> 'e at90" where
  "ReadACK_at90 p m = (case at_look (pinB p) m of (b, m) \<Rightarrow> m\<lparr>at_last := b AND AT_PIN_ACK\<rparr>)"

definition TristateRESET_at90 :: "'e at90 \<Rightarrow> 'e at90" where
  "TristateRESET_at90 m = m\<lparr>ddrC := ddrC m AND NOT AT_PIN_RESET, portC := portC m AND NOT AT_PIN_RESET\<rparr>"

definition AssertRESET_at90 :: "'e at90 \<Rightarrow> 'e at90" where
  "AssertRESET_at90 m = m\<lparr>ddrC := ddrC m OR AT_PIN_RESET, portC := portC m AND NOT AT_PIN_RESET\<rparr>"

text \<open>
  Every command acknowledges the setup packet first. \<open>Input\<close> is also called from
  \<open>SetupHardware\<close>, when there is none.
\<close>

definition Input_at90 :: "'e usb_board \<Rightarrow> 'e at90 \<Rightarrow> 'e at90" where
  "Input_at90 p m =
     (let m = (Endpoint p ClearSETUP m)\<lparr>ddrD := 0x00, portD := 0xff\<rparr>
      in Endpoint p ClearStatusStage (Endpoint p ClearOUT m))"

definition Output_at90 :: "'e usb_board \<Rightarrow> 'e at90 \<Rightarrow> 'e at90" where
  "Output_at90 p m =
     (let m = (Endpoint p ClearSETUP m)\<lparr>ddrD := 0xff\<rparr>
      in Endpoint p ClearStatusStage (Endpoint p ClearOUT m))"

definition SetupHardware_at90 :: "'e usb_board \<Rightarrow> 'e at90 \<Rightarrow> 'e at90" where
  "SetupHardware_at90 p m =
     Input_at90 p (ReadACK_at90 p (SetupACK_at90 (SetupSTROBE_at90 (TristateRESET_at90 (ResetTimer_at90 m)))))"

section \<open>The commands\<close>

definition Reset_at90 :: "'e usb_board \<Rightarrow> 'e at90 \<Rightarrow> 'e at90" where
  "Reset_at90 p m =
     (let m = AssertRESET_at90 (Endpoint p ClearSETUP m);
          m = TristateRESET_at90 (m\<lparr>at_env := Delay_MS p 10 (at_env m)\<rparr>)
      in Endpoint p ClearStatusStage (Endpoint p ClearOUT m))"

definition pulse :: "'e at90 \<Rightarrow> 'e at90" where
  "pulse m =
     (let m = m\<lparr>portC := portC m AND NOT AT_PIN_STROBE\<rparr>;
          m = m\<lparr>at_strobed := at_strobed m @ [portD m], at_lines := at_lines m @ [Pulsed]\<rparr>
      in m\<lparr>portC := portC m OR AT_PIN_STROBE\<rparr>)"

definition Strobe_at90 :: "'e usb_board \<Rightarrow> 'e at90 \<Rightarrow> 'e at90" where
  "Strobe_at90 p m =
     (let m = pulse (Endpoint p ClearSETUP m)
      in Endpoint p ClearStatusStage (Endpoint p ClearOUT m))"

definition Acked_at90 :: "'e usb_board \<Rightarrow> 'e at90 \<Rightarrow> 'e at90 option" where
  "Acked_at90 p m =
     (let m = Endpoint p ClearSETUP m;
          (b, m) = at_look (pinB p) m;
          current = b AND AT_PIN_ACK;
          (acked, m) = (if at_last m \<noteq> current then (1, m\<lparr>at_last := current\<rparr>) else (0, m))
      in do { m \<leftarrow> wait_until (IsINReady p) m;
              let m = Endpoint p ClearIN (Endpoint p (Write_8 acked) m);
              m \<leftarrow> wait_until (IsOUTReceived p) m;
              Some (Endpoint p ClearOUT m) })"

definition Write_at90 :: "'e usb_board \<Rightarrow> uchar \<Rightarrow> 'e at90 \<Rightarrow> 'e at90" where
  "Write_at90 p byte m =
     (let m = (Endpoint p ClearSETUP m)\<lparr>portD := byte\<rparr>
      in Endpoint p ClearStatusStage (Endpoint p ClearOUT m))"

definition Read_at90 :: "'e usb_board \<Rightarrow> 'e at90 \<Rightarrow> 'e at90" where
  "Read_at90 p m =
     (let (d, m) = PIND p (Endpoint p ClearSETUP m)
      in Endpoint p ClearStatusStage (Endpoint p ClearIN (Endpoint p (Write_8 d) m)))"

section \<open>Transfers\<close>

definition at_look_ack :: "'e usb_board \<Rightarrow> 'e at90 \<Rightarrow> uchar \<times> 'e at90" where
  "at_look_ack p m = (case at_look (pinB p) m of (b, m) \<Rightarrow> (b AND AT_PIN_ACK, at_interrupts p m))"

definition at_too_late :: "ushort \<Rightarrow> 'e at90 \<Rightarrow> bool" where
  "at_too_late timeout m \<longleftrightarrow> timeout > 0 \<and> at_elapsed m \<ge> timeout"

definition at_wait_ack :: "'e usb_board \<Rightarrow> ushort \<Rightarrow> uchar \<Rightarrow> 'e at90 \<Rightarrow> (bool \<times> uchar \<times> 'e at90) option" where
  "at_wait_ack p timeout = poll_ack (at_look_ack p) (at_too_late timeout) at_last"

text \<open>
  The bytes of one packet of \<open>Send\<close>, then the packets; the flag says that the transfer was
  abandoned, \<open>current\<close> is the variable of that name.
\<close>

fun send_packet :: "'e usb_board \<Rightarrow> ushort \<Rightarrow> nat \<Rightarrow> uchar \<Rightarrow> 'e at90 \<Rightarrow> (bool \<times> uchar \<times> 'e at90) option" where
  "send_packet p timeout 0 current m = Some (False, current, m)"
| "send_packet p timeout (Suc n) current m =
     (let (b, m) = at_look (Read_8 p) m;
          m = ResetTimer_at90 (pulse (m\<lparr>portD := b, at_in := at_in m @ [b]\<rparr>)) in
      do { (late, current, m) \<leftarrow> at_wait_ack p timeout current m;
           if late then Some (True, current, Endpoint p ClearIN m)
           else send_packet p timeout n current (m\<lparr>at_last := current\<rparr>) })"

partial_function (option) send_packets :: "'e usb_board \<Rightarrow> ushort \<Rightarrow> ushort \<Rightarrow> uchar \<Rightarrow> 'e at90 \<Rightarrow> 'e at90 option" where
  "send_packets p timeout bytesToSend current m =
     (if bytesToSend \<noteq> 0 then
        do { m \<leftarrow> wait_until (IsOUTReceived p) m;
             let (bytesInPacket, m) = at_look (BytesInEndpoint p) m;
             (late, current, m) \<leftarrow> send_packet p timeout (unat bytesInPacket) current m;
             if late then Some m
             else send_packets p timeout (bytesToSend - ucast bytesInPacket) current (Endpoint p ClearOUT m) }
      else Some m)"

declare send_packets.simps [code]

definition Send_at90 :: "'e usb_board \<Rightarrow> ushort \<Rightarrow> ushort \<Rightarrow> 'e at90 \<Rightarrow> 'e at90 option" where
  "Send_at90 p bytesToSend timeout m =
     (let current = at_last m; m = Endpoint p ClearSETUP m in
      do { m \<leftarrow> send_packets p timeout bytesToSend current m;
           m \<leftarrow> wait_until (IsINReady p) m;
           Some (Endpoint p ClearIN m) })"

fun receive_packet :: "'e usb_board \<Rightarrow> ushort \<Rightarrow> nat \<Rightarrow> uchar \<Rightarrow> 'e at90 \<Rightarrow> (bool \<times> uchar \<times> 'e at90) option" where
  "receive_packet p timeout 0 current m = Some (False, current, m)"
| "receive_packet p timeout (Suc n) current m =
     do { (late, current, m) \<leftarrow> at_wait_ack p timeout current (ResetTimer_at90 m);
          if late then Some (True, current, Endpoint p ClearIN m)
          else
            (let m = m\<lparr>at_last := current\<rparr>; (d, m) = PIND p m
             in receive_packet p timeout n current (pulse (Endpoint p (Write_8 d) m))) }"

definition packet_size :: "ushort \<Rightarrow> uchar" where
  "packet_size bytesToReceive =
     (if bytesToReceive \<ge> FIXED_CONTROL_ENDPOINT_SIZE then ucast FIXED_CONTROL_ENDPOINT_SIZE
      else ucast bytesToReceive)"

lemma unat_packet_size:
  "unat (packet_size n) = min 64 (unat n)" "unat (n - ucast (packet_size n)) = unat n - 64"
proof -
  have c: "n \<ge> FIXED_CONTROL_ENDPOINT_SIZE \<longleftrightarrow> 64 \<le> unat n"
    by (simp add: FIXED_CONTROL_ENDPOINT_SIZE_def word_le_nat_alt)
  show k: "unat (packet_size n) = min 64 (unat n)"
    using c by (auto simp: packet_size_def FIXED_CONTROL_ENDPOINT_SIZE_def unsigned_ucast_eq take_bit_nat_eq_self)
  have u: "unat (ucast (packet_size n) :: ushort) = min 64 (unat n)"
    using k by (simp add: unsigned_ucast_eq take_bit_nat_eq_self)
  then have "(ucast (packet_size n) :: ushort) \<le> n" by (simp add: word_le_nat_alt)
  then show "unat (n - ucast (packet_size n)) = unat n - 64" using u by (simp add: unat_sub)
qed

function receive_packets :: "'e usb_board \<Rightarrow> ushort \<Rightarrow> ushort \<Rightarrow> uchar \<Rightarrow> 'e at90 \<Rightarrow> 'e at90 option" where
  "receive_packets p timeout bytesToReceive current m =
     (if bytesToReceive \<noteq> 0 then
        do { m \<leftarrow> wait_until (IsINReady p) m;
             let bytesInPacket = packet_size bytesToReceive;
             (late, current, m) \<leftarrow> receive_packet p timeout (unat bytesInPacket) current m;
             if late then Some m
             else receive_packets p timeout (bytesToReceive - ucast bytesInPacket) current (Endpoint p ClearIN m) }
      else Some m)"
  by pat_completeness auto

termination
  by (relation "measure (\<lambda>(p, timeout, n, current, m). unat n)")
    (auto simp: unat_packet_size word_neq_0_conv word_less_nat_alt)

declare receive_packets.simps [simp del]

definition Receive_at90 :: "'e usb_board \<Rightarrow> ushort \<Rightarrow> ushort \<Rightarrow> 'e at90 \<Rightarrow> 'e at90 option" where
  "Receive_at90 p bytesToReceive timeout m =
     (let current = at_last m; m = Endpoint p ClearSETUP m in
      do { m \<leftarrow> receive_packets p timeout bytesToReceive current m;
           m \<leftarrow> wait_until (IsOUTReceived p) m;
           Some (Endpoint p ClearOUT m) })"

section \<open>Entering the boot loader\<close>

text \<open>
  \<open>Boot\<close> ends in an endless loop, out of which the watchdog resets the chip; its result is
  the memory at that reset. The key is not initialised at the start of the program.
\<close>

definition Boot :: "'e usb_board \<Rightarrow> 'e at90 \<Rightarrow> 'e at90" where
  "Boot p m =
     (let m = Endpoint p ClearStatusStage (Endpoint p ClearOUT (Endpoint p ClearSETUP m));
          m = Endpoint p Disable m
      in m\<lparr>at_env := Delay_MS p 2000 (at_env m), Boot_Key := MAGIC_BOOT_KEY\<rparr>)"

definition BootCheck :: "bool \<Rightarrow> 'e at90 \<Rightarrow> bool \<times> 'e at90" where
  "BootCheck watchdog_reset m =
     (if watchdog_reset \<and> Boot_Key m = MAGIC_BOOT_KEY then (True, m\<lparr>Boot_Key := 0\<rparr>) else (False, m))"

section \<open>The control request\<close>

record control_request =
  bmRequestType :: uchar
  bRequest :: uchar
  wValue :: ushort
  wIndex :: ushort
  wLength :: ushort

definition CONTROL_REQTYPE_TYPE :: uchar where "CONTROL_REQTYPE_TYPE = 0x60"
definition CONTROL_REQTYPE_RECIPIENT :: uchar where "CONTROL_REQTYPE_RECIPIENT = 0x1F"
definition REQTYPE_VENDOR :: uchar where "REQTYPE_VENDOR = push_bit 5 2"
definition REQREC_DEVICE :: uchar where "REQREC_DEVICE = push_bit 0 0"

definition EVENT_USB_Device_ControlRequest :: "'e usb_board \<Rightarrow> control_request \<Rightarrow> 'e at90 \<Rightarrow> 'e at90 option" where
  "EVENT_USB_Device_ControlRequest p r m =
     (if bmRequestType r AND CONTROL_REQTYPE_TYPE = REQTYPE_VENDOR \<and>
         bmRequestType r AND CONTROL_REQTYPE_RECIPIENT = REQREC_DEVICE then
        (let byte = (ucast (wValue r AND 0xff) :: uchar); timeout = wIndex r; len = wLength r;
             cmd = bRequest r in
         if cmd = CMD_RESET then Some (Reset_at90 p m)
         else if cmd = CMD_STROBE then Some (Strobe_at90 p m)
         else if cmd = CMD_ACKED then Acked_at90 p m
         else if cmd = CMD_INPUT then Some (Input_at90 p m)
         else if cmd = CMD_OUTPUT then Some (Output_at90 p m)
         else if cmd = CMD_READ then Some (Read_at90 p m)
         else if cmd = CMD_WRITE then Some (Write_at90 p byte m)
         else if cmd = CMD_SEND then Send_at90 p len timeout m
         else if cmd = CMD_RECEIVE then Receive_at90 p len timeout m
         else if cmd = CMD_BOOT then Some (Boot p m)
         else Some m)
      else Some m)"

section \<open>Descriptors\<close>

text \<open>
  descriptors.c. The strings are the wide literals that the macros STR and LSTR make; the
  serial number is a macro of the build. The descriptor types and the sizes of a header (2), a
  device descriptor (18), a configuration (9) and an interface descriptor (9) are those of LUFA.
\<close>

definition XLINK_MANUFACTURER :: string where
  "XLINK_MANUFACTURER = ''Henning Bekel <h.bekel@googlemail.com>''"

definition XLINK_PRODUCT :: string where
  "XLINK_PRODUCT = ''Xlink USB Adapter''"

definition USB_STRING_LEN :: "nat \<Rightarrow> nat" where
  "USB_STRING_LEN n = 2 + 2 * n"

definition STRING_ID_Language :: uchar where "STRING_ID_Language = 0"
definition STRING_ID_Manufacturer :: uchar where "STRING_ID_Manufacturer = 1"
definition STRING_ID_Product :: uchar where "STRING_ID_Product = 2"
definition STRING_ID_Serial :: uchar where "STRING_ID_Serial = 3"

record device_descriptor =
  Endpoint0Size :: nat
  VendorID :: int
  ProductID :: int
  ManufacturerStrIndex :: uchar
  ProductStrIndex :: uchar
  SerialNumStrIndex :: uchar
  NumberOfConfigurations :: nat

definition XLink_DeviceDescriptor :: device_descriptor where
  "XLink_DeviceDescriptor = \<lparr>Endpoint0Size = unat FIXED_CONTROL_ENDPOINT_SIZE, VendorID = 0x1d50,
     ProductID = 0x60c8, ManufacturerStrIndex = STRING_ID_Manufacturer, ProductStrIndex = STRING_ID_Product,
     SerialNumStrIndex = STRING_ID_Serial, NumberOfConfigurations = 1\<rparr>"

datatype descriptor = Device_Descriptor device_descriptor | Configuration_Descriptor | Language_String
  | Unicode_String string

definition USB_GetDescriptor :: "string \<Rightarrow> ushort \<Rightarrow> descriptor option \<times> nat" where
  "USB_GetDescriptor XLINK_SERIAL wValue' =
     (let DescriptorType = (ucast (drop_bit 8 wValue') :: uchar);
          DescriptorNumber = (ucast (wValue' AND 0xFF) :: uchar) in
      if DescriptorType = 1 then (Some (Device_Descriptor XLink_DeviceDescriptor), 18)
      else if DescriptorType = 2 then (Some Configuration_Descriptor, 9 + 9)
      else if DescriptorType = 3 then
        (if DescriptorNumber = STRING_ID_Language then (Some Language_String, USB_STRING_LEN 1)
         else if DescriptorNumber = STRING_ID_Manufacturer then
           (Some (Unicode_String XLINK_MANUFACTURER), USB_STRING_LEN (length XLINK_MANUFACTURER))
         else if DescriptorNumber = STRING_ID_Product then
           (Some (Unicode_String XLINK_PRODUCT), USB_STRING_LEN (length XLINK_PRODUCT))
         else if DescriptorNumber = STRING_ID_Serial then
           (Some (Unicode_String XLINK_SERIAL), USB_STRING_LEN (length XLINK_SERIAL))
         else (None, 0))
      else (None, 0))"

end
