(* ===== verification/At90_Laws.thy ===== *)
theory At90_Laws
  imports At90usb162 Usb
begin

text \<open>
  What the usb firmware does with the vendor requests of usb.c: the bytes and packets of Send
  and Receive, and that they end.
\<close>

section \<open>The waits\<close>

text \<open>What a wait leaves alone.\<close>

definition at_face :: "'e at90 \<Rightarrow> uchar \<times> uchar \<times> uchar \<times> uchar \<times> usb_act list \<times> uchar list \<times>
    uchar list \<times> line_act list" where
  "at_face m = (portB m, portC m, portD m, at_last m, at_usb m, at_in m, at_strobed m, at_lines m)"

lemma at_face_look: "at_look f m = (x, m') \<Longrightarrow> at_face m' = at_face m"
  by (auto simp: at_look_def at_face_def)

lemma at_face_reset: "at_face (ResetTimer_at90 m) = at_face m"
  by (simp add: ResetTimer_at90_def at_face_def)

lemma at_face_ticks: "at_face ((TIMER1_OVF_vect_at90 ^^ n) m) = at_face m"
  by (induction n) (auto simp: TIMER1_OVF_vect_at90_def Let_def at_face_def)

lemma at_face_interrupts: "at_face (at_interrupts p m) = at_face m"
  by (auto simp: at_interrupts_def at_face_ticks split: prod.splits dest: at_face_look)

lemma wait_until_face:
  assumes "wait_until f m = Some m'"
  shows "at_face m' = at_face m"
  by (rule wait_until.raw_induct [where P = "\<lambda>f m m'. at_face m' = at_face m", OF _ assms])
    (auto split: prod.splits if_splits dest!: at_face_look)

text \<open>The timer overflows again and again, as in the other firmware.\<close>

definition at_time_flows :: "'e usb_board \<Rightarrow> ('e \<Rightarrow> nat) \<Rightarrow> bool" where
  "at_time_flows p rank \<longleftrightarrow> (\<forall>e. rank (snd (pinB p e)) \<le> rank e \<and>
     (fst (at_overflows p e) = 1 \<or> fst (at_overflows p e) = 0 \<and> rank (snd (at_overflows p e)) < rank e))"

definition at_timer_ok :: "ushort \<Rightarrow> 'e at90 \<Rightarrow> bool" where
  "at_timer_ok t m \<longleftrightarrow> t > 0 \<and> at_elapsed m = ucast (hs m div 2) \<and> unat (hs m) < 2 * unat t"

lemma at_timer_ok_reset: "t > 0 \<Longrightarrow> at_timer_ok t (ResetTimer_at90 m)"
  by (auto simp: at_timer_ok_def ResetTimer_at90_def word_less_nat_alt)

lemma at_tick_ok:
  assumes "at_timer_ok t m" "\<not> at_too_late t (TIMER1_OVF_vect_at90 m)"
  shows "at_timer_ok t (TIMER1_OVF_vect_at90 m) \<and> unat (hs (TIMER1_OVF_vect_at90 m)) = Suc (unat (hs m))"
proof -
  have t: "unat t < 65536" using unsigned_less [of t] by simp
  then have u: "unat (ucast t :: uint) = unat t" by (simp add: unsigned_ucast_eq take_bit_nat_eq_self)
  have "\<not> unat t \<le> unat (ucast ((hs m + 1) div 2) :: ushort)"
    using assms by (simp add: at_timer_ok_def at_too_late_def TIMER1_OVF_vect_at90_def Let_def word_le_nat_alt)
  then show ?thesis using assms(1) t timer_tick [of "hs m" 2 "ucast t"]
    by (simp add: u at_timer_ok_def TIMER1_OVF_vect_at90_def Let_def)
qed

lemma at_look_ack_progress:
  assumes "at_time_flows p rank" "at_timer_ok t m" "at_look_ack p m = (c, m')" "\<not> at_too_late t m'"
  shows "at_timer_ok t m' \<and> (2 * unat t - unat (hs m') < 2 * unat t - unat (hs m) \<or>
    hs m' = hs m \<and> rank (at_env m') < rank (at_env m))"
proof -
  let ?e = "snd (pinB p (at_env m))"
  let ?m = "m\<lparr>at_env := snd (at_overflows p ?e)\<rparr>"
  have m': "m' = (TIMER1_OVF_vect_at90 ^^ fst (at_overflows p ?e)) ?m"
    using assms(3) by (auto simp: at_look_ack_def at_interrupts_def at_look_def)
  have ok: "at_timer_ok t ?m" using assms(2) by (simp add: at_timer_ok_def)
  have e: "rank ?e \<le> rank (at_env m)" using assms(1) by (simp add: at_time_flows_def)
  from assms(1) consider "fst (at_overflows p ?e) = 1"
    | "fst (at_overflows p ?e) = 0" "rank (snd (at_overflows p ?e)) < rank ?e"
    unfolding at_time_flows_def by (auto dest: spec [of _ ?e])
  then show ?thesis
  proof cases
    case 1
    then show ?thesis using m' at_tick_ok [OF ok] assms(2,4) by (auto simp: at_timer_ok_def)
  next
    case 2
    then show ?thesis using m' ok e by simp
  qed
qed

interpretation at_ack: timed_ack_poll "at_look_ack p" "at_too_late t" at_last at_face
  "\<lambda>m. at_time_flows p rank \<and> at_timer_ok t m" "\<lambda>m. (2 * unat t - unat (hs m), rank (at_env m))"
proof
  show "at_look_ack p m = (c, m') \<Longrightarrow> at_face m' = at_face m" for m m' c
    by (auto simp: at_look_ack_def at_face_interrupts split: prod.splits dest: at_face_look)
  show "at_face m' = at_face m \<Longrightarrow> at_last m' = at_last m" for m m' :: "'a at90" by (simp add: at_face_def)
  show "at_time_flows p rank \<and> at_timer_ok t m \<Longrightarrow> at_look_ack p m = (c, m') \<Longrightarrow> at_too_late t m' \<or>
      (at_time_flows p rank \<and> at_timer_ok t m') \<and>
      ((2 * unat t - unat (hs m'), rank (at_env m')), 2 * unat t - unat (hs m), rank (at_env m))
        \<in> {(x, y). x < y} <*lex*> {(x, y). x < y}" for m m' c
    using at_look_ack_progress [of p rank t m c m'] by auto
qed

lemma at_wait_ack_result:
  "at_wait_ack p t c m = Some (late, c', m') \<Longrightarrow>
     at_face m' = at_face m \<and> (late \<longrightarrow> t > 0) \<and> (\<not> late \<longrightarrow> c' \<noteq> at_last m)"
  using at_ack.result [of p t c m] by (auto simp: at_wait_ack_def at_too_late_def)

lemma at_wait_ack_returns:
  "at_time_flows p rank \<Longrightarrow> t > 0 \<Longrightarrow> \<exists>late c' m'. at_wait_ack p t c (ResetTimer_at90 m) = Some (late, c', m')"
  using at_ack.returns [of p rank t "ResetTimer_at90 m" c] at_timer_ok_reset [of t m]
  by (auto simp: at_wait_ack_def)

section \<open>Transfers\<close>

definition at_acts :: "'e at90 \<Rightarrow> usb_act list \<times> uchar list \<times> uchar list \<times> line_act list" where
  "at_acts m = (at_usb m, at_in m, at_strobed m, at_lines m)"

lemma face_acts: "at_face m' = at_face m \<Longrightarrow> at_acts m' = at_acts m"
  by (simp add: at_face_def at_acts_def)

lemma acts_simps [simp]:
  "at_acts (m\<lparr>at_last := c\<rparr>) = at_acts m"
  "at_acts (Endpoint p a m) = (at_usb m @ [a], at_in m, at_strobed m, at_lines m)"
  "at_acts (pulse m) = (at_usb m, at_in m, at_strobed m @ [portD m], at_lines m @ [Pulsed])"
  by (simp_all add: at_acts_def Endpoint_def pulse_def Let_def)

lemma PIND_acts: "PIND p m = (d, m') \<Longrightarrow> at_acts m' = (at_usb m, at_in m, at_strobed m, at_lines m @ [Seen d])"
  by (auto simp: PIND_def at_look_def at_acts_def)

lemma send_packet_result:
  assumes "send_packet p t n c m = Some (late, c', m')"
  shows "\<exists>bs. at_in m' = at_in m @ bs \<and> at_strobed m' = at_strobed m @ bs \<and> length bs \<le> n \<and>
    (if late then t > 0 \<and> at_usb m' = at_usb m @ [ClearIN] else length bs = n \<and> at_usb m' = at_usb m)"
  using assms
proof (induction n arbitrary: c m)
  case 0
  then show ?case by auto
next
  case (Suc n)
  obtain b m1 where b: "at_look (Read_8 p) m = (b, m1)" by fastforce
  let ?m = "pulse (m1\<lparr>portD := b, at_in := at_in m1 @ [b]\<rparr>)"
  from Suc.prems b obtain l c1 m2 where w: "at_wait_ack p t c (ResetTimer_at90 ?m) = Some (l, c1, m2)"
    and rest: "if l then late \<and> m' = Endpoint p ClearIN m2
      else send_packet p t n c1 (m2\<lparr>at_last := c1\<rparr>) = Some (late, c', m')"
    by (auto simp: bind_iff Let_def split: if_splits)
  have "at_face m2 = at_face ?m" using at_wait_ack_result [OF w] by (simp add: at_face_reset)
  then have "at_acts m2 = at_acts ?m" by (rule face_acts)
  moreover have "at_acts m1 = at_acts m" by (rule face_acts [OF at_face_look [OF b]])
  ultimately have m2: "at_usb m2 = at_usb m" "at_in m2 = at_in m @ [b]" "at_strobed m2 = at_strobed m @ [b]"
    by (simp_all add: at_acts_def pulse_def Let_def)
  show ?case
  proof (cases l)
    case True
    then show ?thesis using rest m2 at_wait_ack_result [OF w]
      by (intro exI [of _ "[b]"]) (auto simp: Endpoint_def)
  next
    case False
    with rest have "send_packet p t n c1 (m2\<lparr>at_last := c1\<rparr>) = Some (late, c', m')" by simp
    from Suc.IH [OF this] obtain bs where "at_in m' = at_in m2 @ bs" "at_strobed m' = at_strobed m2 @ bs"
      "length bs \<le> n" "if late then t > 0 \<and> at_usb m' = at_usb m2 @ [ClearIN] else length bs = n \<and> at_usb m' = at_usb m2"
      by auto
    with m2 show ?thesis by (intro exI [of _ "b # bs"]) auto
  qed
qed

lemma wait_until_acts: "wait_until f m = Some m' \<Longrightarrow> at_acts m' = at_acts m"
  by (rule face_acts [OF wait_until_face])

lemma look_acts: "at_look f m = (x, m') \<Longrightarrow> at_acts m' = at_acts m"
  by (rule face_acts [OF at_face_look])

definition sent_ok :: "ushort \<Rightarrow> ushort \<Rightarrow> 'e at90 \<Rightarrow> 'e at90 \<Rightarrow> bool" where
  "sent_ok t n m y \<longleftrightarrow> (\<exists>bs k. at_in y = at_in m @ bs \<and> at_strobed y = at_strobed m @ bs \<and>
     (at_usb y = at_usb m @ replicate k ClearOUT \<and> (word_of_nat (length bs) :: ushort) = n \<or>
      t > 0 \<and> at_usb y = at_usb m @ replicate k ClearOUT @ [ClearIN]))"

lemma sent_okI:
  "at_in y = at_in m @ bs \<Longrightarrow> at_strobed y = at_strobed m @ bs \<Longrightarrow>
    at_usb y = at_usb m @ replicate k ClearOUT \<and> (word_of_nat (length bs) :: ushort) = n \<or>
      t > 0 \<and> at_usb y = at_usb m @ replicate k ClearOUT @ [ClearIN] \<Longrightarrow> sent_ok t n m y"
  by (auto simp: sent_ok_def)

lemma sent_ok_step:
  assumes "sent_ok t (n - ucast (k :: uchar)) (Endpoint p ClearOUT m1) y"
    and "at_usb m1 = at_usb m" "at_in m1 = at_in m @ bs" "at_strobed m1 = at_strobed m @ bs" "length bs = unat k"
  shows "sent_ok t n m y"
proof -
  from assms(1) obtain cs j where cs: "at_in y = at_in m @ bs @ cs" "at_strobed y = at_strobed m @ bs @ cs"
    "at_usb y = at_usb m @ ClearOUT # replicate j ClearOUT \<and> (word_of_nat (length cs) :: ushort) = n - ucast k \<or>
      t > 0 \<and> at_usb y = at_usb m @ ClearOUT # replicate j ClearOUT @ [ClearIN]"
    using assms(2-4) by (auto simp: sent_ok_def Endpoint_def)
  have "(word_of_nat (unat k) :: ushort) = ucast k" by simp
  then have "(word_of_nat (length cs) :: ushort) = n - ucast k \<Longrightarrow> (word_of_nat (length (bs @ cs)) :: ushort) = n"
    using assms(5) by simp
  then show ?thesis using cs by (intro sent_okI [of y m "bs @ cs" "Suc j"]) auto
qed

lemma send_packets_result:
  assumes "send_packets p t n c m = Some y"
  shows "sent_ok t n m y"
proof (rule send_packets.raw_induct [where P = "\<lambda>p t n c m y. sent_ok t n m y", OF _ assms])
  fix go t n c y and p :: "'a usb_board" and m
  assume IH: "\<And>(p :: 'a usb_board) t n c m y. go p t n c m = Some y \<Longrightarrow> sent_ok t n m y"
    and run: "(if n \<noteq> 0 then
        do { m \<leftarrow> wait_until (IsOUTReceived p) m;
             let (k, m) = at_look (BytesInEndpoint p) m;
             (late, c, m) \<leftarrow> send_packet p t (unat k) c m;
             if late then Some m else go p t (n - ucast k) c (Endpoint p ClearOUT m) }
      else Some m) = Some y"
  show "sent_ok t n m y"
  proof (cases "n = 0")
    case True
    then show ?thesis using run sent_okI [of y m "[]" 0] by simp
  next
    case False
    with run obtain m1 where w: "wait_until (IsOUTReceived p) m = Some m1" by (auto simp: bind_iff)
    obtain k m2 where b: "at_look (BytesInEndpoint p) m1 = (k, m2)" by fastforce
    from run False w b obtain late c1 m3 where s: "send_packet p t (unat k) c m2 = Some (late, c1, m3)"
      and rest: "if late then y = m3 else go p t (n - ucast k) c1 (Endpoint p ClearOUT m3) = Some y"
      by (auto simp: bind_iff Let_def split: if_splits)
    have "at_acts m2 = at_acts m" using wait_until_acts [OF w] look_acts [OF b] by simp
    then have m2: "at_usb m2 = at_usb m" "at_in m2 = at_in m" "at_strobed m2 = at_strobed m" by (simp_all add: at_acts_def)
    from send_packet_result [OF s] obtain bs where bs: "at_in m3 = at_in m @ bs" "at_strobed m3 = at_strobed m @ bs"
      "if late then t > 0 \<and> at_usb m3 = at_usb m @ [ClearIN] else length bs = unat k \<and> at_usb m3 = at_usb m"
      using m2 by auto
    show ?thesis
    proof (cases late)
      case True
      then show ?thesis using rest bs sent_okI [of y m bs 0] by simp
    next
      case False
      then have "sent_ok t (n - ucast k) (Endpoint p ClearOUT m3) y" using rest IH by simp
      then show ?thesis using bs False by (intro sent_ok_step [of t n k p m3]) auto
    qed
  qed
qed

section \<open>Receive\<close>

text \<open>A byte is taken: it is on the data lines, then comes the strobe.\<close>

definition taken :: "uchar list \<Rightarrow> line_act list" where
  "taken ds = concat (map (\<lambda>d. [Seen d, Pulsed]) ds)"

lemma taken_simps [simp]: "taken [] = []" "taken (d # ds) = Seen d # Pulsed # taken ds" "taken (ds @ es) = taken ds @ taken es"
  by (simp_all add: taken_def)

definition packet :: "uchar list \<Rightarrow> usb_act list" where
  "packet ds = map Write_8 ds @ [ClearIN]"

lemma receive_packet_result:
  assumes "receive_packet p t n c m = Some (late, c', m')"
  shows "\<exists>ds ss. at_usb m' = at_usb m @ map Write_8 ds @ (if late then [ClearIN] else []) \<and>
    at_strobed m' = at_strobed m @ ss \<and> length ss = length ds \<and> at_in m' = at_in m \<and>
    at_lines m' = at_lines m @ taken ds \<and> (if late then t > 0 \<and> length ds < n else length ds = n)"
  using assms
proof (induction n arbitrary: c m)
  case 0
  then show ?case by auto
next
  case (Suc n)
  from Suc.prems obtain l c1 m1 where w: "at_wait_ack p t c (ResetTimer_at90 m) = Some (l, c1, m1)"
    and rest: "if l then late \<and> m' = Endpoint p ClearIN m1
      else (\<exists>d m2. PIND p (m1\<lparr>at_last := c1\<rparr>) = (d, m2) \<and>
        receive_packet p t n c1 (pulse (Endpoint p (Write_8 d) m2)) = Some (late, c', m'))"
    by (auto simp: bind_iff Let_def split: if_splits prod.splits)
  have "at_face m1 = at_face m" using at_wait_ack_result [OF w] by (simp add: at_face_reset)
  then have "at_acts m1 = at_acts m" by (rule face_acts)
  then have m1: "at_usb m1 = at_usb m" "at_in m1 = at_in m" "at_strobed m1 = at_strobed m" "at_lines m1 = at_lines m"
    by (simp_all add: at_acts_def)
  show ?case
  proof (cases l)
    case True
    then show ?thesis using rest m1 at_wait_ack_result [OF w]
      by (intro exI [of _ "[]"]) (auto simp: Endpoint_def)
  next
    case False
    with rest obtain d m2 where d: "PIND p (m1\<lparr>at_last := c1\<rparr>) = (d, m2)"
      and go: "receive_packet p t n c1 (pulse (Endpoint p (Write_8 d) m2)) = Some (late, c', m')" by auto
    obtain x where m3: "at_usb (pulse (Endpoint p (Write_8 d) m2)) = at_usb m @ [Write_8 d]"
      "at_strobed (pulse (Endpoint p (Write_8 d) m2)) = at_strobed m @ [x]"
      "at_in (pulse (Endpoint p (Write_8 d) m2)) = at_in m"
      "at_lines (pulse (Endpoint p (Write_8 d) m2)) = at_lines m @ [Seen d, Pulsed]"
      using PIND_acts [OF d] m1 by (auto simp: at_acts_def pulse_def Endpoint_def Let_def)
    from Suc.IH [OF go] obtain ds ss where
      "at_usb m' = at_usb m @ Write_8 d # map Write_8 ds @ (if late then [ClearIN] else [])"
      "at_strobed m' = at_strobed m @ x # ss" "length ss = length ds" "at_in m' = at_in m"
      "at_lines m' = at_lines m @ Seen d # Pulsed # taken ds"
      "if late then t > 0 \<and> length ds < n else length ds = n" using m3 by auto
    then show ?thesis by - (rule exI [of _ "d # ds"], rule exI [of _ "x # ss"], auto)
  qed
qed

definition received_ok :: "ushort \<Rightarrow> nat \<Rightarrow> 'e at90 \<Rightarrow> 'e at90 \<Rightarrow> bool" where
  "received_ok t n m y \<longleftrightarrow> (\<exists>pss ss. at_usb y = at_usb m @ concat (map packet pss) \<and> at_strobed y = at_strobed m @ ss \<and>
     at_lines y = at_lines m @ taken (concat pss) \<and> length ss = length (concat pss) \<and> list_all (\<lambda>ps. length ps \<le> 64) pss \<and>
     list_all (\<lambda>ps. length ps = 64) (butlast pss) \<and> (n = 0 \<longrightarrow> pss = []) \<and>
     (length (concat pss) = n \<or> t > 0 \<and> length (concat pss) < n))"

lemma received_okI:
  "at_usb y = at_usb m @ concat (map packet pss) \<Longrightarrow> at_strobed y = at_strobed m @ ss \<Longrightarrow>
     at_lines y = at_lines m @ taken (concat pss) \<Longrightarrow> length ss = length (concat pss) \<Longrightarrow> list_all (\<lambda>ps. length ps \<le> 64) pss \<Longrightarrow>
     list_all (\<lambda>ps. length ps = 64) (butlast pss) \<Longrightarrow> (n = 0 \<Longrightarrow> pss = []) \<Longrightarrow>
     length (concat pss) = n \<or> t > 0 \<and> length (concat pss) < n \<Longrightarrow> received_ok t n m y"
  by (auto simp: received_ok_def)

lemma received_ok_step:
  assumes "received_ok t (n - 64) (Endpoint p ClearIN m1) y" "0 < n"
    and "at_usb m1 = at_usb m @ map Write_8 ds" "at_strobed m1 = at_strobed m @ ss" "length ss = length ds"
    "at_lines m1 = at_lines m @ taken ds" "length ds = min 64 n"
  shows "received_ok t n m y"
proof -
  from assms(1) obtain pss ss' where r: "at_usb y = at_usb m @ packet ds @ concat (map packet pss)"
    "at_strobed y = at_strobed m @ ss @ ss'" "length ss' = length (concat pss)"
    "at_lines y = at_lines m @ taken ds @ taken (concat pss)" "list_all (\<lambda>ps. length ps \<le> 64) pss" "list_all (\<lambda>ps. length ps = 64) (butlast pss)"
    "n \<le> 64 \<Longrightarrow> pss = []" "length (concat pss) = n - 64 \<or> t > 0 \<and> length (concat pss) < n - 64"
    using assms(3,4,6) by (auto simp: received_ok_def Endpoint_def packet_def)
  then have "list_all (\<lambda>ps. length ps = 64) (butlast (ds # pss))" using assms(7) by (cases "n \<le> 64") auto
  then show ?thesis using r assms(2,5,7) by (intro received_okI [of y m "ds # pss" "ss @ ss'"]) auto
qed

lemma receive_packets_result:
  "receive_packets p t n c m = Some y \<Longrightarrow> received_ok t (unat n) m y \<and> at_in y = at_in m"
proof (induction p t n c m rule: receive_packets.induct)
  case (1 p t n c m)
  let ?k = "packet_size n"
  show ?case
  proof (cases "n = 0")
    case True
    then show ?thesis using "1.prems" received_okI [of y m "[]" "[]" 0 t] by (simp add: receive_packets.simps)
  next
    case False
    then obtain m1 late c1 m2 where w: "wait_until (IsINReady p) m = Some m1"
      and r: "receive_packet p t (unat ?k) c m1 = Some (late, c1, m2)"
      and rest: "if late then y = m2 else receive_packets p t (n - ucast ?k) c1 (Endpoint p ClearIN m2) = Some y"
      using "1.prems" by (subst (asm) receive_packets.simps) (auto simp: bind_iff Let_def split: if_splits)
    have m1: "at_usb m1 = at_usb m" "at_in m1 = at_in m" "at_strobed m1 = at_strobed m" "at_lines m1 = at_lines m"
      using wait_until_acts [OF w] by (simp_all add: at_acts_def)
    from receive_packet_result [OF r, unfolded unat_packet_size] obtain ds ss where d: "at_usb m2 = at_usb m @ map Write_8 ds @ (if late then [ClearIN] else [])"
      "at_strobed m2 = at_strobed m @ ss" "length ss = length ds" "at_in m2 = at_in m" "at_lines m2 = at_lines m @ taken ds"
      "if late then t > 0 \<and> length ds < min 64 (unat n) else length ds = min 64 (unat n)"
      using m1 by auto
    have pos: "0 < unat n" using False by (simp add: unat_gt_0)
    show ?thesis
    proof (cases late)
      case True
      then show ?thesis using rest d pos received_okI [of y m "[ds]" ss "unat n" t] by (auto simp: packet_def)
    next
      case late: False
      then have go: "receive_packets p t (n - ucast ?k) c1 (Endpoint p ClearIN m2) = Some y" using rest by simp
      have "received_ok t (unat n - 64) (Endpoint p ClearIN m2) y \<and> at_in y = at_in (Endpoint p ClearIN m2)"
        using "1.IH" [OF False w refl r refl refl late go] by (simp add: unat_packet_size)
      moreover have "received_ok t (unat n) m y"
        using calculation d late pos by (intro received_ok_step [of t "unat n" p m2 y m ds ss]) simp_all
      ultimately show ?thesis using d(4) by (simp add: Endpoint_def)
    qed
  qed
qed

section \<open>The requests\<close>

lemma Send_result:
  assumes "Send_at90 p n t m = Some m'"
  shows "\<exists>bs k. at_in m' = at_in m @ bs \<and> at_strobed m' = at_strobed m @ bs \<and>
    (at_usb m' = at_usb m @ ClearSETUP # replicate k ClearOUT @ [ClearIN] \<and>
       (word_of_nat (length bs) :: ushort) = n \<or>
     t > 0 \<and> at_usb m' = at_usb m @ ClearSETUP # replicate k ClearOUT @ [ClearIN, ClearIN])"
proof -
  from assms obtain m1 m2 where s: "send_packets p t n (at_last m) (Endpoint p ClearSETUP m) = Some m1"
    and w: "wait_until (IsINReady p) m1 = Some m2" and m': "m' = Endpoint p ClearIN m2"
    by (auto simp: Send_at90_def Let_def bind_iff)
  have "at_acts m2 = at_acts m1" using w by (rule wait_until_acts)
  then have "at_usb m' = at_usb m1 @ [ClearIN]" "at_in m' = at_in m1" "at_strobed m' = at_strobed m1"
    by (auto simp: m' at_acts_def Endpoint_def)
  moreover obtain bs k where "at_in m1 = at_in m @ bs" "at_strobed m1 = at_strobed m @ bs"
    "at_usb m1 = at_usb m @ ClearSETUP # replicate k ClearOUT \<and> (word_of_nat (length bs) :: ushort) = n \<or>
     t > 0 \<and> at_usb m1 = at_usb m @ ClearSETUP # replicate k ClearOUT @ [ClearIN]"
    using send_packets_result [OF s] by (auto simp: sent_ok_def Endpoint_def)
  ultimately show ?thesis by (intro exI [of _ bs] exI [of _ k]) auto
qed

lemma Receive_result:
  assumes "Receive_at90 p n t m = Some m'"
  shows "\<exists>pss ss. at_usb m' = at_usb m @ ClearSETUP # concat (map packet pss) @ [ClearOUT] \<and>
      at_strobed m' = at_strobed m @ ss \<and> length ss = length (concat pss) \<and>
      at_lines m' = at_lines m @ taken (concat pss) \<and>
      list_all (\<lambda>ps. length ps \<le> 64) pss \<and> list_all (\<lambda>ps. length ps = 64) (butlast pss) \<and>
      (length (concat pss) = unat n \<or> t > 0 \<and> length (concat pss) < unat n)"
proof -
  from assms obtain m1 m2 where r: "receive_packets p t n (at_last m) (Endpoint p ClearSETUP m) = Some m1"
    and w: "wait_until (IsOUTReceived p) m1 = Some m2" and m': "m' = Endpoint p ClearOUT m2"
    by (auto simp: Receive_at90_def Let_def bind_iff)
  have "at_acts m2 = at_acts m1" using w by (rule wait_until_acts)
  then have m1: "at_usb m' = at_usb m1 @ [ClearOUT]" "at_strobed m' = at_strobed m1" "at_lines m' = at_lines m1"
    by (auto simp: m' at_acts_def Endpoint_def)
  obtain pss ss where "at_usb m1 = at_usb m @ ClearSETUP # concat (map packet pss)" "at_strobed m1 = at_strobed m @ ss"
    "length ss = length (concat pss)" "at_lines m1 = at_lines m @ taken (concat pss)" "list_all (\<lambda>ps. length ps \<le> 64) pss"
    "list_all (\<lambda>ps. length ps = 64) (butlast pss)"
    "length (concat pss) = unat n \<or> t > 0 \<and> length (concat pss) < unat n"
    using receive_packets_result [OF r] by (auto simp: received_ok_def Endpoint_def)
  with m1 show ?thesis
    by - (rule exI [of _ pss], rule exI [of _ ss], auto)
qed

section \<open>The transfers end\<close>

lemma wait_until_returns: "(\<And>e. fst (f e)) \<Longrightarrow> \<exists>m'. wait_until f m = Some m'"
  by (subst wait_until.simps) (auto simp: at_look_def)

lemma receive_packet_returns:
  assumes "at_time_flows p rank" "t > 0"
  shows "\<exists>late c' m'. receive_packet p t n c m = Some (late, c', m')"
proof (induction n arbitrary: c m)
  case (Suc n)
  obtain late d m1 where w: "at_wait_ack p t c (ResetTimer_at90 m) = Some (late, d, m1)"
    using at_wait_ack_returns [OF assms] by blast
  then show ?case using Suc.IH by (cases late) (auto simp: Let_def split: prod.splits)
qed auto

lemma receive_packets_returns:
  assumes "at_time_flows p rank" "t > 0" and ready: "\<And>e. fst (IsINReady p e)"
  shows "\<exists>y. receive_packets p t n c m = Some y"
proof (induction "unat n" arbitrary: n c m rule: less_induct)
  case less
  show ?case
  proof (cases "n = 0")
    case False
    obtain m1 where w: "wait_until (IsINReady p) m = Some m1"
      using wait_until_returns [of "IsINReady p" m] ready by blast
    obtain late c1 m2 where r: "receive_packet p t (unat (packet_size n)) c m1 = Some (late, c1, m2)"
      using receive_packet_returns [OF assms(1,2)] by blast
    have "unat (n - ucast (packet_size n)) < unat n" using False by (simp add: unat_packet_size unat_gt_0)
    from less [OF this] show ?thesis
      using False w r by (subst receive_packets.simps) (cases late; simp add: Let_def)
  qed (simp add: receive_packets.simps)
qed

section \<open>Properties\<close>

definition sample_at90 :: "nat at90" where
  "sample_at90 = \<lparr>portB = 0, portC = 0x04, portD = 0, ddrB = 0, ddrC = 0x04, ddrD = 0xff, at_last = 0, hs = 0,
     at_elapsed = 0, Boot_Key = 0, at_usb = [], at_in = [], at_strobed = [], at_lines = [],
     at_env = 0\<rparr>"

text \<open>The host sends packets of two bytes; the acknowledge toggles with each byte read.\<close>

definition sample_usb_board :: "nat usb_board" where
  "sample_usb_board = \<lparr>pinB = (\<lambda>e. (if odd e then 0x04 else 0, e)), pinD = (\<lambda>e. (word_of_nat e, e + 1)),
     IsOUTReceived = (\<lambda>e. (True, e)), IsINReady = (\<lambda>e. (True, e)), BytesInEndpoint = (\<lambda>e. (2, e)),
     Read_8 = (\<lambda>e. (word_of_nat e, e + 1)), usb_effect = (\<lambda>a e. e), at_overflows = (\<lambda>e. (1, e)),
     Delay_MS = (\<lambda>n e. e)\<rparr>"

text \<open>The send request strobes exactly the bytes that it reads from the endpoint, in order,
  releases each packet, and closes the transfer with an empty packet; without a timeout the
  bytes are as many as the request announced (modulo the 16 bits of wLength), and only a
  request with a timeout can be abandoned.
\<close>

theorem at90_send_strobes:
  assumes "Send_at90 p n t m = Some m'"
  shows "\<exists>bs k. at_in m' = at_in m @ bs \<and> at_strobed m' = at_strobed m @ bs \<and>
    (at_usb m' = at_usb m @ ClearSETUP # replicate k ClearOUT @ [ClearIN] \<and>
       (word_of_nat (length bs) :: ushort) = n \<or>
     t > 0 \<and> at_usb m' = at_usb m @ ClearSETUP # replicate k ClearOUT @ [ClearIN, ClearIN])"
  using assms by (rule Send_result)

theorem at90_send_strobes_witness:
  "map_option at_strobed (Send_at90 sample_usb_board 4 2 sample_at90) = Some [0, 1, 2, 3] \<and>
   (\<exists>bs. map_option at_in (Send_at90 sample_usb_board 4 2 sample_at90) = Some bs \<and>
     map_option at_strobed (Send_at90 sample_usb_board 4 2 sample_at90) = Some bs)"
proof -
  have s: "map_option at_strobed (Send_at90 sample_usb_board 4 2 sample_at90) = Some [0, 1, 2, 3]" by code_simp
  then obtain m' where m': "Send_at90 sample_usb_board 4 2 sample_at90 = Some m'" by auto
  from at90_send_strobes [OF m'] have "at_in m' = at_strobed m'" by (auto simp: sample_at90_def)
  with s m' show ?thesis by simp
qed

text \<open>The receive request answers in packets of 64 bytes, the last of at most 64, one strobe for
  each byte; without a timeout the packets hold as many bytes as requested, and with one they
  may hold fewer. While the timer runs and the host takes its packets, a request with a timeout
  ends, whatever the Commodore does.
\<close>

theorem at90_receive_packets:
  shows "(\<forall>m'. Receive_at90 p n t m = Some m' \<longrightarrow>
      (\<exists>pss ss. at_usb m' = at_usb m @ ClearSETUP # concat (map packet pss) @ [ClearOUT] \<and>
        at_strobed m' = at_strobed m @ ss \<and> length ss = length (concat pss) \<and>
        list_all (\<lambda>ps. length ps \<le> 64) pss \<and> list_all (\<lambda>ps. length ps = 64) (butlast pss) \<and>
        (length (concat pss) = unat n \<or> t > 0 \<and> length (concat pss) < unat n))) \<and>
    (at_time_flows p rank \<and> t > 0 \<and> (\<forall>e. fst (IsINReady p e)) \<and> (\<forall>e. fst (IsOUTReceived p e)) \<longrightarrow>
      (\<exists>m'. Receive_at90 p n t m = Some m'))"
proof (intro conjI allI impI)
  fix m' assume "Receive_at90 p n t m = Some m'"
  then show "\<exists>pss ss. at_usb m' = at_usb m @ ClearSETUP # concat (map packet pss) @ [ClearOUT] \<and>
      at_strobed m' = at_strobed m @ ss \<and> length ss = length (concat pss) \<and>
      list_all (\<lambda>ps. length ps \<le> 64) pss \<and> list_all (\<lambda>ps. length ps = 64) (butlast pss) \<and>
      (length (concat pss) = unat n \<or> t > 0 \<and> length (concat pss) < unat n)"
    using Receive_result by blast
next
  assume a: "at_time_flows p rank \<and> t > 0 \<and> (\<forall>e. fst (IsINReady p e)) \<and> (\<forall>e. fst (IsOUTReceived p e))"
  then obtain m1 where r: "receive_packets p t n (at_last m) (Endpoint p ClearSETUP m) = Some m1"
    using receive_packets_returns [of p rank t n "at_last m" "Endpoint p ClearSETUP m"] by blast
  obtain m2 where "wait_until (IsOUTReceived p) m1 = Some m2"
    using wait_until_returns [of "IsOUTReceived p" m1] a by blast
  with r show "\<exists>m'. Receive_at90 p n t m = Some m'" by (auto simp: Receive_at90_def Let_def)
qed

theorem at90_receive_packets_witness:
  "\<exists>m' pss. Receive_at90 sample_usb_board 100 2 sample_at90 = Some m' \<and>
     at_usb m' = ClearSETUP # concat (map packet pss) @ [ClearOUT] \<and> list_all (\<lambda>ps. length ps \<le> 64) pss"
proof -
  have "at_time_flows sample_usb_board (\<lambda>e. 0)" by (simp add: at_time_flows_def sample_usb_board_def)
  then obtain m' where m': "Receive_at90 sample_usb_board 100 2 sample_at90 = Some m'"
    using at90_receive_packets [of sample_usb_board 100 2 sample_at90 "\<lambda>e. 0"]
    by (auto simp: sample_usb_board_def)
  with at90_receive_packets [of sample_usb_board 100 2 sample_at90 "\<lambda>e. 0"] show ?thesis
    by (fastforce simp: sample_at90_def)
qed

end
