(* ===== verification/Usb_Link.thy ===== *)
theory Usb_Link
  imports Wire At90_Laws
begin

text \<open>
  The usb path as a whole: the back end driver/usb.c, a control pipe, and the firmware of the
  adapter, driver/at90usb162/xlink.c. The pipe is libusb, the bus and the endpoint hardware.
\<close>

section \<open>The control pipe\<close>

text \<open>The setup packet of \<open>controlEndpoint\<close>: a vendor request to the device.\<close>

definition setup_packet :: "bool \<Rightarrow> int \<Rightarrow> int \<Rightarrow> int \<Rightarrow> int \<Rightarrow> control_request" where
  "setup_packet inward message value index len = \<lparr>bmRequestType = (if inward then 0xC0 else 0x40),
     bRequest = word_of_int message, wValue = word_of_int value, wIndex = word_of_int index,
     wLength = word_of_int len\<rparr>"

definition at_written :: "'e at90 \<Rightarrow> uchar list" where
  "at_written m = concat (map (\<lambda>a. case a of Write_8 b \<Rightarrow> [b] | _ \<Rightarrow> []) (at_usb m))"

text \<open>
  What a control transfer that libusb reports as completed means, for \<open>fw\<close> the adapter in the
  world of the host: the handler of the firmware has run on its setup packet, from pins and
  endpoint in any state. Inwards the host got what the handler wrote to the endpoint, and the
  result is how much that was. Outwards the handler read a prefix of what the host sent, and as
  the endpoint holds one packet, the result is at most a packet ahead of that.
\<close>

definition usb_pipe :: "'w sys \<Rightarrow> 'e usb_board \<Rightarrow> ('w \<Rightarrow> 'e at90) \<Rightarrow> bool" where
  "usb_pipe sy p fw \<longleftrightarrow>
     (\<forall>h inward msg v i bs n t w r ds w'.
        usb_control (sy_usb sy) h inward msg v i bs n t w = ((r, ds), w') \<longrightarrow> 0 \<le> r \<longrightarrow>
          (\<exists>e. EVENT_USB_Device_ControlRequest p (setup_packet inward msg v i n) ((fw w)\<lparr>at_env := e\<rparr>) = Some (fw w')) \<and>
          (if inward then at_written (fw w') = at_written (fw w) @ ds \<and> r = int (length ds)
           else \<exists>k \<le> length bs. at_in (fw w') = at_in (fw w) @ take k bs \<and> r \<le> int (k + 64)))"

lemma setup_packet_handler:
  "EVENT_USB_Device_ControlRequest p (setup_packet False (uint CMD_SEND) v i n) m =
     Send_at90 p (word_of_int n) (word_of_int i) m"
  "EVENT_USB_Device_ControlRequest p (setup_packet True (uint CMD_RECEIVE) v i n) m =
     Receive_at90 p (word_of_int n) (word_of_int i) m"
  by (simp_all add: EVENT_USB_Device_ControlRequest_def setup_packet_def Let_def CMD_RESET_def CMD_STROBE_def CMD_ACKED_def CMD_INPUT_def CMD_OUTPUT_def CMD_READ_def CMD_WRITE_def CMD_SEND_def CMD_RECEIVE_def CMD_BOOT_def
      CONTROL_REQTYPE_TYPE_def CONTROL_REQTYPE_RECIPIENT_def REQTYPE_VENDOR_def REQREC_DEVICE_def)


lemma usb_transfer_pipe:
  assumes "usb_pipe sy p fw" "usb_transfer sy inward msg v bs n s = Some ((r, ds), s')" "0 \<le> r"
  shows "\<exists>e. EVENT_USB_Device_ControlRequest p (setup_packet inward msg (v mod 2 ^ 16) (drv_timeout s mod 2 ^ 16) (n mod 2 ^ 16))
      ((fw (world s))\<lparr>at_env := e\<rparr>) = Some (fw (world s'))"
    "inward \<Longrightarrow> at_written (fw (world s')) = at_written (fw (world s)) @ ds \<and> r = int (length ds)"
    "\<not> inward \<Longrightarrow> \<exists>k \<le> length bs. at_in (fw (world s')) = at_in (fw (world s)) @ take k bs \<and> r \<le> int (k + 64)"
proof -
  from assms(2) obtain h where c: "usb_control (sy_usb sy) h inward msg (v mod 2 ^ 16) (drv_timeout s mod 2 ^ 16)
      bs (n mod 2 ^ 16) ((drv_timeout s + 1) * 1036) (world s) = ((r, ds), world s')"
    by (auto simp: usb_transfer_def case_prod_unfold Let_def world_defs prod_eq_iff split: option.splits)
  note pipe = assms(1) [unfolded usb_pipe_def, rule_format, OF c assms(3)]
  show "\<exists>e. EVENT_USB_Device_ControlRequest p (setup_packet inward msg (v mod 2 ^ 16) (drv_timeout s mod 2 ^ 16) (n mod 2 ^ 16))
      ((fw (world s))\<lparr>at_env := e\<rparr>) = Some (fw (world s'))" using pipe by blast
  show "inward \<Longrightarrow> at_written (fw (world s')) = at_written (fw (world s)) @ ds \<and> r = int (length ds)"
    "\<not> inward \<Longrightarrow> \<exists>k \<le> length bs. at_in (fw (world s')) = at_in (fw (world s)) @ take k bs \<and> r \<le> int (k + 64)"
    using pipe by auto
qed

section \<open>One chunk\<close>

text \<open>What a chunk that the host counts in full has done on the lines of the Commodore.\<close>

definition nearly :: "uchar list \<Rightarrow> uchar list \<Rightarrow> bool" where
  "nearly ps c \<longleftrightarrow> prefix ps c \<and> length c \<le> length ps + 64"

lemma at_written_packets:
  "at_usb m' = at_usb m @ ClearSETUP # concat (map packet pss) @ [ClearOUT] \<Longrightarrow>
     at_written m' = at_written m @ concat pss"
proof -
  let ?w = "\<lambda>a. case a of Write_8 b \<Rightarrow> [b] | _ \<Rightarrow> []"
  have "concat (map ?w (map Write_8 ds)) = ds" for ds :: "uchar list" by (induction ds) auto
  then have "concat (map ?w (concat (map packet pss))) = concat pss" for pss
    by (induction pss) (simp_all add: packet_def)
  then show "at_usb m' = at_usb m @ ClearSETUP # concat (map packet pss) @ [ClearOUT] \<Longrightarrow>
      at_written m' = at_written m @ concat pss"
    by (simp add: at_written_def)
qed

lemma send_request:
  assumes "Send_at90 p n t (m\<lparr>at_env := e\<rparr>) = Some m'" "at_in m' = at_in m @ bs" "length bs \<le> unat n"
  shows "at_strobed m' = at_strobed m @ bs \<and> (t = 0 \<longrightarrow> length bs = unat n)"
proof -
  have "(word_of_nat (length bs) :: ushort) = n \<Longrightarrow> length bs = unat n"
    using assms(3) unsigned_less [of n] by (auto simp: unat_of_nat)
  then show ?thesis using Send_result [OF assms(1)] assms(2) by auto
qed

lemma receive_request:
  assumes "Receive_at90 p n t (m\<lparr>at_env := e\<rparr>) = Some m'" "at_written m' = at_written m @ ds"
  shows "length ds \<le> unat n \<and> at_lines m' = at_lines m @ taken ds \<and>
    (\<exists>ss. at_strobed m' = at_strobed m @ ss \<and> length ss = length ds)"
proof -
  from Receive_result [OF assms(1)] obtain pss ss where
    "at_usb m' = at_usb m @ ClearSETUP # concat (map packet pss) @ [ClearOUT]"
    "at_strobed m' = at_strobed m @ ss" "length ss = length (concat pss)" "length (concat pss) \<le> unat n"
    "at_lines m' = at_lines m @ taken (concat pss)" by auto
  with at_written_packets [of m' m pss] assms(2) show ?thesis by auto
qed

lemma ushort_of_uint: "(word_of_int (uint (c :: ushort) mod 65536) :: ushort) = c"
  using uint_lt2p [of c] by (simp add: mod_pos_pos_trivial)

lemma send_chunk_link:
  assumes "usb_pipe sy p fw" "send_chunk sy c (t, s) = Some (True, t', s')" "unat c \<le> length (t_data t)"
  shows "t_data t' = drop (unat c) (t_data t) \<and> drv_timeout s' = drv_timeout s \<and>
    (\<exists>ps. at_strobed (fw (world s')) = at_strobed (fw (world s)) @ ps \<and> nearly ps (take (unat c) (t_data t)) \<and>
      (2 ^ 16 dvd drv_timeout s \<longrightarrow> ps = take (unat c) (t_data t)))"
proof -
  let ?c = "take (unat c) (t_data t)"
  have len: "length ?c = unat c" using assms(3) by simp
  from assms(2) obtain r ds where tr: "usb_transfer sy False (uint CMD_SEND) 0 ?c (int (length ?c)) s = Some ((r, ds), s')"
    and r: "uint c \<le> r" and t': "t_data t' = drop (unat c) (t_data t)"
    by (auto simp: send_chunk_def controlEndpointOut_def bind_iff split: if_splits)
  have "0 \<le> r" using r by (rule order_trans [rotated]) simp
  note pipe = usb_transfer_pipe [OF assms(1) tr this]
  obtain k where k: "k \<le> unat c" "at_in (fw (world s')) = at_in (fw (world s)) @ take k ?c" "r \<le> int (k + 64)"
    using pipe(3) len by auto
  obtain e where e: "Send_at90 p c (word_of_int (drv_timeout s mod 2 ^ 16)) ((fw (world s))\<lparr>at_env := e\<rparr>) = Some (fw (world s'))"
    using pipe(1) len by (auto simp: setup_packet_handler ushort_of_uint)
  have lk: "length (take k ?c) = k" using k(1) len by simp
  have st: "at_strobed (fw (world s')) = at_strobed (fw (world s)) @ take k ?c"
    "2 ^ 16 dvd drv_timeout s \<Longrightarrow> k = unat c"
    using send_request [OF e k(2)] k(1) unfolding lk by (simp_all add: dvd_eq_mod_eq_0)
  have "int (unat c) \<le> int (k + 64)" using r k(3) by simp
  then have "nearly (take k ?c) ?c" unfolding nearly_def lk len by (simp only: take_is_prefix of_nat_le_iff simp_thms)
  moreover have "drv_timeout s' = drv_timeout s"
    using send_chunk_core [OF assms(2)] by (simp add: core_defs)
  ultimately show ?thesis using t' st len by auto
qed

lemma receive_chunk_link:
  assumes "usb_pipe sy p fw" "receive_chunk sy c (t, s) = Some (True, t', s')"
  shows "\<exists>ds ss. t_data t' = t_data t @ ds \<and> length ds = unat c \<and> length ss = unat c \<and>
    at_written (fw (world s')) = at_written (fw (world s)) @ ds \<and>
    at_lines (fw (world s')) = at_lines (fw (world s)) @ taken ds \<and>
    at_strobed (fw (world s')) = at_strobed (fw (world s)) @ ss"
proof -
  from assms(2) obtain r ds where tr: "usb_transfer sy True (uint CMD_RECEIVE) 0 [] (uint c) s = Some ((r, ds), s')"
    and r: "uint c \<le> r" and t': "t_data t' = t_data t @ take (unat c) ds"
    by (auto simp: receive_chunk_def controlEndpointIn_def bind_iff Let_def split: if_splits)
  have "0 \<le> r" using r by (rule order_trans [rotated]) simp
  note pipe = usb_transfer_pipe [OF assms(1) tr this]
  have ds: "at_written (fw (world s')) = at_written (fw (world s)) @ ds" "r = int (length ds)" using pipe(2) by auto
  obtain e where "Receive_at90 p c (word_of_int (drv_timeout s mod 2 ^ 16)) ((fw (world s))\<lparr>at_env := e\<rparr>) = Some (fw (world s'))"
    using pipe(1) by (auto simp: setup_packet_handler ushort_of_uint)
  from receive_request [OF this ds(1)] obtain ss where ss: "length ds \<le> unat c" "length ss = length ds"
    "at_lines (fw (world s')) = at_lines (fw (world s)) @ taken ds"
    "at_strobed (fw (world s')) = at_strobed (fw (world s)) @ ss" by auto
  moreover have "int (unat c) \<le> int (length ds)" using r ds(2) by simp
  then have "unat c \<le> length ds" by (simp only: of_nat_le_iff)
  ultimately show ?thesis using ds t' by - (rule exI [of _ ds], rule exI [of _ ss], simp)
qed

section \<open>All chunks\<close>

lemma run_send_link:
  assumes "usb_pipe sy p fw"
  shows "run_chunks (send_chunk sy) cs (t, s) = Some (True, t', s') \<Longrightarrow> sum_list (map unat cs) \<le> length (t_data t) \<Longrightarrow>
    \<exists>pss. at_strobed (fw (world s')) = at_strobed (fw (world s)) @ concat pss \<and>
      list_all2 nearly pss (pieces cs (t_data t)) \<and> (2 ^ 16 dvd drv_timeout s \<longrightarrow> pss = pieces cs (t_data t))"
proof (induction cs arbitrary: t s)
  case (Cons c cs)
  then obtain t1 s1 where one: "send_chunk sy c (t, s) = Some (True, t1, s1)"
    and rest: "run_chunks (send_chunk sy) cs (t1, s1) = Some (True, t', s')"
    by (cases "send_chunk sy c (t, s)") (auto split: if_splits)
  from send_chunk_link [OF assms one] Cons.prems(2) obtain ps where
    ps: "t_data t1 = drop (unat c) (t_data t)" "drv_timeout s1 = drv_timeout s"
    "at_strobed (fw (world s1)) = at_strobed (fw (world s)) @ ps" "nearly ps (take (unat c) (t_data t))"
    "2 ^ 16 dvd drv_timeout s \<longrightarrow> ps = take (unat c) (t_data t)" by auto
  have "sum_list (map unat cs) \<le> length (t_data t1)" using ps(1) Cons.prems(2) by simp
  from Cons.IH [OF rest this] obtain pss where
    "at_strobed (fw (world s')) = at_strobed (fw (world s1)) @ concat pss"
    "list_all2 nearly pss (pieces cs (t_data t1))" "2 ^ 16 dvd drv_timeout s1 \<longrightarrow> pss = pieces cs (t_data t1)" by auto
  with ps show ?case by (intro exI [of _ "ps # pss"]) auto
qed simp

lemma run_receive_link:
  assumes "usb_pipe sy p fw"
  shows "run_chunks (receive_chunk sy) cs (t, s) = Some (True, t', s') \<Longrightarrow>
    \<exists>ds ss. t_data t' = t_data t @ ds \<and> length ds = sum_list (map unat cs) \<and> length ss = length ds \<and>
      at_written (fw (world s')) = at_written (fw (world s)) @ ds \<and>
      at_lines (fw (world s')) = at_lines (fw (world s)) @ taken ds \<and>
      at_strobed (fw (world s')) = at_strobed (fw (world s)) @ ss"
proof (induction cs arbitrary: t s)
  case (Cons c cs)
  then obtain t1 s1 where one: "receive_chunk sy c (t, s) = Some (True, t1, s1)"
    and rest: "run_chunks (receive_chunk sy) cs (t1, s1) = Some (True, t', s')"
    by (cases "receive_chunk sy c (t, s)") (auto split: if_splits)
  from receive_chunk_link [OF assms one] obtain ds ss where "t_data t1 = t_data t @ ds" "length ds = unat c"
    "at_lines (fw (world s1)) = at_lines (fw (world s)) @ taken ds" "length ss = unat c" "at_written (fw (world s1)) = at_written (fw (world s)) @ ds"
    "at_strobed (fw (world s1)) = at_strobed (fw (world s)) @ ss" by blast
  moreover from Cons.IH [OF rest] obtain ds' ss' where "t_data t' = t_data t1 @ ds'"
    "length ds' = sum_list (map unat cs)" "length ss' = length ds'"
    "at_lines (fw (world s')) = at_lines (fw (world s1)) @ taken ds'" "at_written (fw (world s')) = at_written (fw (world s1)) @ ds'"
    "at_strobed (fw (world s')) = at_strobed (fw (world s1)) @ ss'" by blast
  ultimately show ?case by - (rule exI [of _ "ds @ ds'"], rule exI [of _ "ss @ ss'"], simp)
qed simp

section \<open>A concrete adapter\<close>

text \<open>
  The adapter as the world of the host. Its environment is the phase of the acknowledge line,
  which the Commodore steps with each byte (\<open>d = 1\<close>) or leaves alone (\<open>d = 0\<close>), and the bytes that
  the host has still to send.
\<close>

definition adapter_board :: "nat \<Rightarrow> (nat \<times> uchar list) usb_board" where
  "adapter_board d = \<lparr>pinB = (\<lambda>e. (if odd (fst e) then 0x04 else 0, e)),
     pinD = (\<lambda>(a, l). (word_of_nat a, a + d, l)), IsOUTReceived = (\<lambda>e. (True, e)), IsINReady = (\<lambda>e. (True, e)),
     BytesInEndpoint = (\<lambda>(a, l). (word_of_nat (min 64 (length l)), a, l)),
     Read_8 = (\<lambda>(a, l). case l of [] \<Rightarrow> (0, a, []) | b # l \<Rightarrow> (b, a + d, l)), usb_effect = (\<lambda>a e. e),
     at_overflows = (\<lambda>e. (1, e)), Delay_MS = (\<lambda>n e. e)\<rparr>"

definition adapter_control :: "nat \<Rightarrow> bool \<Rightarrow> int \<Rightarrow> int \<Rightarrow> int \<Rightarrow> uchar list \<Rightarrow> int \<Rightarrow> (nat \<times> uchar list) at90
    \<Rightarrow> (int \<times> uchar list) \<times> (nat \<times> uchar list) at90" where
  "adapter_control d inward msg v i bs n m =
     (case EVENT_USB_Device_ControlRequest (adapter_board d) (setup_packet inward msg v i n) (m\<lparr>at_env := (fst (at_env m), bs)\<rparr>) of
        None \<Rightarrow> ((-7, []), m)
      | Some m' \<Rightarrow>
          (let ds = drop (length (at_written m)) (at_written m'); k = length (at_in m') - length (at_in m) in
           if inward \<and> at_written m' = at_written m @ ds then ((int (length ds), ds), m')
           else if \<not> inward \<and> k \<le> length bs \<and> at_in m' = at_in m @ take k bs \<and> length bs \<le> k + 64
           then ((int (length bs), []), m')
           else ((-7, []), m)))"

definition adapter_sys :: "nat \<Rightarrow> (nat \<times> uchar list) at90 sys" where
  "adapter_sys d =
     \<lparr>sy_os = \<lparr>os_now = \<lambda>w. ((0, 0), w), os_usleep = \<lambda>n w. w, os_getenv = \<lambda>v w. None,
        os_stat = \<lambda>p w. Some (True, 189), os_realpath = \<lambda>p w. Some p, os_strerror = \<lambda>w. ''error'',
        os_open = \<lambda>p w. (-1, w), os_close = \<lambda>fd w. w\<rparr>,
      sy_pp = \<lparr>pp_claim = \<lambda>fd w. (-1, w), pp_release = \<lambda>fd w. w, pp_setflags = \<lambda>fd w. w,
        pp_rstatus = \<lambda>fd w. (None, w), pp_wcontrol = \<lambda>fd c w. w, pp_fcontrol = \<lambda>fd m v w. w,
        pp_rdata = \<lambda>fd w. (None, w), pp_wdata = \<lambda>fd v w. w\<rparr>,
      sy_usb = \<lparr>usb_init = \<lambda>w. (0, w), usb_exit = \<lambda>w. w, usb_device_list = \<lambda>w. (Inr [7], w),
        usb_descriptor = \<lambda>d w. (Inr (0x1d50, 0x60c8, 0), w), usb_bus = \<lambda>d w. 1, usb_address = \<lambda>d w. 2,
        usb_open = \<lambda>d w. (Inr 5, w), usb_close = \<lambda>h w. w, usb_string = \<lambda>h i w. (Inr ''xlink'', w),
        usb_control = \<lambda>h inward msg v i bs n t w. adapter_control d inward msg v i bs n w\<rparr>,
      sy_tty = \<lparr>tty_setup = \<lambda>fd w. w, tty_read = \<lambda>fd n w. (None, w), tty_write = \<lambda>fd bs w. w\<rparr>,
      sy_shm = \<lparr>shm_attach = \<lambda>w. (False, w), shm_detach = \<lambda>w. w, shm_flag = \<lambda>w. 0, shm_set_flag = \<lambda>v w. w,
        shm_pa2 = \<lambda>w. (0, w), shm_data = \<lambda>w. 0, shm_set_data = \<lambda>v w. w, shm_id = \<lambda>w. ''0'', shm_kill = \<lambda>p w. w\<rparr>\<rparr>"

lemma adapter_pipe: "usb_pipe (adapter_sys d) (adapter_board d) (\<lambda>m. m)"
  by (auto simp: usb_pipe_def adapter_sys_def adapter_control_def Let_def split: option.splits if_splits)

definition adapter_state :: "(nat \<times> uchar list) at90 xlink" where
  "adapter_state =
     \<lparr>drv_path = ''/dev/xlink'', drv_device = 3, drv_timeout = 1, drv_state = STATE_IDLE,
      drv_backend = BUsb, err_code = 0, err_message = (''Success'', []), lg = logger_init,
      machine = c64, pp_last_status = 0, pp_initialized = False, usb_handle = Some 5,
      usb_response = 0, shm_initialized = False, shm_direction = STATE_OUTPUT, shm_last = 0,
      ser_initialized = False, trace = [],
      world = \<lparr>portB = 0, portC = 0x04, portD = 0, ddrB = 0, ddrC = 0x04, ddrD = 0xff, at_last = 0, hs = 0,
        at_elapsed = 0, Boot_Key = 0, at_usb = [], at_in = [], at_strobed = [], at_lines = [], at_env = (0, [])\<rparr>\<rparr>"

section \<open>Properties\<close>

text \<open>C12. End to end over the usb adapter: when a send of the host reports success, what the adapter has
  put on the data lines of the Commodore is, chunk by chunk, a prefix of the data that lacks at
  most one packet at its end; when the firmware is given no time limit, it is the data exactly.
\<close>

theorem usb_send_link:
  assumes "driver_send sy data s = Some (True, s')" "drv_backend s = BUsb" "data \<noteq> []" "length data < 2 ^ 32"
    "usb_pipe sy p fw"
  shows "\<exists>pss. at_strobed (fw (world s')) = at_strobed (fw (world s)) @ concat pss \<and>
    list_all2 nearly pss (pieces (chunk_sizes MAX_PAYLOAD_SIZE (length data)) data) \<and>
    (2 ^ 16 dvd drv_timeout s \<longrightarrow> concat pss = data)"
proof -
  let ?t = "\<lparr>t_data = data, t_completed = 0\<rparr> :: transfer" and ?cs = "chunk_sizes MAX_PAYLOAD_SIZE (length data)"
  have m: "MAX_PAYLOAD_SIZE \<noteq> 0" by (simp add: MAX_PAYLOAD_SIZE_def)
  from assms(1,2) obtain q t s1 where ch: "chunked (send_chunk sy) MAX_PAYLOAD_SIZE (int (length data)) (?t, s) = Some (q, t, s1)"
    and r: "t_completed t = word_of_nat (length data)" and w: "world s' = world s1"
    by (auto simp: driver_send_def driver_usb_send_def bind_iff Let_def SET_ERROR_def CLEAR_ERROR_IF_def split: if_splits)
  have "q" using us.chunked_counts [OF ch m] assms(3,4) r by simp
  then have "run_chunks (send_chunk sy) ?cs (?t, s) = Some (True, t, s1)" using ch chunked_run_chunks [OF m] by metis
  from run_send_link [OF assms(5) this] w show ?thesis
    by (auto simp: chunk_sizes_sum [OF m] concat_pieces)
qed

theorem usb_send_link_witness:
  "map_option (\<lambda>(r, s). (r, at_strobed (world s)))
     (driver_send (adapter_sys 1) [7, 8, 9] (adapter_state\<lparr>drv_timeout := 0\<rparr>)) = Some (True, [7, 8, 9])"
proof -
  let ?s = "adapter_state\<lparr>drv_timeout := 0\<rparr>"
  let ?run = "driver_send (adapter_sys 1) [7, 8, 9] ?s"
  have "map_option fst ?run = Some True" by code_simp
  then obtain s' where run: "?run = Some (True, s')" by auto
  have "at_strobed (world ?s) = []" "drv_backend ?s = BUsb" by (simp_all add: adapter_state_def)
  with usb_send_link [OF run _ _ _ adapter_pipe] have "at_strobed (world s') = [7, 8, 9]" by auto
  with run show ?thesis by simp
qed

text \<open>
  The packet that may be missing: the acknowledge never comes, the firmware gives up after the
  first of three bytes and closes the transfer, and the host reports that all three were sent.
\<close>

theorem usb_send_unnoticed:
  "map_option (\<lambda>(r, s). (r, err_code s = XLINK_SUCCESS, at_strobed (world s)))
     (driver_send (adapter_sys 0) [7, 8, 9] adapter_state) = Some (True, True, [7])"
  by code_simp

text \<open>C28. In the other direction a receive that reports success returns as many bytes as were asked for,
  and they are the bytes that the firmware saw on the data lines (its reads of PIND), in order,
  each followed by its strobe before the next was read, with no other look or strobe between;
  the adapter wrote just these to its endpoint. So, unlike over the serial adapter, a timeout
  never goes unnoticed.
\<close>

theorem usb_receive_link:
  assumes "driver_receive sy n s = Some ((True, bs), s')" "drv_backend s = BUsb" "0 < n" "n < 2 ^ 32"
    "usb_pipe sy p fw"
  shows "length bs = n \<and> at_lines (fw (world s')) = at_lines (fw (world s)) @ taken bs \<and>
    at_written (fw (world s')) = at_written (fw (world s)) @ bs \<and>
    (\<exists>ss. at_strobed (fw (world s')) = at_strobed (fw (world s)) @ ss \<and> length ss = n)"
proof -
  let ?t = "\<lparr>t_data = [], t_completed = 0\<rparr> :: transfer" and ?cs = "chunk_sizes MAX_PAYLOAD_SIZE n"
  have m: "MAX_PAYLOAD_SIZE \<noteq> 0" by (simp add: MAX_PAYLOAD_SIZE_def)
  from assms(1,2) obtain q t s1 where ch: "chunked (receive_chunk sy) MAX_PAYLOAD_SIZE (int n) (?t, s) = Some (q, t, s1)"
    and r: "t_completed t = word_of_nat n" "bs = t_data t" and w: "world s' = world s1"
    by (auto simp: driver_receive_def driver_usb_receive_def bind_iff Let_def SET_ERROR_def CLEAR_ERROR_IF_def split: if_splits)
  have "q" using ur.chunked_counts [OF ch m] assms(3,4) r by simp
  then have "run_chunks (receive_chunk sy) ?cs (?t, s) = Some (True, t, s1)" using ch chunked_run_chunks [OF m] by metis
  from run_receive_link [OF assms(5) this] w r(2) show ?thesis
    by (auto simp: chunk_sizes_sum [OF m])
qed

theorem usb_receive_link_witness:
  "map_option (\<lambda>((r, bs), s). (r, bs, at_lines (world s)))
     (driver_receive (adapter_sys 1) 3 (adapter_state\<lparr>world := (world adapter_state)\<lparr>at_last := 4\<rparr>\<rparr>)) =
   Some (True, [0, 1, 2], [Seen 0, Pulsed, Seen 1, Pulsed, Seen 2, Pulsed])"
proof -
  let ?s = "adapter_state\<lparr>world := (world adapter_state)\<lparr>at_last := 4\<rparr>\<rparr>"
  let ?run = "driver_receive (adapter_sys 1) 3 ?s"
  have bytes: "map_option fst ?run = Some (True, [0, 1, 2])" by code_simp
  then obtain s' where run: "?run = Some ((True, [0, 1, 2]), s')" by auto
  have "at_lines (world ?s) = []" "drv_backend ?s = BUsb" by (simp_all add: adapter_state_def)
  with usb_receive_link [OF run _ _ _ adapter_pipe] run show ?thesis by simp
qed

end
