(* ===== verification/Make_Server.thy ===== *)
theory Make_Server
  imports Clib Prelude
begin

text \<open>
  tools/make-server.c and the functions of the C file that it prints. The build assembles the
  Commodore side of the program for the addresses $0101, $0102 and $0201; the tool finds by
  comparison which bytes depend on the address, and prints a function that makes the program for
  any address. The three files begin with their own load address, two of those bytes.

  A file is its bytes, \<open>None\<close> when it cannot be opened. A read or write outside an array is
  \<open>None\<close>. What the tool prints is modelled twice: as text, and as what the printed functions
  compute.
\<close>

section \<open>The table\<close>

record address =
  delta :: ushort
  lsb :: ushort
  msb :: ushort

definition byte_pred :: "uchar \<Rightarrow> ushort" where
  "byte_pred b = ucast b - 1"

fun scan_low :: "uchar list \<Rightarrow> uchar list \<Rightarrow> nat \<Rightarrow> nat \<Rightarrow> address list \<Rightarrow> address list" where
  "scan_low base low i 0 table = table"
| "scan_low base low i (Suc n) table =
     scan_low base low (Suc i) n
       (if base ! i \<noteq> low ! i
        then table @ [\<lparr>delta = byte_pred (base ! i), lsb = word_of_nat i, msb = -1\<rparr>] else table)"

fun scan_high :: "uchar list \<Rightarrow> uchar list \<Rightarrow> nat \<Rightarrow> nat \<Rightarrow> nat \<Rightarrow> address list \<Rightarrow> address list option" where
  "scan_high base high i 0 index table = Some table"
| "scan_high base high i (Suc n) index table =
     (if base ! i \<noteq> high ! i then
        (if index < length table then
           (let addr = table ! index;
                addr = addr\<lparr>delta := push_bit 8 (byte_pred (base ! i)) OR delta addr, msb := word_of_nat i\<rparr>
            in scan_high base high (Suc i) n (Suc index) (table[index := addr]))
         else None)
      else scan_high base high (Suc i) n index table)"

definition make_table :: "uchar list \<Rightarrow> uchar list \<Rightarrow> uchar list \<Rightarrow> address list option" where
  "make_table base low high =
     scan_high base high 0 (length base) 0 (scan_low base low 0 (length base) [])"

section \<open>The printed functions\<close>

text \<open>The two assignments of a table entry; \<open>msb\<close> may be -1, or behind the end.\<close>

definition patch_entry :: "ushort \<Rightarrow> address \<Rightarrow> uchar list \<Rightarrow> uchar list option" where
  "patch_entry addr e result =
     (let dest = addr + delta e in
      if unat (lsb e) < length result \<and> unat (msb e) < length result then
        Some (result[unat (lsb e) := ucast (dest AND 0xff), unat (msb e) := ucast (drop_bit 8 dest)])
      else None)"

fun patch_entries :: "ushort \<Rightarrow> address list \<Rightarrow> uchar list \<Rightarrow> uchar list option" where
  "patch_entries addr [] result = Some result"
| "patch_entries addr (e # es) result =
     do { result \<leftarrow> patch_entry addr e result; patch_entries addr es result }"

text \<open>\<open>xlink_server_<name>\<close>; \<open>Inl ()\<close> is the error \<open>out of memory\<close>.\<close>

definition xlink_server_code :: "uchar list \<Rightarrow> address list \<Rightarrow> ushort \<Rightarrow> (unit + uchar list) option" where
  "xlink_server_code base table addr =
     (if unat addr + length base > 0x10000 then Some (Inl ())
      else do { result \<leftarrow> patch_entries addr table base; Some (Inr result) })"

text \<open>
  \<open>xlink_server_basic_<name>\<close>: a BASIC line that starts the program behind it. The line number
  field is written over by the decimal start address and its terminating zero.
\<close>

definition write_at :: "nat \<Rightarrow> uchar list \<Rightarrow> uchar list \<Rightarrow> uchar list option" where
  "write_at i bs xs = (if i + length bs \<le> length xs then Some (take i xs @ bs @ drop (i + length bs) xs) else None)"

definition xlink_server_basic_code :: "uchar list \<Rightarrow> address list \<Rightarrow> uchar list \<Rightarrow> ushort \<Rightarrow> uchar list option" where
  "xlink_server_basic_code base table loader basic_start =
     do { loader \<leftarrow> write_at 0 [lo (ucast basic_start), hi (ucast basic_start)] loader;
          loader \<leftarrow> write_at 7 (map of_char (show_dec (uint basic_start + 0x10)) @ [0]) loader;
          code \<leftarrow> xlink_server_code base table (word_of_int (0x4000 - int (length base) + 2));
          case code of Inl _ \<Rightarrow> None | Inr code \<Rightarrow> Some (loader @ drop 2 code) }"

section \<open>The tool\<close>

definition show_nat :: "nat \<Rightarrow> string" where
  "show_nat n = show_dec (int n)"

definition print_entry :: "address \<Rightarrow> string" where
  "print_entry e =
     ''dest = address+'' @ show_nat (unat (delta e)) @ '';\<newline>result['' @ show_nat (unat (lsb e)) @
     ''] = (unsigned char) (dest & 0xff);\<newline>result['' @ show_nat (unat (msb e)) @
     ''] = (unsigned char) (dest >> 8);\<newline>''"

definition print_bytes :: "uchar list \<Rightarrow> string" where
  "print_bytes bs = concat (map (\<lambda>b. show_nat (unat b) @ '','') bs)"

definition print_basic :: "string \<Rightarrow> uchar list \<Rightarrow> nat \<Rightarrow> string" where
  "print_basic name loader n =
     ''unsigned char* xlink_server_basic_'' @ name @ ''(int *size) {\<newline>unsigned char loader['' @
     show_nat (length loader) @ ''] = {'' @ print_bytes loader @
     ''};\<newline>loader[0] = lo(machine->default_basic_start);\<newline>loader[1] = hi(machine->default_basic_start);\<newline>'' @
     ''sprintf((char*)loader+7, \"%d\", machine->default_basic_start+0x10);\<newline>'' @
     ''unsigned char* code = xlink_server_'' @ name @ ''(0x4000-'' @ show_nat n @ ''+2, size);\<newline>'' @
     ''unsigned char* result = (unsigned char*) calloc((*size)+'' @ show_nat (length loader) @
     ''-2, sizeof(unsigned char));\<newline>for(int i=0; i<'' @ show_nat (length loader) @
     ''; i++) { result[i] = loader[i]; }\<newline>for(int i=0; i<(*size)-2; i++) { result[i+'' @
     show_nat (length loader) @ ''] = code[i+2]; }\<newline>free(code);\<newline>(*size) = (*size) + '' @
     show_nat (length loader) @ '' -2;\<newline>return result;\<newline>}\<newline>''"

definition print_server :: "string \<Rightarrow> uchar list \<Rightarrow> address list \<Rightarrow> string" where
  "print_server name base table =
     ''unsigned char* xlink_server_'' @ name @ ''(unsigned short address, int *size) {\<newline>(*size) = '' @
     show_nat (length base) @ '';\<newline>if(address+'' @ show_nat (length base) @ '' > 0x10000) {\<newline>'' @
     ''   SET_ERROR(XLINK_ERROR_SERVER, \"Can't create server: out of memory\");\<newline>   return NULL;\<newline>}\<newline>'' @
     ''unsigned char code['' @ show_nat (length base) @ ''] = { '' @ print_bytes base @ '' };\<newline>'' @
     ''unsigned char* result = (unsigned char*) calloc('' @ show_nat (length base) @
     '', sizeof(unsigned char));\<newline>unsigned short dest;\<newline>for(int i=0; i<'' @ show_nat (length base) @
     ''; i++) { result[i] = code[i]; };\<newline>'' @ concat (map print_entry table) @
     ''return result;\<newline>}\<newline>''"

definition print_header :: "string \<Rightarrow> string" where
  "print_header name =
     ''#include <stdlib.h>\<newline>#include \"xlink.h\"\<newline>#include \"machine.h\"\<newline>#include \"error.h\"\<newline>'' @
     ''unsigned char* xlink_server_'' @ name @ ''(unsigned short address, int *size);\<newline>'' @
     ''unsigned char* xlink_server_basic_'' @ name @ ''(int *size);\<newline>''"

text \<open>
  \<open>main\<close> with the words behind the program name: the text on the standard output, \<open>Inl\<close> the
  failure. The test of the number of arguments allows four, with which \<open>argv[4]\<close> is a null
  pointer.
\<close>

definition make_server :: "(string \<Rightarrow> uchar list option) \<Rightarrow> string list \<Rightarrow> (unit + string) option" where
  "make_server files args =
     (if length args < 4 then Some (Inl ())
      else
        (case files (args ! 1) of None \<Rightarrow> Some (Inl ()) | Some base \<Rightarrow>
        (case files (args ! 2) of None \<Rightarrow> Some (Inl ()) | Some low \<Rightarrow>
        (case files (args ! 3) of None \<Rightarrow> Some (Inl ()) | Some high \<Rightarrow>
          if length args = 4 then None
          else
        (case files (args ! 4) of None \<Rightarrow> Some (Inl ()) | Some loader \<Rightarrow>
          if length base \<noteq> length low \<or> length base \<noteq> length high then Some (Inl ())
          else
            do { table \<leftarrow> make_table base low high;
                 Some (Inr (print_header (args ! 0) @ print_basic (args ! 0) loader (length base) @
                   print_server (args ! 0) base table)) })))))"

end
