(* ===== verification/Make_Server_Laws.thy ===== *)
theory Make_Server_Laws
  imports Make_Server
begin

text \<open>
  What make-server.c gets right: programs all of whose references to themselves stay clear of a
  carry. And what it gets wrong: the other ones.
\<close>


section \<open>Programs that can be relocated\<close>

definition low_byte :: "ushort \<Rightarrow> uchar" where
  "low_byte w = ucast (w AND 0xff)"

definition high_byte :: "ushort \<Rightarrow> uchar" where
  "high_byte w = ucast (drop_bit 8 w)"

text \<open>
  A program: its bytes, and the references (l, h, d) to the address d behind its start, with the
  low byte at l and the high byte at h.
\<close>

type_synonym reference = "nat \<times> nat \<times> ushort"

definition set_reference :: "ushort \<Rightarrow> reference \<Rightarrow> uchar list \<Rightarrow> uchar list" where
  "set_reference a r bs = (case r of (l, h, d) \<Rightarrow> bs[l := low_byte (a + d), h := high_byte (a + d)])"

definition assembled :: "uchar list \<Rightarrow> reference list \<Rightarrow> ushort \<Rightarrow> uchar list" where
  "assembled code refs a = fold (set_reference a) refs code"

definition relocatable :: "uchar list \<Rightarrow> reference list \<Rightarrow> bool" where
  "relocatable code refs \<longleftrightarrow> length code \<le> 0x10000 \<and>
     sorted_wrt (<) (map fst refs) \<and> sorted_wrt (<) (map (fst \<circ> snd) refs) \<and>
     list_all (\<lambda>(l, h, d). l < length code \<and> h < length code \<and> unat d mod 256 < 254) refs \<and>
     list_all (\<lambda>(l, h, d). list_all (\<lambda>(l', h', d'). l \<noteq> h') refs) refs"

definition slots :: "reference list \<Rightarrow> nat set" where
  "slots refs = fst ` set refs \<union> (fst \<circ> snd) ` set refs"

lemma length_assembled [simp]: "length (assembled code refs a) = length code"
  by (induction refs arbitrary: code) (auto simp: assembled_def set_reference_def split: prod.splits)

lemma assembled_Nil [simp]: "assembled code [] a = code"
  by (simp add: assembled_def)

lemma assembled_Cons [simp]: "assembled code (r # refs) a = assembled (set_reference a r code) refs a"
  by (simp add: assembled_def)

lemma slots_simps [simp]: "slots [] = {}" "slots ((l, h, d) # refs) = {l, h} \<union> slots refs"
  by (auto simp: slots_def)

lemma assembled_other: "i \<notin> slots refs \<Longrightarrow> assembled code refs a ! i = code ! i"
  by (induction refs arbitrary: code) (auto simp: set_reference_def split: prod.splits)

text \<open>What the code held at the references does not matter.\<close>

lemma assembled_cong:
  assumes "length xs = length ys" "\<And>i. i < length xs \<Longrightarrow> i \<notin> slots refs \<Longrightarrow> xs ! i = ys ! i"
  shows "assembled xs refs a = assembled ys refs a"
  using assms
proof (induction refs arbitrary: xs ys)
  case Nil
  then show ?case by (simp add: nth_equalityI)
next
  case (Cons r refs)
  obtain l h d where r: "r = (l, h, d)" by (cases r)
  show ?case unfolding assembled_Cons
  proof (rule Cons.IH)
    show "length (set_reference a r xs) = length (set_reference a r ys)"
      using Cons.prems(1) by (simp add: r set_reference_def)
    show "set_reference a r xs ! i = set_reference a r ys ! i"
      if "i < length (set_reference a r xs)" "i \<notin> slots refs" for i
    proof -
      have "i < length xs" "i < length ys" using that(1) Cons.prems(1) by (simp_all add: r set_reference_def)
      then show ?thesis
        using that(2) Cons.prems(2) [of i] by (cases "i = h"; cases "i = l") (simp_all add: r set_reference_def)
    qed
  qed
qed

lemma assembled_again: "assembled (assembled code refs a) refs b = assembled code refs b"
  by (rule assembled_cong) (simp_all add: assembled_other)

lemma assembled_at:
  assumes "distinct (map fst refs)" "distinct (map (fst \<circ> snd) refs)"
    "\<And>l h d l' h' d'. (l, h, d) \<in> set refs \<Longrightarrow> (l', h', d') \<in> set refs \<Longrightarrow> l \<noteq> h'"
    "(l, h, d) \<in> set refs" "l < length code" "h < length code"
  shows "assembled code refs a ! l = low_byte (a + d)" "assembled code refs a ! h = high_byte (a + d)"
proof -
  have "assembled code refs a ! l = low_byte (a + d) \<and> assembled code refs a ! h = high_byte (a + d)"
    using assms
  proof (induction refs arbitrary: code)
    case (Cons r refs)
    show ?case
    proof (cases "r = (l, h, d)")
      case True
      have "l \<noteq> h" using Cons.prems(3) [of l h d l h d] True by simp
      moreover have "l \<notin> fst ` set refs" "h \<notin> (fst \<circ> snd) ` set refs"
        using Cons.prems(1,2) True by simp_all
      moreover have "l \<notin> (fst \<circ> snd) ` set refs"
      proof
        assume "l \<in> (fst \<circ> snd) ` set refs"
        then obtain l' d' where "(l', l, d') \<in> set refs" by auto
        then show False using Cons.prems(3) [of l h d l' l d'] True by simp
      qed
      moreover have "h \<notin> fst ` set refs"
      proof
        assume "h \<in> fst ` set refs"
        then obtain h' d' where "(h, h', d') \<in> set refs" by auto
        then show False using Cons.prems(3) [of h h' d' l h d] True by simp
      qed
      ultimately have "l \<noteq> h" "l \<notin> slots refs" "h \<notin> slots refs" by (auto simp: slots_def)
      then show ?thesis using Cons.prems(5,6)
        by (simp add: True assembled_other) (simp add: set_reference_def)
    next
      case False
      then have "(l, h, d) \<in> set refs" using Cons.prems(4) by auto
      moreover have "length (set_reference a r code) = length code" by (cases r) (simp add: set_reference_def)
      ultimately show ?thesis
        unfolding assembled_Cons using Cons.prems(1,2,5,6)
        by (intro Cons.IH) (auto intro: Cons.prems(3) [THEN notE] simp: Cons.prems(3))
    qed
  qed simp
  then show "assembled code refs a ! l = low_byte (a + d)" "assembled code refs a ! h = high_byte (a + d)" by auto
qed

section \<open>The bytes of a reference\<close>

lemma unat_low_byte: "unat (low_byte w) = unat w mod 256"
proof -
  have "(0xff :: ushort) = mask 8" by (simp add: mask_eq_exp_minus_1)
  then have "low_byte w = ucast (take_bit 8 w)" by (simp add: low_byte_def take_bit_eq_mask)
  then show ?thesis by (simp add: unsigned_ucast_eq unsigned_take_bit_eq) (simp add: take_bit_eq_mod)
qed

lemma unat_high_byte: "unat (high_byte w) = unat w div 256"
proof -
  have "unat w < 65536" using unsigned_less [of w] by simp
  then have "unat w div 256 < 256" by (simp add: div_less_iff_less_mult)
  then show ?thesis
    by (simp add: high_byte_def unsigned_ucast_eq unsigned_drop_bit_eq drop_bit_eq_div take_bit_eq_mod unat_div)
qed

lemma mod_div_256: "(x :: nat) mod 65536 mod 256 = x mod 256" "(x :: nat) mod 65536 div 256 = x div 256 mod 256"
proof -
  show "x mod 65536 mod 256 = x mod 256" by (rule mod_mod_cancel) simp
  have "x mod (256 * 256) = 256 * (x div 256 mod 256) + x mod 256" by (rule mod_mult2_eq)
  then show "x mod 65536 div 256 = x div 256 mod 256" by simp
qed

lemma unat_offset: "unat (k + d :: ushort) = (unat k + unat d) mod 65536"
  by (simp add: unat_word_ariths)

lemma split_256:
  fixes q r :: nat
  assumes "r < 254"
  shows "(0x0101 + (256 * q + r)) mod 256 = r + 1" "(0x0102 + (256 * q + r)) mod 256 = r + 2"
    "(0x0201 + (256 * q + r)) mod 256 = r + 1" "(0x0101 + (256 * q + r)) div 256 = q + 1"
    "(0x0102 + (256 * q + r)) div 256 = q + 1" "(0x0201 + (256 * q + r)) div 256 = q + 2"
proof -
  have e: "0x0101 + (256 * q + r) = (r + 1) + 256 * (q + 1)" "0x0102 + (256 * q + r) = (r + 2) + 256 * (q + 1)"
    "0x0201 + (256 * q + r) = (r + 1) + 256 * (q + 2)" by simp_all
  have m: "(k + 256 * j) mod 256 = k" "(k + 256 * j) div 256 = j" if "k < 256" for k j :: nat
    using that by simp_all
  have k: "r + 1 < 256" "r + 2 < 256" using assms by simp_all
  show "(0x0101 + (256 * q + r)) mod 256 = r + 1" "(0x0102 + (256 * q + r)) mod 256 = r + 2"
    "(0x0201 + (256 * q + r)) mod 256 = r + 1" "(0x0101 + (256 * q + r)) div 256 = q + 1"
    "(0x0102 + (256 * q + r)) div 256 = q + 1" "(0x0201 + (256 * q + r)) div 256 = q + 2"
    unfolding e by (simp_all only: m k)
qed

lemma reference_bytes:
  fixes d :: ushort
  assumes "unat d mod 256 < 254"
  shows "low_byte (0x0101 + d) \<noteq> low_byte (0x0102 + d)" "high_byte (0x0101 + d) = high_byte (0x0102 + d)"
    "low_byte (0x0101 + d) = low_byte (0x0201 + d)" "high_byte (0x0101 + d) \<noteq> high_byte (0x0201 + d)"
    "unat (low_byte (0x0101 + d)) = unat d mod 256 + 1"
    "unat (high_byte (0x0101 + d)) = (unat d div 256 + 1) mod 256"
proof -
  define q r where "q = unat d div 256" and "r = unat d mod 256"
  have d: "unat d = 256 * q + r" unfolding q_def r_def by simp
  have r: "r < 254" using assms by (simp add: r_def)
  have q: "q < 256" using unsigned_less [of d] unfolding q_def by (simp add: div_less_iff_less_mult)
  have l: "unat (low_byte (k + d)) = (unat k + (256 * q + r)) mod 256"
    and h: "unat (high_byte (k + d)) = (unat k + (256 * q + r)) div 256 mod 256" for k
    by (simp_all only: unat_low_byte unat_high_byte unat_offset mod_div_256 d)
  have k: "unat (0x0101 :: ushort) = 0x0101" "unat (0x0102 :: ushort) = 0x0102" "unat (0x0201 :: ushort) = 0x0201"
    by simp_all
  have lh: "unat (low_byte (0x0101 + d)) = r + 1" "unat (low_byte (0x0102 + d)) = r + 2"
    "unat (low_byte (0x0201 + d)) = r + 1" "unat (high_byte (0x0101 + d)) = (q + 1) mod 256"
    "unat (high_byte (0x0102 + d)) = (q + 1) mod 256" "unat (high_byte (0x0201 + d)) = (q + 2) mod 256"
    by (simp_all only: l h k split_256 [OF r])
  show "unat (low_byte (0x0101 + d)) = unat d mod 256 + 1" unfolding lh(1) r_def ..
  show "unat (high_byte (0x0101 + d)) = (unat d div 256 + 1) mod 256" unfolding lh(4) q_def ..
  show "high_byte (0x0101 + d) = high_byte (0x0102 + d)" unfolding word_unat_eq_iff lh ..
  show "low_byte (0x0101 + d) = low_byte (0x0201 + d)" unfolding word_unat_eq_iff lh ..
  show "low_byte (0x0101 + d) \<noteq> low_byte (0x0102 + d)" unfolding word_unat_eq_iff lh by simp
  have "(q + 1) mod 256 \<noteq> (q + 2) mod 256" using q by (cases "q = 254"; cases "q = 255") (simp_all add: mod_less)
  then show "high_byte (0x0101 + d) \<noteq> high_byte (0x0201 + d)" unfolding word_unat_eq_iff lh .
qed

lemma delta_of_bytes:
  assumes "unat d mod 256 < 254"
  shows "push_bit 8 (byte_pred (high_byte (0x0101 + d))) OR byte_pred (low_byte (0x0101 + d)) = d"
proof -
  let ?q = "unat d div 256" and ?r = "unat d mod 256"
  note b = reference_bytes(5,6) [OF assms]
  have q: "?q < 256" using unsigned_less [of d] by (simp add: div_less_iff_less_mult)
  have "byte_pred (low_byte (0x0101 + d)) = word_of_nat (?r + 1) - 1"
    unfolding byte_pred_def b(1) [symmetric] by simp
  then have l: "byte_pred (low_byte (0x0101 + d)) = word_of_nat ?r" by simp
  have "push_bit 8 (byte_pred (high_byte (0x0101 + d))) = (word_of_nat ((?q + 1) mod 256) - 1) * 256"
    unfolding byte_pred_def b(2) [symmetric] by (simp add: push_bit_eq_mult)
  also have "\<dots> = push_bit 8 (word_of_nat ?q :: ushort)"
  proof (cases "?q = 255")
    case True
    then show ?thesis by simp
  next
    case False
    then have "(?q + 1) mod 256 = ?q + 1" using q by simp
    then show ?thesis by (simp add: push_bit_eq_mult)
  qed
  finally have h: "push_bit 8 (byte_pred (high_byte (0x0101 + d))) = push_bit 8 (word_of_nat ?q :: ushort)" .
  have r: "(word_of_nat ?r :: ushort) = take_bit 8 d"
    by (simp add: word_unat_eq_iff unsigned_take_bit_eq take_bit_eq_mod unat_of_nat unat_mod_distrib)
  have "(word_of_nat ?q :: ushort) = drop_bit 8 d"
    using q by (simp add: word_unat_eq_iff unat_drop_bit_eq drop_bit_eq_div unat_of_nat unat_div)
  then show ?thesis unfolding l h r
    by (intro bit_word_eqI) (auto simp: bit_simps)
qed

section \<open>The scans\<close>

definition low_entry :: "uchar list \<Rightarrow> nat \<Rightarrow> address" where
  "low_entry base i = \<lparr>delta = byte_pred (base ! i), lsb = word_of_nat i, msb = -1\<rparr>"

definition high_entry :: "uchar list \<Rightarrow> address \<Rightarrow> nat \<Rightarrow> address" where
  "high_entry base e i = e\<lparr>delta := push_bit 8 (byte_pred (base ! i)) OR delta e, msb := word_of_nat i\<rparr>"

lemma scan_low_filter:
  "scan_low base low i n table = table @ map (low_entry base) (filter (\<lambda>i. base ! i \<noteq> low ! i) [i ..< i + n])"
  by (induction n arbitrary: i table) (auto simp: low_entry_def upt_conv_Cons simp del: upt_Suc)

lemma scan_high_filter:
  assumes "length es = length (filter (\<lambda>i. base ! i \<noteq> high ! i) [i ..< i + n])"
  shows "scan_high base high i n (length pre) (pre @ es) =
    Some (pre @ map2 (high_entry base) es (filter (\<lambda>i. base ! i \<noteq> high ! i) [i ..< i + n]))"
  using assms
proof (induction n arbitrary: i pre es)
  case (Suc n)
  have up: "[i ..< Suc (i + n)] = i # [Suc i ..< Suc (i + n)]" by (simp add: upt_conv_Cons)
  show ?case
  proof (cases "base ! i = high ! i")
    case True
    then show ?thesis using Suc by (simp add: up del: upt_Suc)
  next
    case False
    then obtain e es' where es: "es = e # es'" using Suc.prems by (cases es) (auto simp: up simp del: upt_Suc)
    have "scan_high base high i (Suc n) (length pre) (pre @ es) =
        scan_high base high (Suc i) n (length (pre @ [high_entry base e i])) ((pre @ [high_entry base e i]) @ es')"
      using False by (simp add: es high_entry_def Let_def)
    also have "\<dots> = Some ((pre @ [high_entry base e i]) @
        map2 (high_entry base) es' (filter (\<lambda>i. base ! i \<noteq> high ! i) [Suc i ..< Suc i + n]))"
      using Suc.prems False by (intro Suc.IH) (simp add: up es del: upt_Suc)
    finally show ?thesis using False by (simp add: es up del: upt_Suc)
  qed
qed simp

lemma filter_sorted:
  assumes "sorted_wrt (<) ks" "set ks = {i. i < n \<and> P i}"
  shows "filter P [0 ..< n] = (ks :: nat list)"
proof (rule strict_sorted_equal)
  show "sorted_wrt (<) ks" by (rule assms)
  show "sorted_wrt (<) (filter P [0 ..< n])" by (intro sorted_wrt_filter sorted_wrt_upt)
  show "set (filter P [0 ..< n]) = set ks" using assms(2) by (auto simp: set_eq_iff)
qed

lemma relocatable_dest:
  assumes "relocatable code refs" "(l, h, d) \<in> set refs"
  shows "l < length code" "h < length code" "unat d mod 256 < 254"
    "assembled code refs a ! l = low_byte (a + d)" "assembled code refs a ! h = high_byte (a + d)"
proof -
  have "\<forall>x \<in> set refs. fst x < length code \<and> fst (snd x) < length code \<and> unat (snd (snd x)) mod 256 < 254"
    using assms(1) unfolding relocatable_def list_all_iff case_prod_unfold by blast
  from bspec [OF this assms(2)]
  show b: "l < length code" "h < length code" "unat d mod 256 < 254" by simp_all
  have "sorted_wrt (<) (map fst refs)" "sorted_wrt (<) (map (fst \<circ> snd) refs)"
    using assms(1) unfolding relocatable_def by blast+
  then have "distinct (map fst refs)" "distinct (map (fst \<circ> snd) refs)"
    unfolding strict_sorted_iff by blast+
  moreover have "\<forall>x \<in> set refs. \<forall>y \<in> set refs. fst x \<noteq> fst (snd y)"
    using assms(1) unfolding relocatable_def list_all_iff case_prod_unfold by blast
  then have "l1 \<noteq> h2" if "(l1, h1, d1) \<in> set refs" "(l2, h2, d2) \<in> set refs" for l1 h1 d1 l2 h2 d2
    using that by fastforce
  ultimately show "assembled code refs a ! l = low_byte (a + d)" "assembled code refs a ! h = high_byte (a + d)"
    using assembled_at [of refs l h d code a] assms(2) b by blast+
qed

text \<open>The bytes in which the three files differ are the low and the high bytes of the references.\<close>

lemma differ_low:
  assumes "relocatable code refs"
  shows "filter (\<lambda>i. assembled code refs 0x0101 ! i \<noteq> assembled code refs 0x0102 ! i) [0 ..< length code] = map fst refs"
proof (rule filter_sorted)
  show "sorted_wrt (<) (map fst refs)" using assms unfolding relocatable_def by blast
  have "i \<in> set (map fst refs) \<longleftrightarrow> i < length code \<and> assembled code refs 0x0101 ! i \<noteq> assembled code refs 0x0102 ! i" for i
  proof (cases "i \<in> slots refs")
    case False
    then show ?thesis by (auto simp: assembled_other slots_def)
  next
    case True
    then consider l h d where "(l, h, d) \<in> set refs" "i = l"
      | l h d where "(l, h, d) \<in> set refs" "i = h" "i \<notin> set (map fst refs)"
      by (cases "i \<in> fst ` set refs") (force simp: slots_def)+
    then show ?thesis
    proof cases
      case (1 l h d)
      then show ?thesis
        using relocatable_dest [OF assms 1(1)] reference_bytes(1) [of d] by force
    next
      case (2 l h d)
      then show ?thesis using relocatable_dest [OF assms 2(1)] reference_bytes(2) [of d] by simp
    qed
  qed
  then show "set (map fst refs) = {i. i < length code \<and> assembled code refs 0x0101 ! i \<noteq> assembled code refs 0x0102 ! i}"
    by blast
qed

lemma differ_high:
  assumes "relocatable code refs"
  shows "filter (\<lambda>i. assembled code refs 0x0101 ! i \<noteq> assembled code refs 0x0201 ! i) [0 ..< length code] = map (fst \<circ> snd) refs"
proof (rule filter_sorted)
  show "sorted_wrt (<) (map (fst \<circ> snd) refs)" using assms unfolding relocatable_def by blast
  have "i \<in> set (map (fst \<circ> snd) refs) \<longleftrightarrow> i < length code \<and> assembled code refs 0x0101 ! i \<noteq> assembled code refs 0x0201 ! i" for i
  proof (cases "i \<in> slots refs")
    case False
    then show ?thesis by (auto simp: assembled_other slots_def)
  next
    case True
    then consider l h d where "(l, h, d) \<in> set refs" "i = h"
      | l h d where "(l, h, d) \<in> set refs" "i = l" "i \<notin> set (map (fst \<circ> snd) refs)"
      by (cases "i \<in> (fst \<circ> snd) ` set refs") (force simp: slots_def)+
    then show ?thesis
    proof cases
      case (1 l h d)
      then show ?thesis
        using relocatable_dest [OF assms 1(1)] reference_bytes(4) [of d] by force
    next
      case (2 l h d)
      then show ?thesis using relocatable_dest [OF assms 2(1)] reference_bytes(3) [of d] by simp
    qed
  qed
  then show "set (map (fst \<circ> snd) refs) = {i. i < length code \<and> assembled code refs 0x0101 ! i \<noteq> assembled code refs 0x0201 ! i}"
    by blast
qed

definition entry_of :: "reference \<Rightarrow> address" where
  "entry_of r = (case r of (l, h, d) \<Rightarrow> \<lparr>delta = d, lsb = word_of_nat l, msb = word_of_nat h\<rparr>)"

lemma make_table_refs:
  assumes "relocatable code refs"
  shows "make_table (assembled code refs 0x0101) (assembled code refs 0x0102) (assembled code refs 0x0201)
    = Some (map entry_of refs)"
proof -
  let ?b = "assembled code refs 0x0101"
  have low: "scan_low ?b (assembled code refs 0x0102) 0 (length code) [] = map (low_entry ?b) (map fst refs)"
    using scan_low_filter [of ?b "assembled code refs 0x0102" 0 "length code" "[]"]
    by (simp only: differ_low [OF assms] add_0 append_Nil)
  have "scan_high ?b (assembled code refs 0x0201) 0 (length code) (length ([] :: address list)) ([] @ map (low_entry ?b) (map fst refs))
      = Some ([] @ map2 (high_entry ?b) (map (low_entry ?b) (map fst refs)) (map (fst \<circ> snd) refs))"
    using scan_high_filter [of "map (low_entry ?b) (map fst refs)" ?b "assembled code refs 0x0201" 0 "length code" "[]"]
    by (simp only: differ_high [OF assms] add_0 length_map)
  then have "make_table ?b (assembled code refs 0x0102) (assembled code refs 0x0201) =
      Some (map2 (high_entry ?b) (map (low_entry ?b) (map fst refs)) (map (fst \<circ> snd) refs))"
    unfolding make_table_def length_assembled low by simp
  moreover have "map2 (high_entry ?b) (map (low_entry ?b) (map fst rs)) (map (fst \<circ> snd) rs) = map entry_of rs"
    if "set rs \<subseteq> set refs" for rs
    using that
  proof (induction rs)
    case (Cons r rs)
    obtain l h d where r: "r = (l, h, d)" by (cases r)
    with Cons.prems have "(l, h, d) \<in> set refs" by simp
    note d = relocatable_dest(3) [OF assms this] relocatable_dest(4,5) [OF assms this, of "0x0101"]
    then show ?case
      using Cons delta_of_bytes [OF d(1)] by (simp add: r entry_of_def high_entry_def low_entry_def)
  qed simp
  ultimately show ?thesis by simp
qed

lemma patch_entries_assembled:
  assumes "list_all (\<lambda>(l, h, d). l < length bs \<and> h < length bs) refs" "length bs \<le> 0x10000"
  shows "patch_entries a (map entry_of refs) bs = Some (assembled bs refs a)"
  using assms
proof (induction refs arbitrary: bs)
  case (Cons r refs)
  obtain l h d where r: "r = (l, h, d)" by (cases r)
  have b: "l < length bs" "h < length bs" using Cons.prems(1) r by simp_all
  then have u: "unat (word_of_nat l :: ushort) = l" "unat (word_of_nat h :: ushort) = h"
    using Cons.prems(2) by (simp_all add: unat_of_nat)
  have "patch_entry a (entry_of r) bs = Some (set_reference a r bs)"
    using b by (simp add: r patch_entry_def entry_of_def set_reference_def u low_byte_def high_byte_def Let_def)
  moreover have "length (set_reference a r bs) = length bs" by (simp add: r set_reference_def)
  ultimately show ?case using Cons by simp
qed simp

section \<open>Properties\<close>

definition sample_code :: "uchar list" where
  "sample_code = [0, 0, 0x4c, 0, 0, 0xad, 0, 0, 0x60]"

definition sample_refs :: "reference list" where
  "sample_refs = [(0, 1, 0), (3, 4, 5), (6, 7, 0x0108)]"

text \<open>C7. For a program that can be relocated, the tool finds from the three assemblies exactly its
  references, and the function it prints makes from the first assembly what the assembler would
  have made at the address, for every address with room behind it; without that room it fails.
\<close>

theorem make_server_relocates:
  assumes "relocatable code refs"
  shows "\<exists>table. make_table (assembled code refs 0x0101) (assembled code refs 0x0102) (assembled code refs 0x0201) = Some table \<and>
    (\<forall>a. xlink_server_code (assembled code refs 0x0101) table a =
       Some (if unat a + length code \<le> 0x10000 then Inr (assembled code refs a) else Inl ()))"
proof (intro exI conjI allI)
  show "make_table (assembled code refs 0x0101) (assembled code refs 0x0102) (assembled code refs 0x0201) =
      Some (map entry_of refs)" using assms by (rule make_table_refs)
  fix a
  have "length code \<le> 0x10000" using assms unfolding relocatable_def by blast
  moreover have "list_all (\<lambda>(l, h, d). l < length (assembled code refs 0x0101) \<and> h < length (assembled code refs 0x0101)) refs"
    using relocatable_dest(1,2) [OF assms] by (auto simp: list_all_iff)
  ultimately have "patch_entries a (map entry_of refs) (assembled code refs 0x0101) = Some (assembled code refs a)"
    using patch_entries_assembled [of "assembled code refs 0x0101" refs a] by (simp add: assembled_again)
  then show "xlink_server_code (assembled code refs 0x0101) (map entry_of refs) a =
      Some (if unat a + length code \<le> 0x10000 then Inr (assembled code refs a) else Inl ())"
    by (auto simp: xlink_server_code_def)
qed

theorem make_server_relocates_witness:
  "\<exists>table. make_table [1, 1, 0x4c, 6, 1, 0xad, 9, 2, 0x60] [2, 1, 0x4c, 7, 1, 0xad, 10, 2, 0x60]
      [1, 2, 0x4c, 6, 2, 0xad, 9, 3, 0x60] = Some table \<and>
    xlink_server_code [1, 1, 0x4c, 6, 1, 0xad, 9, 2, 0x60] table 0xc000
      = Some (Inr [0, 0xc0, 0x4c, 5, 0xc0, 0xad, 8, 0xc1, 0x60])"
proof -
  have "relocatable sample_code sample_refs" by (simp add: relocatable_def sample_code_def sample_refs_def)
  then obtain table where t: "make_table (assembled sample_code sample_refs 0x0101) (assembled sample_code sample_refs 0x0102)
      (assembled sample_code sample_refs 0x0201) = Some table"
    "xlink_server_code (assembled sample_code sample_refs 0x0101) table 0xc000 =
      Some (if unat (0xc000 :: ushort) + length sample_code \<le> 0x10000 then Inr (assembled sample_code sample_refs 0xc000) else Inl ())"
    using make_server_relocates by blast
  moreover have "assembled sample_code sample_refs 0x0101 = [1, 1, 0x4c, 6, 1, 0xad, 9, 2, 0x60]"
    "assembled sample_code sample_refs 0x0102 = [2, 1, 0x4c, 7, 1, 0xad, 10, 2, 0x60]"
    "assembled sample_code sample_refs 0x0201 = [1, 2, 0x4c, 6, 2, 0xad, 9, 3, 0x60]"
    "assembled sample_code sample_refs 0xc000 = [0, 0xc0, 0x4c, 5, 0xc0, 0xad, 8, 0xc1, 0x60]"
    by (simp_all add: assembled_def sample_code_def sample_refs_def set_reference_def low_byte_def high_byte_def)
  moreover have "unat (0xc000 :: ushort) + length sample_code \<le> 0x10000" by (simp add: sample_code_def)
  ultimately show ?thesis by (intro exI [of _ table]) simp
qed

text \<open>
  A reference to a place 254 bytes behind the start: its high byte differs between the first two
  files, the table gets a second entry for it without a high byte, and the printed function
  writes behind its array.
\<close>

lemma make_server_carry:
  "make_table [0xff, 0x01] [0x00, 0x02] [0xff, 0x02] =
     Some [\<lparr>delta = 0xfe, lsb = 0, msb = 1\<rparr>, \<lparr>delta = 0, lsb = 1, msb = -1\<rparr>]"
  "xlink_server_code [0xff, 0x01] [\<lparr>delta = 0xfe, lsb = 0, msb = 1\<rparr>, \<lparr>delta = 0, lsb = 1, msb = -1\<rparr>] 0x0101 = None"
proof -
  show "make_table [0xff, 0x01] [0x00, 0x02] [0xff, 0x02] =
      Some [\<lparr>delta = 0xfe, lsb = 0, msb = 1\<rparr>, \<lparr>delta = 0, lsb = 1, msb = -1\<rparr>]" by code_simp
  show "xlink_server_code [0xff, 0x01] [\<lparr>delta = 0xfe, lsb = 0, msb = 1\<rparr>, \<lparr>delta = 0, lsb = 1, msb = -1\<rparr>] 0x0101 = None"
    by (simp add: xlink_server_code_def patch_entry_def Let_def unsigned_minus_1_eq_mask mask_eq_exp_minus_1)
qed

end
