(* ===== verification/Build_Tools.thy ===== *)
theory Build_Tools
  imports Make_Server
begin

text \<open>
  The other generators under tools/: make-kernal.c with the patch function that it prints,
  make-bootstrap.c, make-help.c and make-code.c. A file is its bytes or its text, \<open>None\<close>
  when it cannot be opened.
\<close>

section \<open>make-kernal.c\<close>

text \<open>The bytes that the tool prints for a patch; a read outside the file is \<open>None\<close>.\<close>

definition kernal_data :: "uchar list \<Rightarrow> int \<Rightarrow> int \<Rightarrow> uchar list option" where
  "kernal_data code offset len =
     (if len \<le> 0 then Some []
      else if 0 \<le> offset \<and> offset + len \<le> int (length code)
      then Some (take (nat len) (drop (nat offset) code))
      else None)"

record kernal_patch =
  patch_offset :: ushort
  patch_size :: ushort
  patch_data :: "uchar list"

fun kernal_patches :: "uchar list \<Rightarrow> string list \<Rightarrow> kernal_patch list option" where
  "kernal_patches code (o1 # n1 # args) =
     (let offset = strtol_int o1; len = strtol_int n1 in
      do { data \<leftarrow> kernal_data code offset len;
           ps \<leftarrow> kernal_patches code args;
           Some (\<lparr>patch_offset = word_of_int offset, patch_size = word_of_int len, patch_data = data\<rparr> # ps) })"
| "kernal_patches code _ = Some []"

text \<open>The printed \<open>xlink_kernal_<name>\<close>.\<close>

fun xlink_kernal_code :: "kernal_patch list \<Rightarrow> uchar list \<Rightarrow> uchar list option" where
  "xlink_kernal_code [] rom = Some rom"
| "xlink_kernal_code (p # ps) rom =
     (if unat (patch_size p) \<le> length (patch_data p) then
        do { rom \<leftarrow> write_at (unat (patch_offset p)) (take (unat (patch_size p)) (patch_data p)) rom;
             xlink_kernal_code ps rom }
      else None)"

fun print_patches :: "nat \<Rightarrow> uchar list \<Rightarrow> string list \<Rightarrow> string option" where
  "print_patches i code (o1 # n1 # args) =
     (let offset = strtol_int o1; len = strtol_int n1 in
      do { data \<leftarrow> kernal_data code offset len;
           rest \<leftarrow> print_patches (Suc i) code args;
           Some (''patches['' @ show_nat i @ ''] = &(Patch) {\<newline>  .offset = '' @ show_dec offset @
             '',\<newline>  .size = '' @ show_dec len @ '',\<newline>  .data = (unsigned char['' @ show_dec len @
             '']) {'' @ print_bytes data @ ''}\<newline>};\<newline>'' @ rest) })"
| "print_patches i code _ = Some []"

definition print_kernal :: "string \<Rightarrow> nat \<Rightarrow> string \<Rightarrow> string" where
  "print_kernal name n patches =
     ''void xlink_kernal_'' @ name @ ''(unsigned char* image) {\<newline>typedef struct {\<newline>'' @
     ''  unsigned short offset;\<newline>  unsigned short size;\<newline>  unsigned char* data;\<newline>} Patch;\<newline>'' @
     ''Patch *patches['' @ show_nat n @ ''];\<newline>'' @ patches @
     ''for(int i=0; i<'' @ show_nat n @ ''; i++) {\<newline>  for(int k=0; k<patches[i]->size; k++) {\<newline>'' @
     ''    image[patches[i]->offset+k] = patches[i]->data[k];\<newline>  }\<newline>}\<newline>}\<newline>''"

text \<open>
  Whether the tool succeeds, and its output. \<open>readable\<close> says that the file, which \<open>stat\<close>
  finds, can be opened: when it cannot, the tool prints nothing and succeeds all the same.
\<close>

definition make_kernal :: "(string \<Rightarrow> uchar list option) \<Rightarrow> (string \<Rightarrow> bool) \<Rightarrow> string list \<Rightarrow> (bool \<times> string) option" where
  "make_kernal files readable args =
     (case args of
        [] \<Rightarrow> Some (False, [])
      | [name] \<Rightarrow> Some (False, [])
      | name # filename # patches \<Rightarrow>
          (case files filename of
             None \<Rightarrow> Some (False, [])
           | Some code \<Rightarrow>
               if length patches mod 2 \<noteq> 0 then Some (False, [])
               else if \<not> readable filename then Some (True, [])
               else do { ps \<leftarrow> print_patches 0 code patches;
                         Some (True, print_kernal name (length patches div 2) ps) }))"

section \<open>make-bootstrap.c\<close>

definition c_mod :: "int \<Rightarrow> int \<Rightarrow> int" where
  "c_mod a b = (if a < 0 then - (- a mod b) else a mod b)"

definition fgetc_at :: "uchar list \<Rightarrow> nat \<Rightarrow> int" where
  "fgetc_at f i = (if i < length f then uint (f ! i) else -1)"

definition padded_size :: "nat \<Rightarrow> int" where
  "padded_size st_size = (let n = int st_size - 2 in n + (8 - c_mod n 8))"

definition bootstrap_data :: "uchar list \<Rightarrow> uchar list" where
  "bootstrap_data f =
     (let n = nat (padded_size (length f)) in take n (drop 2 f @ replicate n 0))"

text \<open>The loop over the bytes: line number and checksum go along.\<close>

fun data_loop :: "nat \<Rightarrow> nat \<Rightarrow> uchar list \<Rightarrow> nat \<Rightarrow> nat \<Rightarrow> string" where
  "data_loop len i [] l checksum = []"
| "data_loop len i (b # bs) l checksum =
     (let (out, l, checksum) =
        (if i mod 8 = 0 then
           ((if checksum \<noteq> 0 then show_nat checksum @ ''\<newline>'' else []) @ show_nat l @ '' data '', l + 1, 0)
         else ([], l, checksum));
        checksum = checksum + unat b
      in out @ show_nat (unat b) @ '','' @
         (if i + 1 = len \<and> i mod 8 \<noteq> 0 then show_nat checksum @ ''\<newline>'' else []) @
         data_loop len (i + 1) bs l checksum)"

text \<open>Numbered lines in steps of ten.\<close>

fun basic_lines :: "nat \<Rightarrow> string list \<Rightarrow> string" where
  "basic_lines l [] = []"
| "basic_lines l (t # ts) = show_nat (l + 10) @ t @ ''\<newline>'' @ basic_lines (l + 10) ts"

definition bootstrap_program :: "string \<Rightarrow> int \<Rightarrow> int \<Rightarrow> string" where
  "bootstrap_program machine address len = basic_lines 0
     ((if machine = ''c128'' then ['' print chr$(14)''] else []) @
      ['' print\"please wait...\":print'',
       '' d='' @ show_dec address @ '':s='' @ show_dec len @ '':c=0:l=1000:m=0'',
       '' for i=0 to s-1:for k=0 to 7'',
       '' read v:poke d+i+k,v:c=c+v:next k'',
       '' read v:if c<>v then print\"data checksum error on line\";l:end'',
       '' c=0:l=l+1:i=i+7:nexti'',
       '' print\"on your pc, please run\":print''] @
      (if machine = ''c64'' then
         ['' print\"xlink server xlink.prg\"'', '' print\"xlink load -f xlink.prg\":print'']
       else if machine = ''c128'' then
         ['' print\"xlink server -M c128 xlink.prg\"'', '' print\"xlink load -M c128 -f xlink.prg\":print'']
       else []) @
      ['' print\"then save the server:\":print''] @
      (if machine = ''c64'' then ['' print\"save\"chr$(34)\"xlink\"chr$(34)\",8\"chr$(145)'']
       else if machine = ''c128'' then ['' print\"dsave\"chr$(34)\"xlink\"chr$(34)\"\"chr$(145)'']
       else []) @
      ['' sys '' @ show_dec address, '' end''])"

text \<open>Without both arguments the tool hands a null pointer to \<open>fopen\<close>.\<close>

definition make_bootstrap :: "(string \<Rightarrow> uchar list option) \<Rightarrow> string list \<Rightarrow> (bool \<times> string) option" where
  "make_bootstrap files args =
     (case args of
        machine # filename # _ \<Rightarrow>
          (case files filename of
             None \<Rightarrow> Some (False, [])
           | Some f \<Rightarrow>
               (let address = or (fgetc_at f 0) (fgetc_at f 1 * 256); len = padded_size (length f) in
                Some (True, bootstrap_program machine address len @
                  data_loop (nat len) 0 (bootstrap_data f) 1000 0)))
      | _ \<Rightarrow> None)"

section \<open>make-help.c and make-code.c\<close>

text \<open>The lines that \<open>getline\<close> gives, each with its newline, which the last one may lack.\<close>

fun get_lines :: "string \<Rightarrow> string \<Rightarrow> string list" where
  "get_lines acc [] = (if acc = [] then [] else [acc])"
| "get_lines acc (c # s) = (if c = CHR ''\<newline>'' then (acc @ [c]) # get_lines [] s else get_lines (acc @ [c]) s)"

definition help_line :: "string \<Rightarrow> string" where
  "help_line line =
     (if hd line = CHR ''#'' then []
      else
        (let text = butlast line in
         if take 7 text = ''COMMAND'' then ''break;\<newline>\<newline>case '' @ text @ '':\<newline>''
         else if length line = 1 then ''printf(\"'' @ [CHR 0x5C] @ ''n\");\<newline>''
         else ''printf(\"'' @ text @ [CHR 0x5C] @ ''n\");\<newline>''))"

definition make_help :: "(string \<Rightarrow> string option) \<Rightarrow> string list \<Rightarrow> bool \<times> string" where
  "make_help files args =
     (case args of
        [] \<Rightarrow> (False, [])
      | filename # _ \<Rightarrow>
          (case files filename of
             None \<Rightarrow> (False, [])
           | Some f \<Rightarrow>
               (True, ''bool help(int id) {\<newline>switch(id) {\<newline>case COMMAND_NONE:\<newline>usage();\<newline>'' @
                  concat (map help_line (get_lines [] f)) @
                  ''break;\<newline>}\<newline>return true;\<newline>}\<newline>'')))"

definition make_code :: "(string \<Rightarrow> uchar list option) \<Rightarrow> string \<Rightarrow> bool \<times> string" where
  "make_code files filename =
     (case files filename of
        None \<Rightarrow> (False, [])
      | Some f \<Rightarrow>
          (True, ''unsigned char code['' @ show_nat (length f) @ ''] = {\<newline>'' @
             concat (map (\<lambda>b. show_nat (unat b) @ '', '') f) @ ''};\<newline>\<newline>''))"

end
