(* ===== verification/Build_Tools_Laws.thy ===== *)
theory Build_Tools_Laws
  imports Build_Tools
begin

text \<open>
  What the kernal patcher and the bootstrap generator print: a function that writes exactly the
  bytes of its ranges, and lines of eight bytes with their checksum.
\<close>

section \<open>The patched kernal\<close>

fun patch_ranges :: "string list \<Rightarrow> (int \<times> int) list" where
  "patch_ranges (a # n # args) = (strtol_int a, strtol_int n) # patch_ranges args"
| "patch_ranges _ = []"

definition in_patch :: "nat \<Rightarrow> int \<times> int \<Rightarrow> bool" where
  "in_patch i r \<longleftrightarrow> fst r \<le> int i \<and> int i < fst r + snd r"

lemma write_at_nth:
  assumes "write_at k bs xs = Some ys"
  shows "length ys = length xs \<and> (i < length xs \<longrightarrow> ys ! i = (if k \<le> i \<and> i < k + length bs then bs ! (i - k) else xs ! i))"
  using assms by (auto simp: write_at_def nth_append min_def split: if_splits)

lemma kernal_data_result:
  assumes "kernal_data code a n = Some data" "0 \<le> n"
  shows "length data = nat n \<and> (0 < n \<longrightarrow> 0 \<le> a \<and> a + n \<le> int (length code)) \<and>
    (\<forall>j < nat n. data ! j = code ! (nat a + j))"
  using assms by (auto simp: kernal_data_def split: if_splits)

lemma kernal_patches_result:
  assumes "kernal_patches code args = Some ps" "length code \<le> 0x10000" "length rom = length code"
    "list_all (\<lambda>(a, n). 0 \<le> a \<and> a < 0x10000 \<and> 0 \<le> n \<and> n < 0x10000 \<and> a + n \<le> int (length code)) (patch_ranges args)"
  shows "\<exists>rom'. xlink_kernal_code ps rom = Some rom' \<and> length rom' = length code \<and>
    (\<forall>i < length code. rom' ! i = (if list_ex (in_patch i) (patch_ranges args) then code ! i else rom ! i))"
  using assms
proof (induction code args arbitrary: ps rom rule: kernal_patches.induct)
  case (1 code o1 n1 args)
  let ?a = "strtol_int o1" and ?n = "strtol_int n1"
  from "1.prems"(1) obtain data qs where d: "kernal_data code ?a ?n = Some data" and q: "kernal_patches code args = Some qs"
    and ps: "ps = \<lparr>patch_offset = word_of_int ?a, patch_size = word_of_int ?n, patch_data = data\<rparr> # qs"
    by (auto simp: Let_def bind_iff)
  have r: "0 \<le> ?a" "?a < 0x10000" "0 \<le> ?n" "?n < 0x10000" "?a + ?n \<le> int (length code)" using "1.prems"(4) by auto
  then have u: "unat (word_of_int ?a :: ushort) = nat ?a" "unat (word_of_int ?n :: ushort) = nat ?n"
    by (simp_all add: unsigned_of_int take_bit_int_eq_self)
  note data = kernal_data_result [OF d r(3)]
  have "nat ?a + length data \<le> length rom" using r data "1.prems"(3) by linarith
  then obtain rom1 where w: "write_at (nat ?a) data rom = Some rom1" by (simp add: write_at_def)
  note rom1 = write_at_nth [OF w]
  have "length rom1 = length code" using rom1 "1.prems"(3) by simp
  from "1.IH" [OF refl refl d q "1.prems"(2) this] "1.prems"(4) obtain rom' where rom':
    "xlink_kernal_code qs rom1 = Some rom'" "length rom' = length code"
    "\<And>i. i < length code \<Longrightarrow> rom' ! i = (if list_ex (in_patch i) (patch_ranges args) then code ! i else rom1 ! i)"
    by auto
  have "xlink_kernal_code ps rom = Some rom'" using w rom'(1) data by (simp add: ps u)
  moreover have "rom1 ! i = (if in_patch i (?a, ?n) then code ! i else rom ! i)" if "i < length code" for i
  proof -
    have "(nat ?a \<le> i \<and> i < nat ?a + length data) = in_patch i (?a, ?n)" using data r by (auto simp: in_patch_def)
    moreover have "in_patch i (?a, ?n) \<Longrightarrow> data ! (i - nat ?a) = code ! i"
      using data r by (auto simp: in_patch_def)
    ultimately show ?thesis using rom1 [of i] that "1.prems"(3) by simp
  qed
  ultimately show ?case using rom'(2,3) by (intro exI [of _ rom']) auto
qed auto

section \<open>The data lines\<close>

definition data_line :: "nat \<Rightarrow> uchar list \<Rightarrow> string" where
  "data_line l bs = show_nat l @ '' data '' @ print_bytes bs @ show_nat (sum_list (map unat bs)) @ ''\<newline>''"

definition pending :: "nat \<Rightarrow> string" where
  "pending c = (if c \<noteq> 0 then show_nat c @ ''\<newline>'' else [])"

lemma print_bytes_Cons: "print_bytes (b # bs) = show_nat (unat b) @ '','' @ print_bytes bs"
  by (simp add: print_bytes_def)

lemma print_bytes_Nil [simp]: "print_bytes [] = []"
  by (simp add: print_bytes_def)

text \<open>The bytes of a line behind its first.\<close>

lemma data_loop_tail:
  assumes "0 < i mod 8" "i mod 8 + length bs = 8" "bs \<noteq> []" "len = i + length bs + length rest"
  shows "data_loop len i (bs @ rest) l c = print_bytes bs @
    (if rest = [] then show_nat (c + sum_list (map unat bs)) @ ''\<newline>'' else []) @
    data_loop len (i + length bs) rest l (c + sum_list (map unat bs))"
  using assms
proof (induction bs arbitrary: i c)
  case (Cons b bs)
  show ?case
  proof (cases "bs = []")
    case True
    then show ?thesis using Cons.prems by (simp add: print_bytes_Cons Let_def)
  next
    case False
    then have m: "Suc i mod 8 = Suc (i mod 8)" using Cons.prems(2) by (cases bs) (auto simp: mod_Suc)
    have "data_loop len (Suc i) (bs @ rest) l (c + unat b) = print_bytes bs @
        (if rest = [] then show_nat (c + unat b + sum_list (map unat bs)) @ ''\<newline>'' else []) @
        data_loop len (Suc i + length bs) rest l (c + unat b + sum_list (map unat bs))"
      using Cons.prems False m by (intro Cons.IH) simp_all
    then show ?thesis using Cons.prems False by (simp add: print_bytes_Cons Let_def ac_simps)
  qed
qed simp

lemma data_loop_chunk:
  assumes "length bs = 8" "len = 8 * q + 8 + length rest"
  shows "data_loop len (8 * q) (bs @ rest) l c =
    pending c @ show_nat l @ '' data '' @ print_bytes bs @
    (if rest = [] then show_nat (sum_list (map unat bs)) @ ''\<newline>'' else []) @
    data_loop len (8 * Suc q) rest (Suc l) (sum_list (map unat bs))"
proof -
  obtain b bs' where bs: "bs = b # bs'" "length bs' = 7" using assms(1) by (cases bs) auto
  have "Suc (8 * q) mod 8 = 1" by (simp add: mod_Suc)
  then have "data_loop len (Suc (8 * q)) (bs' @ rest) (Suc l) (unat b) = print_bytes bs' @
      (if rest = [] then show_nat (unat b + sum_list (map unat bs')) @ ''\<newline>'' else []) @
      data_loop len (Suc (8 * q) + length bs') rest (Suc l) (unat b + sum_list (map unat bs'))"
    using bs assms(2) by (intro data_loop_tail) auto
  then show ?thesis using bs by (simp add: print_bytes_Cons pending_def Let_def)
qed

lemma data_loop_lines:
  assumes "list_all (\<lambda>bs. length bs = 8) css" "list_all (\<lambda>bs. sum_list (map unat bs) \<noteq> 0) (butlast css)"
    "css \<noteq> []" "len = 8 * q + length (concat css)"
  shows "data_loop len (8 * q) (concat css) l c = pending c @ concat (map2 data_line [l ..< l + length css] css)"
  using assms
proof (induction css arbitrary: q l c)
  case (Cons bs css)
  let ?s = "sum_list (map unat bs)"
  have step: "data_loop len (8 * q) (bs @ concat css) l c =
    pending c @ show_nat l @ '' data '' @ print_bytes bs @
    (if concat css = [] then show_nat ?s @ ''\<newline>'' else []) @
    data_loop len (8 * Suc q) (concat css) (Suc l) ?s"
    using Cons.prems by (intro data_loop_chunk) simp_all
  have up: "[l ..< l + length (bs # css)] = l # [Suc l ..< Suc l + length css]" by (simp add: upt_conv_Cons del: upt_Suc)
  show ?case
  proof (cases "css = []")
    case True
    then show ?thesis using step unfolding up by (simp add: data_line_def)
  next
    case False
    then have "concat css \<noteq> []" using Cons.prems(1) by (cases css) auto
    moreover have "data_loop len (8 * Suc q) (concat css) (Suc l) ?s =
        pending ?s @ concat (map2 data_line [Suc l ..< Suc l + length css] css)"
      using Cons.prems False by (intro Cons.IH) auto
    moreover have "pending ?s = show_nat ?s @ ''\<newline>''" using Cons.prems(2) False by (simp add: pending_def)
    ultimately show ?thesis using step unfolding up by (simp add: data_line_def)
  qed
qed simp

function chunks8 :: "'a list \<Rightarrow> 'a list list" where
  "chunks8 xs = (if xs = [] then [] else take 8 xs # chunks8 (drop 8 xs))"
  by pat_completeness auto
termination by (relation "measure length") auto

declare chunks8.simps [simp del]

lemma chunks8_props:
  "length xs mod 8 = 0 \<Longrightarrow> concat (chunks8 xs) = xs \<and> list_all (\<lambda>c. length c = 8) (chunks8 xs) \<and> (chunks8 xs = [] \<longleftrightarrow> xs = [])"
proof (induction xs rule: chunks8.induct)
  case (1 xs)
  show ?case
  proof (cases "xs = []")
    case False
    then have "8 \<le> length xs" using "1.prems" by (metis length_0_conv mod_less not_less)
    then show ?thesis using False "1.IH" "1.prems"
      by (simp add: chunks8.simps [of xs] le_mod_geq [symmetric])
  qed (simp add: chunks8.simps)
qed

lemma bootstrap_data_props:
  assumes "2 \<le> length f"
  shows "length (bootstrap_data f) mod 8 = 0" "bootstrap_data f \<noteq> []"
    "take (length f - 2) (bootstrap_data f) = drop 2 f"
    "padded_size (length f) = int (length (bootstrap_data f))"
proof -
  obtain k where k: "length f = k + 2" using assms by (metis le_add_diff_inverse2)
  have "padded_size (length f) = int (k + (8 - k mod 8))"
    by (simp add: padded_size_def c_mod_def k Let_def of_nat_mod of_nat_diff)
  then have n: "nat (padded_size (length f)) = k + (8 - k mod 8)" "0 \<le> padded_size (length f)" by simp_all
  have "(k + (8 - k mod 8)) mod 8 = 0" by presburger
  moreover have "k mod 8 < 8" by simp
  ultimately show "length (bootstrap_data f) mod 8 = 0" "bootstrap_data f \<noteq> []"
    "take (length f - 2) (bootstrap_data f) = drop 2 f" "padded_size (length f) = int (length (bootstrap_data f))"
    using n by (simp_all add: bootstrap_data_def k Let_def min_def not_le)
qed

definition valid_patches :: "uchar list \<Rightarrow> string list \<Rightarrow> bool" where
  "valid_patches code args \<longleftrightarrow> length code \<le> 0x10000 \<and>
     list_all (\<lambda>(a, n). 0 \<le> a \<and> a < 0x10000 \<and> 0 \<le> n \<and> n < 0x10000 \<and> a + n \<le> int (length code)) (patch_ranges args)"

lemma kernal_patches_total:
  assumes "list_all (\<lambda>(a, n). 0 \<le> a \<and> a < 0x10000 \<and> 0 \<le> n \<and> n < 0x10000 \<and> a + n \<le> int (length code)) (patch_ranges args)"
  shows "\<exists>ps. kernal_patches code args = Some ps"
  using assms
proof (induction code args rule: kernal_patches.induct)
  case (1 code o1 n1 args)
  have "\<exists>data. kernal_data code (strtol_int o1) (strtol_int n1) = Some data"
    using "1.prems" by (simp add: kernal_data_def)
  then obtain data where d: "kernal_data code (strtol_int o1) (strtol_int n1) = Some data" ..
  obtain ps where "kernal_patches code args = Some ps" using "1.IH" [OF refl refl d] "1.prems" by auto
  then show ?case using d by (auto simp: Let_def)
qed auto

lemma or_uint_bytes: "or (uint (x :: uchar)) (push_bit 8 (uint (y :: uchar))) = uint x + push_bit 8 (uint y)"
proof (rule disjunctive_add_eq_or [symmetric])
  have "\<not> (bit (uint x) n \<and> bit (push_bit 8 (uint y)) n)" for n
    by (cases "n < 8") (auto simp: bit_push_bit_iff bit_uint_iff)
  then show "and (uint x) (push_bit 8 (uint y)) = 0" by (auto simp: bit_eq_iff bit_and_iff)
qed

section \<open>Properties\<close>

text \<open>C39. For patch ranges that lie in the file, make-kernal.c prints a function that writes into an
  original of the same size exactly the bytes of those ranges; an original that agrees with the
  new kernal outside of the ranges becomes the new kernal.
\<close>

theorem make_kernal_patches:
  assumes "valid_patches code args" "length rom = length code"
  shows "\<exists>ps rom'. kernal_patches code args = Some ps \<and> xlink_kernal_code ps rom = Some rom' \<and>
    length rom' = length code \<and>
    (\<forall>i < length code. rom' ! i = (if list_ex (in_patch i) (patch_ranges args) then code ! i else rom ! i)) \<and>
    ((\<forall>i < length code. \<not> list_ex (in_patch i) (patch_ranges args) \<longrightarrow> rom ! i = code ! i) \<longrightarrow> rom' = code)"
proof -
  note v = assms(1) [unfolded valid_patches_def]
  obtain ps where ps: "kernal_patches code args = Some ps" using kernal_patches_total [OF conjunct2 [OF v]] by blast
  from kernal_patches_result [OF ps conjunct1 [OF v] assms(2) conjunct2 [OF v]] obtain rom' where r:
    "xlink_kernal_code ps rom = Some rom'" "length rom' = length code"
    "\<forall>i < length code. rom' ! i = (if list_ex (in_patch i) (patch_ranges args) then code ! i else rom ! i)" by blast
  moreover have "rom' = code"
    if "\<forall>i < length code. \<not> list_ex (in_patch i) (patch_ranges args) \<longrightarrow> rom ! i = code ! i"
    using that r(2,3) by (intro nth_equalityI) auto
  ultimately show ?thesis using ps by blast
qed

theorem make_kernal_patches_witness:
  "\<exists>ps rom'. kernal_patches [1, 2, 3, 4, 5] [''1'', ''2'', ''0x4'', ''1''] = Some ps \<and>
    xlink_kernal_code ps [1, 0, 0, 4, 0] = Some rom' \<and> rom' = [1, 2, 3, 4, 5]"
proof -
  have r: "patch_ranges [''1'', ''2'', ''0x4'', ''1''] = [(1, 2), (4, 1)]" by code_simp
  have "valid_patches [1, 2, 3, 4, 5] [''1'', ''2'', ''0x4'', ''1'']" by (simp add: valid_patches_def r del: patch_ranges.simps)
  moreover have "\<forall>i < length [1, 2, 3, 4, 5 :: uchar]. \<not> list_ex (in_patch i) [(1, 2), (4, 1)] \<longrightarrow>
      [1, 0, 0, 4, 0 :: uchar] ! i = [1, 2, 3, 4, 5] ! i"
    by (auto simp: in_patch_def less_Suc_eq)
  ultimately show ?thesis
    using make_kernal_patches [of "[1, 2, 3, 4, 5]" "[''1'', ''2'', ''0x4'', ''1'']" "[1, 0, 0, 4, 0]", unfolded r]
    by (metis (no_types, lifting) length_Cons)
qed

text \<open>
  For a program file with a load address, make-bootstrap.c prints its BASIC loader and behind
  it the bytes, padded with zeros to a multiple of eight, as numbered lines of eight bytes and
  their sum, provided no line but the last is all zeros.
\<close>

theorem make_bootstrap_lines:
  assumes "files filename = Some f" "2 \<le> length f"
    "list_all (\<lambda>bs. sum_list (map unat bs) \<noteq> 0) (butlast (chunks8 (bootstrap_data f)))"
  shows "make_bootstrap files [machine, filename] = Some (True,
      bootstrap_program machine (uint (f ! 0) + 256 * uint (f ! 1)) (int (length (bootstrap_data f))) @
      concat (map2 data_line [1000 ..< 1000 + length (chunks8 (bootstrap_data f))] (chunks8 (bootstrap_data f)))) \<and>
    take (length f - 2) (bootstrap_data f) = drop 2 f \<and> concat (chunks8 (bootstrap_data f)) = bootstrap_data f \<and>
    list_all (\<lambda>bs. length bs = 8) (chunks8 (bootstrap_data f))"
proof -
  let ?d = "bootstrap_data f"
  note b = bootstrap_data_props [OF assms(2)]
  note c = chunks8_props [OF b(1)]
  have "data_loop (length ?d) (8 * 0) (concat (chunks8 ?d)) 1000 0 =
      pending 0 @ concat (map2 data_line [1000 ..< 1000 + length (chunks8 ?d)] (chunks8 ?d))"
    using c b(2) assms(3) by (intro data_loop_lines) auto
  then have "data_loop (length ?d) 0 ?d 1000 0 = concat (map2 data_line [1000 ..< 1000 + length (chunks8 ?d)] (chunks8 ?d))"
    using c by (simp add: pending_def)
  moreover have "or (fgetc_at f 0) (fgetc_at f 1 * 256) = uint (f ! 0) + 256 * uint (f ! 1)"
  proof -
    have "or (uint (f ! 0)) (push_bit 8 (uint (f ! 1))) = uint (f ! 0) + push_bit 8 (uint (f ! 1))"
      by (rule or_uint_bytes)
    moreover have "f \<noteq> []" using assms(2) by auto
    ultimately show ?thesis using assms(2) by (simp add: fgetc_at_def push_bit_eq_mult mult.commute)
  qed
  ultimately show ?thesis using assms(1) b c by (simp add: make_bootstrap_def Let_def)
qed

text \<open>A line of eight zeros has neither its checksum nor its end.\<close>

lemma bootstrap_zero_line:
  "data_loop 16 0 (replicate 8 0 @ replicate 8 1) 1000 0 =
     ''1000 data 0,0,0,0,0,0,0,0,1001 data 1,1,1,1,1,1,1,1,8\<newline>''"
  by code_simp

end
