(* ===== verification/Mos6510.thy ===== *)
theory Mos6510
  imports Prelude
begin

text \<open>
  The C64 as the server on it, server64.asm, sees it: the registers of the 6510, its memory with
  the banks that the processor port at 1 switches, and the second CIA at DD00, to which the cable
  of the host is connected. One definition for each machine instruction that the server uses. The
  ROMs, the other I/O chips, the pins of the CIA and what a subroutine of the ROM does are the
  environment, the functions of the record \<open>c64_board\<close>. The data direction register of the
  processor port, at address 0, is not modelled: no server touches it, and the cell is plain memory.
\<close>

section \<open>The machine\<close>

text \<open>
  Of the flags the server only looks at Z and N. \<open>talk\<close> and \<open>flips\<close> are for the theorems only:
  what passed over the data lines, seen from this side, and how often the acknowledge line PA2
  was flipped.
\<close>

record 'e cpu =
  rA :: uchar
  rX :: uchar
  rY :: uchar
  rS :: uchar
  fZ :: bool
  fN :: bool
  P01 :: uchar
  ram :: "ushort \<Rightarrow> uchar"
  pra :: uchar \<comment> \<open>DD00\<close>
  prb :: uchar \<comment> \<open>DD01\<close>
  ddra :: uchar \<comment> \<open>DD02\<close>
  ddrb :: uchar \<comment> \<open>DD03\<close>
  talk :: "bus_event list"
  flips :: nat
  c_env :: 'e

record 'e c64_board =
  icr :: "'e \<Rightarrow> uchar \<times> 'e" \<comment> \<open>DD0D, the interrupt flags; reading clears them\<close>
  pins :: "'e \<Rightarrow> uchar \<times> 'e" \<comment> \<open>port B\<close>
  io_read :: "ushort \<Rightarrow> 'e \<Rightarrow> uchar \<times> 'e"
  io_write :: "ushort \<Rightarrow> uchar \<Rightarrow> 'e \<Rightarrow> 'e"
  rom :: "ushort \<Rightarrow> uchar"
  rom_jsr :: "ushort \<Rightarrow> 'e cpu \<Rightarrow> 'e cpu"

section \<open>Memory\<close>

definition io_visible :: "uchar \<Rightarrow> bool" where
  "io_visible port \<longleftrightarrow> port AND 3 \<noteq> 0 \<and> port AND 4 \<noteq> 0"

definition is_io :: "ushort \<Rightarrow> bool" where
  "is_io a \<longleftrightarrow> 0xd000 \<le> a \<and> a < 0xe000"

definition rom_visible :: "uchar \<Rightarrow> ushort \<Rightarrow> bool" where
  "rom_visible port a \<longleftrightarrow>
     0xa000 \<le> a \<and> a < 0xc000 \<and> port AND 3 = 3 \<or>
     is_io a \<and> port AND 3 \<noteq> 0 \<and> port AND 4 = 0 \<or>
     0xe000 \<le> a \<and> port AND 2 \<noteq> 0"

definition read_io :: "'e c64_board \<Rightarrow> ushort \<Rightarrow> 'e cpu \<Rightarrow> uchar \<times> 'e cpu" where
  "read_io p a m =
     (if a = 0xdd00 then (pra m, m)
      else if a = 0xdd01 then
        (let (b, e) = pins p (c_env m); v = (b AND NOT (ddrb m)) OR (prb m AND ddrb m)
         in (v, m\<lparr>c_env := e, talk := talk m @ [Sent v]\<rparr>))
      else if a = 0xdd02 then (ddra m, m)
      else if a = 0xdd03 then (ddrb m, m)
      else if a = 0xdd0d then (let (v, e) = icr p (c_env m) in (v, m\<lparr>c_env := e\<rparr>))
      else (let (v, e) = io_read p a (c_env m) in (v, m\<lparr>c_env := e\<rparr>)))"

definition write_io :: "'e c64_board \<Rightarrow> ushort \<Rightarrow> uchar \<Rightarrow> 'e cpu \<Rightarrow> 'e cpu" where
  "write_io p a v m =
     (if a = 0xdd00 then m\<lparr>pra := v, flips := flips m + (if bit v 2 = bit (pra m) 2 then 0 else 1)\<rparr>
      else if a = 0xdd01 then m\<lparr>prb := v, talk := talk m @ [Got v]\<rparr>
      else if a = 0xdd02 then m\<lparr>ddra := v\<rparr>
      else if a = 0xdd03 then m\<lparr>ddrb := v, talk := talk m @ (if v = 0xff then [Ready] else [])\<rparr>
      else m\<lparr>c_env := io_write p a v (c_env m)\<rparr>)"

definition rd :: "'e c64_board \<Rightarrow> ushort \<Rightarrow> 'e cpu \<Rightarrow> uchar \<times> 'e cpu" where
  "rd p a m =
     (if a = 1 then (P01 m, m)
      else if is_io a \<and> io_visible (P01 m) then read_io p a m
      else if rom_visible (P01 m) a then (rom p a, m)
      else (ram m a, m))"

definition wr :: "'e c64_board \<Rightarrow> ushort \<Rightarrow> uchar \<Rightarrow> 'e cpu \<Rightarrow> 'e cpu" where
  "wr p a v m =
     (if a = 1 then m\<lparr>P01 := v\<rparr>
      else if is_io a \<and> io_visible (P01 m) then write_io p a v m
      else m\<lparr>ram := (ram m)(a := v)\<rparr>)"

section \<open>Instructions\<close>

definition set_nz :: "uchar \<Rightarrow> 'e cpu \<Rightarrow> 'e cpu" where
  "set_nz v m = m\<lparr>fZ := (v = 0), fN := bit v 7\<rparr>"

definition lda_imm :: "uchar \<Rightarrow> 'e cpu \<Rightarrow> 'e cpu" where "lda_imm v m = set_nz v (m\<lparr>rA := v\<rparr>)"
definition ldx_imm :: "uchar \<Rightarrow> 'e cpu \<Rightarrow> 'e cpu" where "ldx_imm v m = set_nz v (m\<lparr>rX := v\<rparr>)"
definition ldy_imm :: "uchar \<Rightarrow> 'e cpu \<Rightarrow> 'e cpu" where "ldy_imm v m = set_nz v (m\<lparr>rY := v\<rparr>)"

definition lda :: "'e c64_board \<Rightarrow> ushort \<Rightarrow> 'e cpu \<Rightarrow> 'e cpu" where
  "lda p a m = (case rd p a m of (v, m) \<Rightarrow> lda_imm v m)"
definition ldx :: "'e c64_board \<Rightarrow> ushort \<Rightarrow> 'e cpu \<Rightarrow> 'e cpu" where
  "ldx p a m = (case rd p a m of (v, m) \<Rightarrow> ldx_imm v m)"
definition ldy :: "'e c64_board \<Rightarrow> ushort \<Rightarrow> 'e cpu \<Rightarrow> 'e cpu" where
  "ldy p a m = (case rd p a m of (v, m) \<Rightarrow> ldy_imm v m)"

definition sta :: "'e c64_board \<Rightarrow> ushort \<Rightarrow> 'e cpu \<Rightarrow> 'e cpu" where "sta p a m = wr p a (rA m) m"
definition stx :: "'e c64_board \<Rightarrow> ushort \<Rightarrow> 'e cpu \<Rightarrow> 'e cpu" where "stx p a m = wr p a (rX m) m"

text \<open>\<open>(z),y\<close>: the address is in the zero page at z and z + 1.\<close>

definition pointer :: "ushort \<Rightarrow> 'e cpu \<Rightarrow> ushort" where
  "pointer z m = word16_le (ram m z) (ram m (z + 1))"

definition lda_iy :: "'e c64_board \<Rightarrow> ushort \<Rightarrow> 'e cpu \<Rightarrow> 'e cpu" where
  "lda_iy p z m = lda p (pointer z m + ucast (rY m)) m"
definition sta_iy :: "'e c64_board \<Rightarrow> ushort \<Rightarrow> 'e cpu \<Rightarrow> 'e cpu" where
  "sta_iy p z m = sta p (pointer z m + ucast (rY m)) m"

definition tax :: "'e cpu \<Rightarrow> 'e cpu" where "tax m = ldx_imm (rA m) m"
definition txa :: "'e cpu \<Rightarrow> 'e cpu" where "txa m = lda_imm (rX m) m"
definition tay :: "'e cpu \<Rightarrow> 'e cpu" where "tay m = ldy_imm (rA m) m"
definition txs :: "'e cpu \<Rightarrow> 'e cpu" where "txs m = m\<lparr>rS := rX m\<rparr>"

definition and_imm :: "uchar \<Rightarrow> 'e cpu \<Rightarrow> 'e cpu" where "and_imm v m = lda_imm (rA m AND v) m"
definition ora_imm :: "uchar \<Rightarrow> 'e cpu \<Rightarrow> 'e cpu" where "ora_imm v m = lda_imm (rA m OR v) m"
definition eor_imm :: "uchar \<Rightarrow> 'e cpu \<Rightarrow> 'e cpu" where "eor_imm v m = lda_imm (rA m XOR v) m"

definition cmp_imm :: "uchar \<Rightarrow> 'e cpu \<Rightarrow> 'e cpu" where "cmp_imm v m = set_nz (rA m - v) m"
definition cpy_imm :: "uchar \<Rightarrow> 'e cpu \<Rightarrow> 'e cpu" where "cpy_imm v m = set_nz (rY m - v) m"
definition cmp :: "'e c64_board \<Rightarrow> ushort \<Rightarrow> 'e cpu \<Rightarrow> 'e cpu" where
  "cmp p a m = (case rd p a m of (v, m) \<Rightarrow> cmp_imm v m)"

definition inc :: "'e c64_board \<Rightarrow> ushort \<Rightarrow> 'e cpu \<Rightarrow> 'e cpu" where
  "inc p a m = (case rd p a m of (v, m) \<Rightarrow> set_nz (v + 1) (wr p a (v + 1) m))"

definition dec :: "'e c64_board \<Rightarrow> ushort \<Rightarrow> 'e cpu \<Rightarrow> 'e cpu" where
  "dec p a m = (case rd p a m of (v, m) \<Rightarrow> set_nz (v - 1) (wr p a (v - 1) m))"

definition bit_abs :: "'e c64_board \<Rightarrow> ushort \<Rightarrow> 'e cpu \<Rightarrow> 'e cpu" where
  "bit_abs p a m = (case rd p a m of (v, m) \<Rightarrow> m\<lparr>fZ := (rA m AND v = 0), fN := bit v 7\<rparr>)"

definition stack_cell :: "uchar \<Rightarrow> ushort" where "stack_cell s = 0x0100 + ucast s"

definition pha :: "'e cpu \<Rightarrow> 'e cpu" where
  "pha m = m\<lparr>ram := (ram m)(stack_cell (rS m) := rA m), rS := rS m - 1\<rparr>"
definition pla :: "'e cpu \<Rightarrow> 'e cpu" where
  "pla m = (let s = rS m + 1 in lda_imm (ram m (stack_cell s)) (m\<lparr>rS := s\<rparr>))"

text \<open>A piece of straight-line code is the list of its instructions.\<close>

fun asm :: "('m \<Rightarrow> 'm) list \<Rightarrow> 'm \<Rightarrow> 'm" where
  "asm [] m = m"
| "asm (i # is) m = asm is (i m)"

end
