(* ===== verification/Server64.thy ===== *)
theory Server64
  imports Mos6510
begin

text \<open>
  server64.asm with the macros of server.h, for the target c64: the server on the Commodore. It
  runs in the interrupt of the system when the host has strobed a command. \<open>org\<close> is the address it
  was assembled for, \<open>eof\<close> the address behind it. Its own code and the return addresses of its
  subroutines are not part of the memory of the model.
\<close>

section \<open>server.h\<close>

abbreviation zp_start :: ushort where "zp_start \<equiv> 0xc1"
abbreviation zp_end :: ushort where "zp_end \<equiv> 0xc3"
abbreviation zp_mem :: ushort where "zp_mem \<equiv> 0xfe"
abbreviation zp_bank :: ushort where "zp_bank \<equiv> 0xff"
abbreviation bstart :: ushort where "bstart \<equiv> 0x2b"
abbreviation bend :: ushort where "bend \<equiv> 0x2d"
abbreviation zp_mode :: ushort where "zp_mode \<equiv> 0x9d"
abbreviation zp_cursor :: ushort where "zp_cursor \<equiv> 0xcc"
abbreviation memtop :: ushort where "memtop \<equiv> 0x0283"

definition sysirq :: ushort where "sysirq = 0xea31"
definition jiffy :: ushort where "jiffy = 0xffea"
definition insnewl :: ushort where "insnewl = 0xa659"
definition restxtpt :: ushort where "restxtpt = 0xa68e"
definition warmst :: ushort where "warmst = 0xa7ae"
definition repl :: ushort where "repl = 0xa480"

definition lo16 :: "ushort \<Rightarrow> uchar" where "lo16 a = ucast a"
definition hi16 :: "ushort \<Rightarrow> uchar" where "hi16 a = ucast (drop_bit 8 a)"

definition Command_load :: uchar where "Command_load = 0x01"
definition Command_save :: uchar where "Command_save = 0x02"
definition Command_poke :: uchar where "Command_poke = 0x03"
definition Command_peek :: uchar where "Command_peek = 0x04"
definition Command_jump :: uchar where "Command_jump = 0x05"
definition Command_run :: uchar where "Command_run = 0x06"
definition Command_inject :: uchar where "Command_inject = 0x07"
definition Command_identify :: uchar where "Command_identify = 0xfe"

lemmas Command_defs = Command_load_def Command_save_def Command_poke_def Command_peek_def Command_jump_def
  Command_run_def Command_inject_def Command_identify_def

partial_function (option) wait64 :: "'e c64_board \<Rightarrow> 'e cpu \<Rightarrow> 'e cpu option" where
  "wait64 p m =
     (let m = asm [lda p 0xdd0d, and_imm 0x10] m
      in if fZ m then wait64 p m else Some m)"

declare wait64.simps [code]

definition ack64 :: "'e c64_board \<Rightarrow> 'e cpu \<Rightarrow> 'e cpu" where
  "ack64 p m = asm [lda p 0xdd00, eor_imm 0x04, sta p 0xdd00] m"

definition read64 :: "'e c64_board \<Rightarrow> 'e cpu \<Rightarrow> 'e cpu option" where
  "read64 p m = do { m \<leftarrow> wait64 p m; Some (asm [ldx p 0xdd01, ack64 p] m) }"

definition write64 :: "'e c64_board \<Rightarrow> 'e cpu \<Rightarrow> 'e cpu option" where
  "write64 p m = wait64 p (asm [sta p 0xdd01, ack64 p] m)"

definition output64 :: "'e c64_board \<Rightarrow> 'e cpu \<Rightarrow> 'e cpu option" where
  "output64 p m = do { m \<leftarrow> wait64 p m; Some (asm [lda_imm 0xff, sta p 0xdd03] m) }"

definition input64 :: "'e c64_board \<Rightarrow> 'e cpu \<Rightarrow> 'e cpu" where
  "input64 p m = asm [lda_imm 0x00, sta p 0xdd03] m"

text \<open>Whether to go round the loop again.\<close>

definition next64 :: "'e c64_board \<Rightarrow> 'e cpu \<Rightarrow> bool \<times> 'e cpu" where
  "next64 p m =
     (let m = inc p zp_start m;
          m = (if \<not> fZ m then m else inc p (zp_start + 1) m);
          m = asm [lda p (zp_start + 1), cmp p (zp_end + 1)] m
      in if \<not> fZ m then (True, m)
         else (let m = asm [lda p zp_start, cmp p zp_end] m in (\<not> fZ m, m)))"

definition checkBasic :: "'e c64_board \<Rightarrow> 'e cpu \<Rightarrow> 'e cpu" where
  "checkBasic p m =
     (let m = asm [lda p zp_start, cmp p bstart] m in
      if \<not> fZ m then asm [lda_imm 0x01, pha] m
      else
        (let m = asm [lda p (zp_start + 1), cmp p (bstart + 1)] m
         in if \<not> fZ m then asm [lda_imm 0x01, pha] m else asm [lda_imm 0x00, pha] m))"

definition relinkBasic :: "'e c64_board \<Rightarrow> 'e cpu \<Rightarrow> 'e cpu" where
  "relinkBasic p m =
     (let m = pla m
      in if \<not> fZ m then m
         else asm [lda p zp_end, sta p bend, lda p (zp_end + 1), sta p (bend + 1)] m)"

definition screenOff :: "'e c64_board \<Rightarrow> 'e cpu \<Rightarrow> 'e cpu" where
  "screenOff p m =
     (let m = bit_abs p zp_mem m in if fN m then m else asm [lda_imm 0x0b, sta p 0xd011] m)"

definition screenOn :: "'e c64_board \<Rightarrow> 'e cpu \<Rightarrow> 'e cpu" where
  "screenOn p m =
     (let m = bit_abs p zp_mem m in if fN m then m else asm [lda_imm 0x1b, sta p 0xd011] m)"

section \<open>Installing the server\<close>

text \<open>The address of the interrupt handler, \<open>irq\<close>, is \<open>handler\<close>. The model has no interrupt flag, so the
  \<open>sei\<close> and \<open>cli\<close> around the change of the vector are not in it.\<close>

definition install64 :: "'e c64_board \<Rightarrow> ushort \<Rightarrow> ushort \<Rightarrow> 'e cpu \<Rightarrow> 'e cpu" where
  "install64 p org handler m =
     asm [lda_imm 0x00, sta p 0xdd03,
          lda p 0xdd02, ora_imm 0x04, sta p 0xdd02,
          lda p 0xdd0d,
          lda_imm (lo16 handler), ldx_imm (hi16 handler), sta p 0x0314, stx p 0x0315,
          lda_imm 0x4c, sta p 0x03e8, lda_imm (lo16 org), sta p 0x03e9, lda_imm (hi16 org), sta p 0x03ea] m"

definition uninstall64 :: "'e c64_board \<Rightarrow> 'e cpu \<Rightarrow> 'e cpu" where
  "uninstall64 p m =
     asm [lda_imm (hi16 sysirq), ldx_imm (lo16 sysirq), sta p 0x0314, stx p 0x0315] m"

section \<open>The commands\<close>

text \<open>
  A command ends by going on at \<open>irq.done\<close>, or leaves the interrupt for an address: with a jump,
  through the return address on the stack, or through the flags and the address there.
\<close>

datatype exit64 = Done | Jmp ushort | Rts ushort | Rti uchar ushort

text \<open>The loops of load and save, up to the label that each command continues at.\<close>

definition store_fast :: "'e c64_board \<Rightarrow> 'e cpu \<Rightarrow> 'e cpu option" where
  "store_fast p m =
     do { m \<leftarrow> wait64 p m; Some (asm [lda p 0xdd01, sta_iy p zp_start, ack64 p] m) }"

definition store_slow :: "'e c64_board \<Rightarrow> 'e cpu \<Rightarrow> 'e cpu option" where
  "store_slow p m =
     do { m \<leftarrow> wait64 p m;
          Some (asm [lda p 0xdd01, ldx_imm 0x33, stx p 0x01, sta_iy p zp_start,
                     lda_imm 0x37, sta p 0x01, ack64 p] m) }"

definition fetch_fast :: "'e c64_board \<Rightarrow> 'e cpu \<Rightarrow> 'e cpu option" where
  "fetch_fast p m = write64 p (lda_iy p zp_start m)"

definition fetch_slow :: "'e c64_board \<Rightarrow> 'e cpu \<Rightarrow> 'e cpu option" where
  "fetch_slow p m =
     write64 p (asm [lda p zp_mem, sta p 0x01, lda_iy p zp_start, ldx_imm 0x37, stx p 0x01] m)"

text \<open>\<open>!loop:\<close> with one of these bodies, and \<open>:next()\<close>.\<close>

partial_function (option) loop64 :: "'e c64_board \<Rightarrow> ('e cpu \<Rightarrow> 'e cpu option) \<Rightarrow> 'e cpu \<Rightarrow> 'e cpu option" where
  "loop64 p body m =
     do { m \<leftarrow> body m;
          let (again, m) = next64 p m;
          if again then loop64 p body m else Some m }"

declare loop64.simps [code]

text \<open>\<open>jsr read\<close> and \<open>stx\<close>, for one address after the other.\<close>

fun reads_to :: "'e c64_board \<Rightarrow> ushort list \<Rightarrow> 'e cpu \<Rightarrow> 'e cpu option" where
  "reads_to p [] m = Some m"
| "reads_to p (z # zs) m = do { m \<leftarrow> read64 p m; reads_to p zs (stx p z m) }"

definition readHeader :: "'e c64_board \<Rightarrow> 'e cpu \<Rightarrow> 'e cpu option" where
  "readHeader p m = reads_to p [zp_mem, zp_bank, zp_start, zp_start + 1, zp_end, zp_end + 1] m"

definition load64 :: "'e c64_board \<Rightarrow> 'e cpu \<Rightarrow> 'e cpu option" where
  "load64 p m =
     do { m \<leftarrow> readHeader p m;
          let m = asm [screenOff p, checkBasic p, ldy_imm 0x00, lda p zp_mem, and_imm 0x7f, cmp_imm 0x37] m;
          m \<leftarrow> (if \<not> fZ m then loop64 p (store_slow p) m else loop64 p (store_fast p) m);
          Some (asm [relinkBasic p, screenOn p] m) }"

definition save64 :: "'e c64_board \<Rightarrow> 'e cpu \<Rightarrow> 'e cpu option" where
  "save64 p m =
     do { m \<leftarrow> readHeader p m;
          m \<leftarrow> output64 p (screenOff p m);
          let m = asm [ldy_imm 0x00, lda p zp_mem, cmp_imm 0x37] m;
          m \<leftarrow> (if fZ m then loop64 p (fetch_fast p) m else loop64 p (fetch_slow p) m);
          Some (asm [lda_imm 0x00, sta p 0xdd03, screenOn p] m) }"

text \<open>The four bytes that start a peek and a poke.\<close>

definition readAddress :: "'e c64_board \<Rightarrow> 'e cpu \<Rightarrow> 'e cpu option" where
  "readAddress p m = reads_to p [zp_mem, zp_bank, zp_start, zp_start + 1] m"

definition poke64 :: "'e c64_board \<Rightarrow> 'e cpu \<Rightarrow> 'e cpu option" where
  "poke64 p m =
     do { m \<leftarrow> readAddress p m;
          m \<leftarrow> wait64 p (ldy_imm 0x00 m);
          Some (asm [lda p 0xdd01, tax, ack64 p, txa, ldx p zp_mem, stx p 0x01, sta_iy p zp_start,
                     lda_imm 0x37, sta p 0x01] m) }"

definition peek64 :: "'e c64_board \<Rightarrow> 'e cpu \<Rightarrow> 'e cpu option" where
  "peek64 p m =
     do { m \<leftarrow> readAddress p m;
          m \<leftarrow> output64 p m;
          m \<leftarrow> write64 p (asm [ldy_imm 0x00, ldx p zp_mem, stx p 0x01, lda_iy p zp_start, ldx_imm 0x37, stx p 0x01] m);
          Some (input64 p m) }"

text \<open>\<open>rti\<close> takes the flags and then the address off the stack, \<open>rts\<close> the address less one.\<close>

definition pop :: "'e cpu \<Rightarrow> uchar \<times> 'e cpu" where
  "pop m = (let s = rS m + 1 in (ram m (stack_cell s), m\<lparr>rS := s\<rparr>))"

definition rti :: "'e cpu \<Rightarrow> exit64 \<times> 'e cpu" where
  "rti m = (let (f, m) = pop m; (l, m) = pop m; (h, m) = pop m in (Rti f (word16_le l h), m))"

definition rts :: "'e cpu \<Rightarrow> exit64 \<times> 'e cpu" where
  "rts m = (let (l, m) = pop m; (h, m) = pop m in (Rts (word16_le l h + 1), m))"

definition jump64 :: "'e c64_board \<Rightarrow> 'e cpu \<Rightarrow> (exit64 \<times> 'e cpu) option" where
  "jump64 p m =
     do { m \<leftarrow> reads_to p [zp_mem, zp_bank] m;
          let m = asm [ldx_imm 0xff, txs, lda_imm (hi16 repl), pha, lda_imm (lo16 repl - 1), pha] m;
          m \<leftarrow> read64 p m; let m = asm [txa, pha] m;
          m \<leftarrow> read64 p m; let m = asm [txa, pha] m;
          Some (rti (asm [lda p zp_mem, sta p 0x01, lda_imm 0x00, tax, tay, pha] m)) }"

definition run64 :: "'e c64_board \<Rightarrow> 'e cpu \<Rightarrow> exit64 \<times> 'e cpu" where
  "run64 p m =
     (Jmp warmst,
      asm [uninstall64 p, ldx_imm 0xff, txs, lda_imm 0x01, sta p zp_cursor,
           rom_jsr p insnewl, rom_jsr p restxtpt, lda_imm 0x00, sta p zp_mode] m)"

text \<open>\<open>ret\<close> is the address of the label \<open>return\<close>.\<close>

definition inject64 :: "'e c64_board \<Rightarrow> ushort \<Rightarrow> 'e cpu \<Rightarrow> (exit64 \<times> 'e cpu) option" where
  "inject64 p ret m =
     do { let m = asm [lda_imm (hi16 ret), pha, lda_imm (lo16 ret), pha] m;
          m \<leftarrow> read64 p m; let m = asm [txa, pha] m;
          m \<leftarrow> read64 p m; Some (rts (asm [txa, pha] m)) }"

text \<open>The block \<open>Server\<close>.\<close>

definition Server_size :: uchar where "Server_size = 5"
definition Server_id :: "uchar list" where "Server_id = [0x58, 0x4c, 0x49, 0x4e, 0x4b]"
definition Server_version :: uchar where "Server_version = 0x10"
definition Server_type :: uchar where "Server_type = 0x00"
definition Server_machine :: uchar where "Server_machine = 0x00"

fun write_all :: "'e c64_board \<Rightarrow> uchar list \<Rightarrow> 'e cpu \<Rightarrow> 'e cpu option" where
  "write_all p [] m = Some m"
| "write_all p (b # bs) m = do { m \<leftarrow> write64 p (lda_imm b m); write_all p bs m }"

definition identify64 :: "'e c64_board \<Rightarrow> ushort \<Rightarrow> ushort \<Rightarrow> 'e cpu \<Rightarrow> 'e cpu option" where
  "identify64 p org eof m =
     do { m \<leftarrow> output64 p m;
          m \<leftarrow> write_all p (Server_size # Server_id @ [Server_version, Server_machine, Server_type,
                 lo16 org, hi16 org, lo16 eof, hi16 eof]) m;
          m \<leftarrow> write64 p (lda p memtop m);
          m \<leftarrow> write64 p (lda p (memtop + 1) m);
          Some (input64 p m) }"

section \<open>The interrupt handler\<close>

text \<open>\<open>irq.done\<close> updates the clock and goes on in the handler of the system.\<close>

definition done64 :: "'e c64_board \<Rightarrow> 'e cpu \<Rightarrow> exit64 \<times> 'e cpu" where
  "done64 p m = (Jmp (sysirq + 3), rom_jsr p jiffy m)"

definition dispatch64 :: "'e c64_board \<Rightarrow> ushort \<Rightarrow> ushort \<Rightarrow> ushort \<Rightarrow> 'e cpu \<Rightarrow> (exit64 \<times> 'e cpu) option" where
  "dispatch64 p org ret eof m =
     (if rY m = Command_load then do { m \<leftarrow> load64 p m; Some (Done, m) }
      else if rY m = Command_save then do { m \<leftarrow> save64 p m; Some (Done, m) }
      else if rY m = Command_peek then do { m \<leftarrow> peek64 p m; Some (Done, m) }
      else if rY m = Command_poke then do { m \<leftarrow> poke64 p m; Some (Done, m) }
      else if rY m = Command_jump then jump64 p m
      else if rY m = Command_run then Some (run64 p m)
      else if rY m = Command_inject then inject64 p ret m
      else if rY m = Command_identify then do { m \<leftarrow> identify64 p org eof m; Some (Done, m) }
      else Some (Done, m))"

definition serve64 :: "'e c64_board \<Rightarrow> ushort \<Rightarrow> ushort \<Rightarrow> ushort \<Rightarrow> 'e cpu \<Rightarrow> (exit64 \<times> 'e cpu) option" where
  "serve64 p org ret eof m =
     (let m = asm [lda p 0xdd0d, and_imm 0x10] m in
      if fZ m then Some (Done, m)
      else dispatch64 p org ret eof (asm [ldy p 0xdd01, ack64 p] m))"

definition irq64 :: "'e c64_board \<Rightarrow> ushort \<Rightarrow> ushort \<Rightarrow> ushort \<Rightarrow> 'e cpu \<Rightarrow> (exit64 \<times> 'e cpu) option" where
  "irq64 p org ret eof m =
     do { (exit, m) \<leftarrow> serve64 p org ret eof m;
          Some (if exit = Done then done64 p m else (exit, m)) }"

end
