(* ===== verification/Server64_Laws.thy ===== *)
theory Server64_Laws
  imports Server64
begin

text \<open>
  What the commands of the server do to the memory of the C64 and on the data lines, for any
  host that strobes the bytes of a conversation at its own pace.
\<close>

section \<open>Bytes and addresses\<close>

lemma bit_flag: "bit (0x10 :: int) n \<longleftrightarrow> n = 4"
  using bit_exp_iff [of 4 n, where 'a = int] by auto

lemma and_flag: "(v :: uchar) AND 0x10 = (if bit v 4 then 0x10 else 0)"
proof (rule bit_word_eqI)
  fix n
  show "bit (v AND 0x10) n \<longleftrightarrow> bit (if bit v 4 then 0x10 else 0 :: uchar) n"
    by (cases "bit v 4") (auto simp: bit_and_iff bit_flag)
qed

lemma flip_bit2: "bit ((v :: uchar) XOR 4) 2 \<longleftrightarrow> \<not> bit v 2"
  by (auto simp: bit_simps numeral_eq_Suc)

lemma pointer_bytes [simp]: "word16_le (lo16 a) (hi16 a) = a"
  by (rule bit_word_eqI) (auto simp: word16_le_def lo16_def hi16_def bit_simps)

lemma bytes_pointer [simp]: "lo16 (word16_le l h) = l" "hi16 (word16_le l h) = h"
  by (rule bit_word_eqI; auto simp: word16_le_def lo16_def hi16_def bit_simps dest: bit_imp_le_length)+

lemma pointer_eq_iff: "a = (b :: ushort) \<longleftrightarrow> lo16 a = lo16 b \<and> hi16 a = hi16 b"
  by (metis pointer_bytes)

lemma unat_bytes: "unat (lo16 a) = unat a mod 256" "unat (hi16 a) = unat a div 256"
proof -
  show "unat (lo16 a) = unat a mod 256" by (simp add: lo16_def unsigned_ucast_eq take_bit_eq_mod)
  have "unat a < 256 * 256" using unsigned_less [of a] by simp
  then have "unat a div 256 < 256" by (rule less_mult_imp_div_less)
  moreover have d: "unat (drop_bit 8 a) = unat a div 256"
    using \<open>unat a < 256 * 256\<close> by (subst unsigned_drop_bit_eq) (simp add: drop_bit_eq_div take_bit_nat_eq_self)
  ultimately show "unat (hi16 a) = unat a div 256"
    by (simp add: hi16_def unsigned_ucast_eq take_bit_nat_eq_self d)
qed

lemma bytes_inc: "lo16 (a + 1) = lo16 a + 1" "hi16 (a + 1) = (if lo16 a + 1 = 0 then hi16 a + 1 else hi16 a)"
proof -
  define h l where "h = unat a div 256" and "l = unat a mod 256"
  have n: "unat a = 256 * h + l" "l < 256" by (simp_all add: h_def l_def)
  have "unat a < 256 * 256" using unsigned_less [of a] by simp
  then have h: "h < 256" unfolding h_def by (rule less_mult_imp_div_less)
  have a: "unat (a + 1) = (256 * h + Suc l) mod (256 * 256)" by (simp add: unat_word_ariths n)
  have z: "lo16 a + 1 = 0 \<longleftrightarrow> l = 255"
    using n(2) by (auto simp: unat_eq_0 [symmetric] unat_word_ariths unat_bytes dest: dvd_imp_le simp flip: l_def)
  show "lo16 (a + 1) = lo16 a + 1"
    by (simp add: word_unat_eq_iff unat_bytes a unat_word_ariths mod_mod_cancel mod_Suc_eq n(1) del: mult_numeral_1)
  show "hi16 (a + 1) = (if lo16 a + 1 = 0 then hi16 a + 1 else hi16 a)"
  proof (cases "l = 255")
    case True
    then have "unat (a + 1) = 256 * (Suc h mod 256)" using a mult_mod_right [of 256 "Suc h" 256] by (simp add: add.commute)
    then show ?thesis using True z by (simp add: word_unat_eq_iff unat_bytes unat_word_ariths flip: h_def)
  next
    case False
    then have "unat (a + 1) = 256 * h + Suc l" "Suc l < 256" using a n(2) h by simp_all
    then show ?thesis using False z by (simp add: word_unat_eq_iff unat_bytes flip: h_def)
  qed
qed

section \<open>Running straight-line code\<close>

lemmas machine_defs = set_nz_def lda_imm_def ldx_imm_def ldy_imm_def lda_def ldx_def ldy_def sta_def stx_def
  lda_iy_def sta_iy_def tax_def txa_def tay_def txs_def and_imm_def ora_imm_def eor_imm_def
  cmp_imm_def cpy_imm_def cmp_def inc_def dec_def bit_abs_def pha_def pla_def rd_def wr_def

lemma port_default [simp]: "io_visible 0x37" "\<not> io_visible 0x33"
  by (simp_all add: io_visible_def)

lemma is_io_cia [simp]: "is_io 0xdd00" "is_io 0xdd01" "is_io 0xdd02" "is_io 0xdd03" "is_io 0xdd0d" "is_io 0xd011"
  by (simp_all add: is_io_def)

lemma low_memory [simp]: "a < 0xa000 \<Longrightarrow> \<not> is_io a" "a < 0xa000 \<Longrightarrow> \<not> rom_visible c a"
proof -
  show "a < 0xa000 \<Longrightarrow> \<not> is_io a" by (simp add: is_io_def word_less_nat_alt word_le_nat_alt)
  then show "a < 0xa000 \<Longrightarrow> \<not> rom_visible c a" by (auto simp: rom_visible_def word_less_nat_alt word_le_nat_alt)
qed

lemma unat_stack_cell: "unat (stack_cell s) = 256 + unat s"
proof -
  have s: "unat s < 256" using unsigned_less [of s] by simp
  have "unat (ucast s :: ushort) = unat s" using s by (simp add: unsigned_ucast_eq take_bit_nat_eq_self)
  then show ?thesis using s by (simp add: stack_cell_def unat_word_ariths)
qed

lemma stack_cell_range: "0x0100 \<le> stack_cell s" "stack_cell s < 0x0200"
  using unsigned_less [of s] by (simp_all add: word_le_nat_alt word_less_nat_alt unat_stack_cell)

lemma stack_cell_eq [simp]: "stack_cell s = stack_cell t \<longleftrightarrow> s = t"
  by (simp add: word_unat_eq_iff unat_stack_cell)

lemma stack_cell_low [simp]: "c < 0x0100 \<Longrightarrow> stack_cell s \<noteq> c" "c < 0x0100 \<Longrightarrow> c \<noteq> stack_cell s"
  using stack_cell_range(1) [of s] by auto

text \<open>What matters of a state: not the accumulator, X, the flags and the levels of the lines.\<close>

definition view :: "'e cpu \<Rightarrow> uchar \<times> uchar \<times> uchar \<times> (ushort \<Rightarrow> uchar) \<times> uchar \<times> bus_event list \<times> nat" where
  "view m = (rY m, rS m, P01 m, ram m, ddrb m, talk m, flips m)"

lemma view_eq [simp]:
  "view m' = view m \<longleftrightarrow> rY m' = rY m \<and> rS m' = rS m \<and> P01 m' = P01 m \<and> ram m' = ram m \<and> ddrb m' = ddrb m \<and>
     talk m' = talk m \<and> flips m' = flips m"
  by (simp add: view_def)

lemma ack_flips:
  "io_visible (P01 m) \<Longrightarrow> view (ack64 p m) = view (m\<lparr>flips := Suc (flips m)\<rparr>) \<and> rX (ack64 p m) = rX m \<and>
     c_env (ack64 p m) = c_env m"
  by (simp add: ack64_def machine_defs read_io_def write_io_def flip_bit2)

definition advanced :: "'e cpu \<Rightarrow> ushort \<Rightarrow> uchar" where
  "advanced m = (ram m)(zp_start := lo16 (pointer zp_start m + 1), zp_start + 1 := hi16 (pointer zp_start m + 1))"

lemma next_steps:
  assumes "next64 p m = (again, m')"
  shows "(again \<longleftrightarrow> pointer zp_start m + 1 \<noteq> pointer zp_end m) \<and> view m' = view (m\<lparr>ram := advanced m\<rparr>) \<and> c_env m' = c_env m"
proof -
  have i: "ram m 0xc1 + 1 = lo16 (pointer zp_start m + 1)"
    "hi16 (pointer zp_start m + 1) = (if ram m 0xc1 + 1 = 0 then ram m 0xc2 + 1 else ram m 0xc2)"
    by (simp_all add: pointer_def bytes_inc)
  show ?thesis
    using assms
    by (auto simp: next64_def machine_defs Let_def advanced_def pointer_eq_iff [of "_ + 1"] i
      pointer_def [of zp_end] fun_eq_iff split: if_splits)
qed

section \<open>Memory\<close>

fun put_cells :: "(ushort \<times> uchar) list \<Rightarrow> (ushort \<Rightarrow> uchar) \<Rightarrow> ushort \<Rightarrow> uchar" where
  "put_cells [] r = r"
| "put_cells ((z, b) # zs) r = put_cells zs (r(z := b))"

text \<open>Bytes stored from an address on, round the end of the memory.\<close>

definition stored :: "(ushort \<Rightarrow> uchar) \<Rightarrow> ushort \<Rightarrow> uchar list \<Rightarrow> ushort \<Rightarrow> uchar" where
  "stored r a bs x = (if unat (x - a) < length bs then bs ! unat (x - a) else r x)"

lemma stored_Nil [simp]: "stored r a [] = r"
  by (simp add: stored_def fun_eq_iff)

lemma unat_diff_Suc: "x \<noteq> a \<Longrightarrow> unat (x - a) = Suc (unat (x - (a + 1)))" for x a :: ushort
proof -
  assume "x \<noteq> a"
  then have "unat (x - a) \<noteq> 0" by (simp add: unat_eq_0)
  then have "unat (x - a - 1) = unat (x - a) - 1" by (simp add: unat_minus_one unat_eq_0)
  then show ?thesis using \<open>unat (x - a) \<noteq> 0\<close> by (simp add: algebra_simps)
qed

lemma stored_Cons: "length bs < 65535 \<Longrightarrow> stored r a (b # bs) = stored (r(a := b)) (a + 1) bs"
proof
  fix x assume l: "length bs < 65535"
  have "unat (- 1 :: ushort) = 65535" by (simp add: unsigned_minus_1_eq_mask mask_eq_exp_minus_1)
  then show "stored r a (b # bs) x = stored (r(a := b)) (a + 1) bs x"
    using l by (cases "x = a") (auto simp: stored_def unat_diff_Suc)
qed

lemma stored_upd: "x \<noteq> c \<Longrightarrow> stored (r(c := v)) a bs x = stored r a bs x"
  by (simp add: stored_def)

text \<open>What the processor reads at an address that is not I/O when the port at 1 is \<open>c\<close>.\<close>

definition seen :: "'e c64_board \<Rightarrow> uchar \<Rightarrow> (ushort \<Rightarrow> uchar) \<Rightarrow> ushort \<Rightarrow> uchar" where
  "seen p c r a = (if rom_visible c a then rom p a else r a)"

lemma no_bytes: "length bs < 65536 \<Longrightarrow> (word_of_nat (length bs) :: ushort) = 0 \<longleftrightarrow> bs = []"
  by (cases bs) (auto simp: word_of_nat_eq_0_iff simp del: of_nat_Suc dest!: dvd_imp_le)

text \<open>The cells in which the server keeps \<open>start\<close> and \<open>end\<close>.\<close>

definition transfer_cell :: "ushort \<Rightarrow> bool" where
  "transfer_cell a \<longleftrightarrow> a = zp_start \<or> a = zp_start + 1 \<or> a = zp_end \<or> a = zp_end + 1"

definition stores :: "'e c64_board \<Rightarrow> ('e \<Rightarrow> bus_event list) \<Rightarrow> ('e cpu \<Rightarrow> 'e cpu option) \<Rightarrow> (ushort \<Rightarrow> bool) \<Rightarrow> bool" where
  "stores p line body ok \<longleftrightarrow> (\<forall>m x es. P01 m = 0x37 \<and> ddrb m = 0 \<and> rY m = 0 \<and> line (c_env m) = Sent x # es \<and>
     ok (pointer zp_start m) \<longrightarrow>
     (\<exists>m'. body m = Some m' \<and> line (c_env m') = es \<and>
       view m' = view (m\<lparr>ram := (ram m)(pointer zp_start m := x), talk := talk m @ [Sent x], flips := Suc (flips m)\<rparr>)))"

definition fetches :: "'e c64_board \<Rightarrow> ('e \<Rightarrow> bus_event list) \<Rightarrow> ('e cpu \<Rightarrow> 'e cpu option) \<Rightarrow> (uchar \<Rightarrow> bool) \<Rightarrow> bool" where
  "fetches p line body config \<longleftrightarrow> (\<forall>m ev es. P01 m = 0x37 \<and> rY m = 0 \<and> line (c_env m) = ev # es \<and>
     config (ram m zp_mem) \<and> pointer zp_start m \<noteq> 1 \<and> \<not> (is_io (pointer zp_start m) \<and> io_visible (ram m zp_mem)) \<longrightarrow>
     (\<exists>m'. body m = Some m' \<and> line (c_env m') = es \<and>
       view m' = view (m\<lparr>talk := talk m @ [Got (seen p (ram m zp_mem) (ram m) (pointer zp_start m))], flips := Suc (flips m)\<rparr>)))"

section \<open>A host that strobes\<close>

text \<open>
  \<open>line\<close> is what the host will still strobe, \<open>lit\<close> what it strobed last: its byte is on the lines
  until the next one. A look at the flag that finds nothing brings the next strobe nearer.
\<close>

locale strobe_line =
  fixes p :: "'e c64_board" and line :: "'e \<Rightarrow> bus_event list" and lit :: "'e \<Rightarrow> bus_event" and rank :: "'e \<Rightarrow> nat"
  assumes quiet: "icr p e = (v, e') \<Longrightarrow> line e \<noteq> [] \<Longrightarrow> \<not> bit v 4 \<Longrightarrow> line e' = line e \<and> rank e' < rank e"
    and strobe: "icr p e = (v, e') \<Longrightarrow> line e \<noteq> [] \<Longrightarrow> bit v 4 \<Longrightarrow> line e = lit e' # line e'"
    and pins_lit: "pins p e = (b, e') \<Longrightarrow> line e' = line e \<and> lit e' = lit e \<and> (\<forall>x. lit e = Sent x \<longrightarrow> b = x)"
    and io_line: "line (io_write p a v e) = line e" "lit (io_write p a v e) = lit e"
begin

lemma wait_strobe:
  assumes "io_visible (P01 m)" "line (c_env m) = ev # es"
  shows "\<exists>e. wait64 p m = Some (m\<lparr>rA := 0x10, fZ := False, fN := False, c_env := e\<rparr>) \<and> line e = es \<and> lit e = ev"
  using assms
proof (induction "rank (c_env m)" arbitrary: m rule: less_induct)
  case less
  obtain v e where v: "icr p (c_env m) = (v, e)" by fastforce
  let ?m = "asm [lda p 0xdd0d, and_imm 0x10] m"
  have m: "?m = m\<lparr>rA := v AND 0x10, fZ := (v AND 0x10 = 0), fN := bit (v AND 0x10) 7, c_env := e\<rparr>"
    using less.prems v by (simp add: machine_defs read_io_def)
  show ?case
  proof (cases "bit v 4")
    case True
    then have "wait64 p m = Some (m\<lparr>rA := 0x10, fZ := False, fN := False, c_env := e\<rparr>)"
      by (subst wait64.simps) (simp only: m Let_def, simp add: and_flag)
    with strobe [OF v _ True] less.prems(2) show ?thesis by auto
  next
    case False
    with quiet [OF v _ False] less.prems(2) have e: "line e = ev # es" "rank e < rank (c_env m)" by auto
    have "wait64 p m = wait64 p ?m" using False by (subst wait64.simps) (simp only: m Let_def, simp add: and_flag)
    with less.hyps [of ?m] e less.prems(1) show ?thesis by (simp only: m) auto
  qed
qed

lemma read_line:
  assumes "io_visible (P01 m)" "ddrb m = 0" "line (c_env m) = Sent x # es"
  shows "\<exists>m'. read64 p m = Some m' \<and> view m' = view (m\<lparr>talk := talk m @ [Sent x], flips := Suc (flips m)\<rparr>) \<and>
    rX m' = x \<and> line (c_env m') = es"
proof -
  obtain e where w: "wait64 p m = Some (m\<lparr>rA := 0x10, fZ := False, fN := False, c_env := e\<rparr>)" "line e = es" "lit e = Sent x"
    using wait_strobe [OF assms(1,3)] by blast
  obtain b e' where b: "pins p e = (b, e')" by fastforce
  with pins_lit [OF b] w have x: "b = x" "line e' = es" by auto
  let ?m = "m\<lparr>rA := 0x10, rX := x, fZ := (x = 0), fN := bit x 7, talk := talk m @ [Sent x], c_env := e'\<rparr>"
  have "ldx p 0xdd01 (m\<lparr>rA := 0x10, fZ := False, fN := False, c_env := e\<rparr>) = ?m"
    using assms(1,2) b x by (simp add: machine_defs read_io_def)
  then have "read64 p m = Some (ack64 p ?m)" using w(1) by (simp add: read64_def)
  then show ?thesis using ack_flips [of ?m p] assms(1) x(2) by simp
qed

lemma write_line:
  assumes "io_visible (P01 m)" "line (c_env m) = ev # es"
  shows "\<exists>m'. write64 p m = Some m' \<and> view m' = view (m\<lparr>talk := talk m @ [Got (rA m)], flips := Suc (flips m)\<rparr>) \<and>
    line (c_env m') = es"
proof -
  let ?m = "m\<lparr>prb := rA m, talk := talk m @ [Got (rA m)]\<rparr>"
  have "write64 p m = wait64 p (ack64 p ?m)" using assms(1) by (simp add: write64_def machine_defs write_io_def)
  moreover have a: "view (ack64 p ?m) = view (?m\<lparr>flips := Suc (flips m)\<rparr>)" "c_env (ack64 p ?m) = c_env m"
    using ack_flips [of ?m p] assms(1) by simp_all
  ultimately show ?thesis using wait_strobe [of "ack64 p ?m" ev es] assms by auto
qed

lemma stores_fast: "stores p line (store_fast p) (\<lambda>a. a \<noteq> 1 \<and> \<not> is_io a)"
  unfolding stores_def
proof (intro allI impI)
  fix m x es
  assume a: "P01 m = 0x37 \<and> ddrb m = 0 \<and> rY m = 0 \<and> line (c_env m) = Sent x # es \<and>
    (pointer zp_start m \<noteq> 1 \<and> \<not> is_io (pointer zp_start m))"
  then obtain e where w: "wait64 p m = Some (m\<lparr>rA := 0x10, fZ := False, fN := False, c_env := e\<rparr>)" "line e = es" "lit e = Sent x"
    using wait_strobe [of m "Sent x" es] by auto
  obtain b e' where b: "pins p e = (b, e')" by fastforce
  with pins_lit [OF b] w have x: "b = x" "line e' = es" by auto
  let ?m = "m\<lparr>rA := x, fZ := (x = 0), fN := bit x 7, ram := (ram m)(pointer zp_start m := x), talk := talk m @ [Sent x], c_env := e'\<rparr>"
  have "asm [lda p 0xdd01, sta_iy p zp_start] (m\<lparr>rA := 0x10, fZ := False, fN := False, c_env := e\<rparr>) = ?m"
    using a b x by (simp add: machine_defs read_io_def pointer_def)
  then have "store_fast p m = Some (ack64 p ?m)" using w(1) by (simp add: store_fast_def)
  then show "\<exists>m'. store_fast p m = Some m' \<and> line (c_env m') = es \<and>
      view m' = view (m\<lparr>ram := (ram m)(pointer zp_start m := x), talk := talk m @ [Sent x], flips := Suc (flips m)\<rparr>)"
    using ack_flips [of ?m p] a x(2) by simp
qed

lemma stores_slow: "stores p line (store_slow p) (\<lambda>a. a \<noteq> 1)"
  unfolding stores_def
proof (intro allI impI)
  fix m x es
  assume a: "P01 m = 0x37 \<and> ddrb m = 0 \<and> rY m = 0 \<and> line (c_env m) = Sent x # es \<and> pointer zp_start m \<noteq> 1"
  then obtain e where w: "wait64 p m = Some (m\<lparr>rA := 0x10, fZ := False, fN := False, c_env := e\<rparr>)" "line e = es" "lit e = Sent x"
    using wait_strobe [of m "Sent x" es] by auto
  obtain b e' where b: "pins p e = (b, e')" by fastforce
  with pins_lit [OF b] w have x: "b = x" "line e' = es" by auto
  let ?m = "m\<lparr>rA := 0x37, rX := 0x33, fZ := False, fN := False, ram := (ram m)(pointer zp_start m := x), talk := talk m @ [Sent x], c_env := e'\<rparr>"
  have "asm [lda p 0xdd01, ldx_imm 0x33, stx p 0x01, sta_iy p zp_start, lda_imm 0x37, sta p 0x01]
      (m\<lparr>rA := 0x10, fZ := False, fN := False, c_env := e\<rparr>) = ?m"
    using a b x by (simp add: machine_defs read_io_def pointer_def)
  then have "store_slow p m = Some (ack64 p ?m)" using w(1) by (simp add: store_slow_def)
  then show "\<exists>m'. store_slow p m = Some m' \<and> line (c_env m') = es \<and>
      view m' = view (m\<lparr>ram := (ram m)(pointer zp_start m := x), talk := talk m @ [Sent x], flips := Suc (flips m)\<rparr>)"
    using ack_flips [of ?m p] a x(2) by simp
qed

lemma fetches_fast: "fetches p line (fetch_fast p) (\<lambda>c. c = 0x37)"
  unfolding fetches_def
proof (intro allI impI)
  fix m ev es
  assume a: "P01 m = 0x37 \<and> rY m = 0 \<and> line (c_env m) = ev # es \<and> ram m zp_mem = 0x37 \<and>
    pointer zp_start m \<noteq> 1 \<and> \<not> (is_io (pointer zp_start m) \<and> io_visible (ram m zp_mem))"
  let ?m = "lda_iy p zp_start m"
  have "view ?m = view m" "rA ?m = seen p (ram m zp_mem) (ram m) (pointer zp_start m)" "c_env ?m = c_env m"
    using a by (auto simp: machine_defs seen_def)
  with write_line [of ?m ev es] a show "\<exists>m'. fetch_fast p m = Some m' \<and> line (c_env m') = es \<and>
      view m' = view (m\<lparr>talk := talk m @ [Got (seen p (ram m zp_mem) (ram m) (pointer zp_start m))], flips := Suc (flips m)\<rparr>)"
    by (auto simp: fetch_fast_def)
qed

lemma fetches_slow: "fetches p line (fetch_slow p) (\<lambda>c. True)"
  unfolding fetches_def
proof (intro allI impI)
  fix m ev es
  assume a: "P01 m = 0x37 \<and> rY m = 0 \<and> line (c_env m) = ev # es \<and> True \<and>
    pointer zp_start m \<noteq> 1 \<and> \<not> (is_io (pointer zp_start m) \<and> io_visible (ram m zp_mem))"
  let ?m = "asm [lda p zp_mem, sta p 0x01, lda_iy p zp_start, ldx_imm 0x37, stx p 0x01] m"
  have "view ?m = view m" "rA ?m = seen p (ram m zp_mem) (ram m) (pointer zp_start m)" "c_env ?m = c_env m"
    using a by (auto simp: machine_defs seen_def pointer_def)
  with write_line [of ?m ev es] a show "\<exists>m'. fetch_slow p m = Some m' \<and> line (c_env m') = es \<and>
      view m' = view (m\<lparr>talk := talk m @ [Got (seen p (ram m zp_mem) (ram m) (pointer zp_start m))], flips := Suc (flips m)\<rparr>)"
    by (auto simp: fetch_slow_def)
qed

text \<open>The loops of load and save move everything from \<open>start\<close> up to \<open>end\<close>, in order.\<close>

lemma loop_stores:
  assumes "stores p line body ok"
  shows "P01 m = 0x37 \<Longrightarrow> ddrb m = 0 \<Longrightarrow> rY m = 0 \<Longrightarrow> line (c_env m) = map Sent bytes @ es \<Longrightarrow> bytes \<noteq> [] \<Longrightarrow>
    length bytes < 65536 \<Longrightarrow> pointer zp_start m = a \<Longrightarrow> pointer zp_end m = a + word_of_nat (length bytes) \<Longrightarrow>
    \<forall>i < length bytes. ok (a + word_of_nat i) \<and> \<not> transfer_cell (a + word_of_nat i) \<Longrightarrow>
    \<exists>m'. loop64 p body m = Some m' \<and> line (c_env m') = es \<and>
      view m' = view (m\<lparr>ram := (stored (ram m) a bytes)(zp_start := ram m zp_end, zp_start + 1 := ram m (zp_end + 1)),
        talk := talk m @ map Sent bytes, flips := flips m + length bytes\<rparr>)"
proof (induction bytes arbitrary: m a)
  case (Cons x bytes)
  let ?e = "a + word_of_nat (length (x # bytes))"
  have "ok (a + word_of_nat 0) \<and> \<not> transfer_cell (a + word_of_nat 0)" using Cons.prems(9) by blast
  then have a: "ok a" "\<not> transfer_cell a" by simp_all
  with assms [unfolded stores_def, rule_format, of m x "map Sent bytes @ es"] Cons.prems obtain m1 where
    m1: "body m = Some m1" "line (c_env m1) = map Sent bytes @ es"
      "view m1 = view (m\<lparr>ram := (ram m)(a := x), talk := talk m @ [Sent x], flips := Suc (flips m)\<rparr>)" by auto
  obtain again m2 where n: "next64 p m1 = (again, m2)" by fastforce
  have p1: "pointer zp_start m1 = a" "pointer zp_end m1 = ?e"
    using m1(3) a(2) Cons.prems(7,8) by (simp_all add: pointer_def transfer_cell_def)
  with next_steps [OF n] m1 have m2: "again \<longleftrightarrow> bytes \<noteq> []" "c_env m2 = c_env m1"
    "view m2 = view (m\<lparr>ram := (ram m)(a := x, zp_start := lo16 (a + 1), zp_start + 1 := hi16 (a + 1)),
        talk := talk m @ [Sent x], flips := Suc (flips m)\<rparr>)"
    using Cons.prems(6) no_bytes [of bytes] by (auto simp: advanced_def)
  have e: "ram m zp_end = lo16 ?e" "ram m (zp_end + 1) = hi16 ?e"
    using Cons.prems(8) by (simp_all only: pointer_def bytes_pointer flip: Cons.prems(8))
  show ?case
  proof (cases "bytes = []")
    case True
    then have "loop64 p body m = Some m2" using m1(1) n m2(1) by (subst loop64.simps) simp
    then show ?thesis using m1(2) m2 True e by (auto simp: stored_Cons)
  next
    case False
    then have l: "loop64 p body m = loop64 p body m2" using m1(1) n m2(1) by (subst loop64.simps) simp
    have p2: "pointer zp_start m2 = a + 1" "pointer zp_end m2 = a + 1 + word_of_nat (length bytes)"
      using m2(3) a(2) Cons.prems(8) by (simp_all add: pointer_def transfer_cell_def add.assoc)
    have free: "ok (a + 1 + word_of_nat i) \<and> \<not> transfer_cell (a + 1 + word_of_nat i)" if "i < length bytes" for i
      using Cons.prems(9) that by (auto dest!: spec [of _ "Suc i"] simp: add.assoc)
    have "\<exists>m'. loop64 p body m2 = Some m' \<and> line (c_env m') = es \<and>
      view m' = view (m2\<lparr>ram := (stored (ram m2) (a + 1) bytes)(zp_start := ram m2 zp_end, zp_start + 1 := ram m2 (zp_end + 1)),
        talk := talk m2 @ map Sent bytes, flips := flips m2 + length bytes\<rparr>)"
      by (rule Cons.IH) (use Cons.prems(1-6) False m1(2) m2 p2 free in auto)
    then obtain m' where m': "loop64 p body m2 = Some m'" "line (c_env m') = es"
      "view m' = view (m2\<lparr>ram := (stored (ram m2) (a + 1) bytes)(zp_start := ram m2 zp_end, zp_start + 1 := ram m2 (zp_end + 1)),
        talk := talk m2 @ map Sent bytes, flips := flips m2 + length bytes\<rparr>)" by blast
    have "length bytes < 65535" using Cons.prems(6) by simp
    with m' l m2(3) a(2) show ?thesis
      by (auto simp: stored_Cons stored_def fun_eq_iff transfer_cell_def)
  qed
qed simp

lemma loop_fetches:
  assumes "fetches p line body config"
  shows "P01 m = 0x37 \<Longrightarrow> rY m = 0 \<Longrightarrow> line (c_env m) = evs @ es \<Longrightarrow> length evs = n \<Longrightarrow> 0 < n \<Longrightarrow>
    n < 65536 \<Longrightarrow> pointer zp_start m = a \<Longrightarrow> pointer zp_end m = a + word_of_nat n \<Longrightarrow> config (ram m zp_mem) \<Longrightarrow>
    \<forall>i < n. a + word_of_nat i \<noteq> 1 \<and> \<not> transfer_cell (a + word_of_nat i) \<and>
      \<not> (is_io (a + word_of_nat i) \<and> io_visible (ram m zp_mem)) \<Longrightarrow>
    \<exists>m'. loop64 p body m = Some m' \<and> line (c_env m') = es \<and>
      view m' = view (m\<lparr>ram := (ram m)(zp_start := ram m zp_end, zp_start + 1 := ram m (zp_end + 1)),
        talk := talk m @ map (\<lambda>i. Got (seen p (ram m zp_mem) (ram m) (a + word_of_nat i))) [0..<n], flips := flips m + n\<rparr>)"
proof (induction n arbitrary: m a evs)
  case (Suc n)
  let ?e = "a + word_of_nat (Suc n)" and ?c = "ram m zp_mem"
  obtain ev evs' where evs: "evs = ev # evs'" "length evs' = n" using Suc.prems(4) by (cases evs) auto
  have "a + word_of_nat 0 \<noteq> 1 \<and> \<not> transfer_cell (a + word_of_nat 0) \<and> \<not> (is_io (a + word_of_nat 0) \<and> io_visible ?c)"
    using Suc.prems(10) by blast
  then have a: "a \<noteq> 1" "\<not> transfer_cell a" "\<not> (is_io a \<and> io_visible ?c)" by simp_all
  with assms [unfolded fetches_def, rule_format, of m ev "evs' @ es"] Suc.prems evs(1) obtain m1 where
    m1: "body m = Some m1" "line (c_env m1) = evs' @ es"
      "view m1 = view (m\<lparr>talk := talk m @ [Got (seen p ?c (ram m) a)], flips := Suc (flips m)\<rparr>)" by auto
  obtain again m2 where n: "next64 p m1 = (again, m2)" by fastforce
  have p1: "pointer zp_start m1 = a" "pointer zp_end m1 = ?e"
    using m1(3) Suc.prems(7,8) by (simp_all add: pointer_def)
  have z: "(word_of_nat n :: ushort) = 0 \<longleftrightarrow> n = 0" using Suc.prems(6) evs(2) no_bytes [of evs'] by auto
  with next_steps [OF n] m1 p1 have m2: "again \<longleftrightarrow> n \<noteq> 0" "c_env m2 = c_env m1"
    "view m2 = view (m\<lparr>ram := (ram m)(zp_start := lo16 (a + 1), zp_start + 1 := hi16 (a + 1)),
        talk := talk m @ [Got (seen p ?c (ram m) a)], flips := Suc (flips m)\<rparr>)"
    by (auto simp: advanced_def)
  have e: "ram m zp_end = lo16 ?e" "ram m (zp_end + 1) = hi16 ?e"
    using Suc.prems(8) by (simp_all only: pointer_def bytes_pointer flip: Suc.prems(8))
  show ?case
  proof (cases "n = 0")
    case True
    then have "loop64 p body m = Some m2" using m1(1) n m2(1) by (subst loop64.simps) simp
    then show ?thesis using m1(2) m2 True e evs(2) by auto
  next
    case False
    then have l: "loop64 p body m = loop64 p body m2" using m1(1) n m2(1) by (subst loop64.simps) simp
    have p2: "pointer zp_start m2 = a + 1" "pointer zp_end m2 = a + 1 + word_of_nat n" "ram m2 zp_mem = ?c"
      using m2(3) Suc.prems(8) by (simp_all add: pointer_def add.assoc)
    have free: "a + 1 + word_of_nat i \<noteq> 1 \<and> \<not> transfer_cell (a + 1 + word_of_nat i) \<and>
        \<not> (is_io (a + 1 + word_of_nat i) \<and> io_visible ?c)" if "i < n" for i
      using Suc.prems(10) that by (auto dest!: spec [of _ "Suc i"] simp: add.assoc)
    have "\<exists>m'. loop64 p body m2 = Some m' \<and> line (c_env m') = es \<and>
      view m' = view (m2\<lparr>ram := (ram m2)(zp_start := ram m2 zp_end, zp_start + 1 := ram m2 (zp_end + 1)),
        talk := talk m2 @ map (\<lambda>i. Got (seen p (ram m2 zp_mem) (ram m2) (a + 1 + word_of_nat i))) [0..<n], flips := flips m2 + n\<rparr>)"
      by (rule Suc.IH) (use Suc.prems False m1(2) m2 p2 evs(2) free in auto)
    then obtain m' where m': "loop64 p body m2 = Some m'" "line (c_env m') = es"
      "view m' = view (m2\<lparr>ram := (ram m2)(zp_start := ram m2 zp_end, zp_start + 1 := ram m2 (zp_end + 1)),
        talk := talk m2 @ map (\<lambda>i. Got (seen p ?c (ram m2) (a + 1 + word_of_nat i))) [0..<n], flips := flips m2 + n\<rparr>)"
      unfolding p2(3) by blast
    have "seen p ?c (ram m2) (a + 1 + word_of_nat i) = seen p ?c (ram m) (a + word_of_nat (Suc i))" if "i < n" for i
      using free [OF that] m2(3) by (simp add: seen_def transfer_cell_def add.assoc)
    then have "map (\<lambda>i. Got (seen p ?c (ram m2) (a + 1 + word_of_nat i))) [0..<n] =
        map (\<lambda>i. Got (seen p ?c (ram m) (a + word_of_nat i))) (map Suc [0..<n])"
      by (simp del: of_nat_Suc)
    moreover have "[0..<Suc n] = 0 # map Suc [0..<n]" by (simp add: map_Suc_upt upt_conv_Cons)
    ultimately show ?thesis using m' l m2(3) e by (auto simp: fun_eq_iff simp del: upt_Suc)
  qed
qed simp

section \<open>Headers\<close>

lemma reads_line:
  "length bs = length zs \<Longrightarrow> \<forall>z \<in> set zs. z < 0xa000 \<and> z \<noteq> 1 \<Longrightarrow> P01 m = 0x37 \<Longrightarrow> ddrb m = 0 \<Longrightarrow>
   line (c_env m) = map Sent bs @ es \<Longrightarrow>
   \<exists>m'. reads_to p zs m = Some m' \<and> line (c_env m') = es \<and>
     view m' = view (m\<lparr>ram := put_cells (zip zs bs) (ram m),
       talk := talk m @ map Sent bs, flips := flips m + length bs\<rparr>)"
proof (induction bs zs arbitrary: m rule: list_induct2)
  case (Cons b bs z zs)
  then obtain m1 where m1: "read64 p m = Some m1" "rX m1 = b" "line (c_env m1) = map Sent bs @ es"
    "view m1 = view (m\<lparr>talk := talk m @ [Sent b], flips := Suc (flips m)\<rparr>)"
    using read_line [of m b "map Sent bs @ es"] by auto
  let ?m = "stx p z m1"
  have m2: "view ?m = view (m\<lparr>ram := (ram m)(z := b), talk := talk m @ [Sent b], flips := Suc (flips m)\<rparr>)"
    "c_env ?m = c_env m1"
    using Cons.prems(1) m1 by (simp_all add: machine_defs)
  have "\<exists>m'. reads_to p zs ?m = Some m' \<and> line (c_env m') = es \<and>
     view m' = view (?m\<lparr>ram := put_cells (zip zs bs) (ram ?m),
       talk := talk ?m @ map Sent bs, flips := flips ?m + length bs\<rparr>)"
    by (rule Cons.IH) (use Cons.prems m1 m2 in auto)
  then obtain m' where "reads_to p zs ?m = Some m'" "line (c_env m') = es" "view m' = view (?m\<lparr>ram := put_cells (zip zs bs) (ram ?m),
       talk := talk ?m @ map Sent bs, flips := flips ?m + length bs\<rparr>)" by blast
  then show ?case using m1(1) m2 by (intro exI [of _ m']) simp
qed simp

lemma header_line:
  assumes "P01 m = 0x37" "ddrb m = 0" "line (c_env m) = map Sent [c, b, lo16 a, hi16 a, lo16 e, hi16 e] @ es"
  shows "\<exists>m'. readHeader p m = Some m' \<and> line (c_env m') = es \<and> pointer zp_start m' = a \<and> pointer zp_end m' = e \<and>
    view m' = view (m\<lparr>ram := (ram m)(zp_mem := c, zp_bank := b, zp_start := lo16 a, zp_start + 1 := hi16 a,
      zp_end := lo16 e, zp_end + 1 := hi16 e),
      talk := talk m @ map Sent [c, b, lo16 a, hi16 a, lo16 e, hi16 e], flips := flips m + 6\<rparr>)"
  using reads_line [of "[c, b, lo16 a, hi16 a, lo16 e, hi16 e]" "[zp_mem, zp_bank, zp_start, zp_start + 1, zp_end, zp_end + 1]" m es] assms
  by (auto simp: readHeader_def pointer_def)

lemma address_line:
  assumes "P01 m = 0x37" "ddrb m = 0" "line (c_env m) = map Sent [c, b, lo16 a, hi16 a] @ es"
  shows "\<exists>m'. readAddress p m = Some m' \<and> line (c_env m') = es \<and> pointer zp_start m' = a \<and>
    view m' = view (m\<lparr>ram := (ram m)(zp_mem := c, zp_bank := b, zp_start := lo16 a, zp_start + 1 := hi16 a),
      talk := talk m @ map Sent [c, b, lo16 a, hi16 a], flips := flips m + 4\<rparr>)"
  using reads_line [of "[c, b, lo16 a, hi16 a]" "[zp_mem, zp_bank, zp_start, zp_start + 1]" m es] assms
  by (auto simp: readAddress_def pointer_def)

lemma screen_keeps:
  assumes "P01 m = 0x37"
  shows "view (screenOff p m) = view m" "line (c_env (screenOff p m)) = line (c_env m)"
    "view (screenOn p m) = view m" "line (c_env (screenOn p m)) = line (c_env m)"
  using assms io_line by (simp_all add: screenOff_def screenOn_def machine_defs write_io_def Let_def)

lemma output_line:
  assumes "P01 m = 0x37" "line (c_env m) = ev # es"
  shows "\<exists>m'. output64 p m = Some m' \<and> line (c_env m') = es \<and> view m' = view (m\<lparr>ddrb := 0xff, talk := talk m @ [Ready]\<rparr>)"
  using wait_strobe [of m ev es] assms by (auto simp: output64_def machine_defs write_io_def)

end

lemma input_view: "P01 m = 0x37 \<Longrightarrow> view (input64 p m) = view (m\<lparr>ddrb := 0\<rparr>) \<and> c_env (input64 p m) = c_env m"
  by (simp add: input64_def machine_defs write_io_def)

lemma checkBasic_view:
  "view (checkBasic p m) = view (m\<lparr>ram := (ram m)(stack_cell (rS m) := (if pointer zp_start m = pointer bstart m then 0 else 1)),
     rS := rS m - 1\<rparr>) \<and> c_env (checkBasic p m) = c_env m"
  by (auto simp: checkBasic_def machine_defs Let_def pointer_eq_iff [of "pointer zp_start m"]) (auto simp: pointer_def)

lemma relinkBasic_view:
  assumes "s = rS m + 1"
  shows "view (relinkBasic p m) = view (m\<lparr>rS := s, ram := (if ram m (stack_cell s) = 0
       then (ram m)(bend := ram m zp_end, bend + 1 := ram m (zp_end + 1)) else ram m)\<rparr>) \<and>
     c_env (relinkBasic p m) = c_env m"
  using assms by (auto simp: relinkBasic_def machine_defs Let_def)

end
