(* ===== verification/Server64_Commands.thy ===== *)
theory Server64_Commands
  imports Server64_Laws
begin

text \<open>
  The commands of the server from the interrupt to its end: what each does to the memory and what
  passes over the data lines, for any host that strobes the bytes of a conversation.
\<close>

section \<open>The commands\<close>

text \<open>What the server uses for itself: its cells in the zero page, the end of the BASIC program, the stack.\<close>

definition server_cell :: "ushort \<Rightarrow> bool" where
  "server_cell a \<longleftrightarrow> transfer_cell a \<or> a = zp_mem \<or> a = zp_bank \<or> a = bend \<or> a = bend + 1 \<or> 0x0100 \<le> a \<and> a < 0x0200"

lemma server_cells [simp]:
  "server_cell 0xc1" "server_cell 0xc2" "server_cell 0xc3" "server_cell 0xc4" "server_cell 0xfe" "server_cell 0xff"
  "server_cell 0x2d" "server_cell 0x2e" "server_cell (stack_cell s)"
  by (simp_all add: server_cell_def transfer_cell_def stack_cell_range)

text \<open>Where a load with the configuration \<open>c\<close> can put a byte.\<close>

definition loadable :: "uchar \<Rightarrow> ushort \<Rightarrow> bool" where
  "loadable c a \<longleftrightarrow> a \<noteq> 1 \<and> \<not> server_cell a \<and> (c AND 0x7f = 0x37 \<longrightarrow> \<not> is_io a)"

text \<open>What a save or a peek with the configuration \<open>c\<close> can read in memory.\<close>

definition readable :: "uchar \<Rightarrow> ushort \<Rightarrow> bool" where
  "readable c a \<longleftrightarrow> a \<noteq> 1 \<and> \<not> server_cell a \<and> \<not> (is_io a \<and> io_visible c)"

lemma stored_other: "x \<noteq> c \<Longrightarrow> stored (r(c := v)) a bs x = stored r a bs x" for r :: "ushort \<Rightarrow> uchar"
  by (simp add: stored_def)

lemma stored_outside: "\<forall>i < length bs. a + word_of_nat i \<noteq> x \<Longrightarrow> stored r a bs x = r x"
proof -
  assume "\<forall>i < length bs. a + word_of_nat i \<noteq> x"
  moreover have "a + word_of_nat (unat (x - a)) = x" by simp
  ultimately have "\<not> unat (x - a) < length bs" by blast
  then show ?thesis by (simp add: stored_def)
qed

text \<open>The loops that load and save enter, and the states in which they enter them.\<close>

definition load_body :: "'e c64_board \<Rightarrow> uchar \<Rightarrow> 'e cpu \<Rightarrow> 'e cpu option" where
  "load_body p c = (if c AND 0x7f = 0x37 then store_fast p else store_slow p)"

definition save_body :: "'e c64_board \<Rightarrow> uchar \<Rightarrow> 'e cpu \<Rightarrow> 'e cpu option" where
  "save_body p c = (if c = 0x37 then fetch_fast p else fetch_slow p)"

text \<open>The bytes of the block \<open>Server\<close>, with its length first.\<close>

definition server_block :: "ushort \<Rightarrow> ushort \<Rightarrow> uchar list" where
  "server_block org eof = [5, 0x58, 0x4c, 0x49, 0x4e, 0x4b, 0x10, 0, 0, lo16 org, hi16 org, lo16 eof, hi16 eof]"

context strobe_line begin

lemma load_setup:
  assumes "P01 m = 0x37" "ddrb m = 0"
    and line: "line (c_env m) = map Sent [c, b, lo16 a, hi16 a, lo16 e, hi16 e] @ es"
  shows "\<exists>m3. load64 p m = do { m4 \<leftarrow> loop64 p (load_body p c) m3; Some (asm [relinkBasic p, screenOn p] m4) } \<and>
    line (c_env m3) = es \<and> pointer zp_start m3 = a \<and> pointer zp_end m3 = e \<and>
    view m3 = view (m\<lparr>rY := 0, rS := rS m - 1, ram := (ram m)(zp_mem := c, zp_bank := b, zp_start := lo16 a, zp_start + 1 := hi16 a,
      zp_end := lo16 e, zp_end + 1 := hi16 e, stack_cell (rS m) := (if a = pointer bstart m then 0 else 1)),
      talk := talk m @ map Sent [c, b, lo16 a, hi16 a, lo16 e, hi16 e], flips := flips m + 6\<rparr>)"
proof -
  from header_line [OF assms] obtain m1 where m1: "readHeader p m = Some m1" "line (c_env m1) = es"
    "pointer zp_start m1 = a" "pointer zp_end m1 = e"
    "view m1 = view (m\<lparr>ram := (ram m)(zp_mem := c, zp_bank := b, zp_start := lo16 a, zp_start + 1 := hi16 a,
      zp_end := lo16 e, zp_end + 1 := hi16 e),
      talk := talk m @ map Sent [c, b, lo16 a, hi16 a, lo16 e, hi16 e], flips := flips m + 6\<rparr>)" by blast
  define q :: uchar where "q = (if a = pointer bstart m then 0 else 1)"
  let ?m2 = "asm [screenOff p, checkBasic p] m1"
  have m2: "view ?m2 = view (m1\<lparr>ram := (ram m1)(stack_cell (rS m) := q), rS := rS m - 1\<rparr>)" "line (c_env ?m2) = es"
    using checkBasic_view [of p "screenOff p m1"] screen_keeps [of m1] m1 assms(1) by (auto simp: q_def pointer_def)
  let ?m3 = "asm [ldy_imm 0x00, lda p zp_mem, and_imm 0x7f, cmp_imm 0x37] ?m2"
  have m3: "view ?m3 = view (?m2\<lparr>rY := 0\<rparr>)" "c_env ?m3 = c_env ?m2" "fZ ?m3 \<longleftrightarrow> c AND 0x7f = 0x37"
    using m1(5) m2(1) by (auto simp: machine_defs)
  have "asm [screenOff p, checkBasic p, ldy_imm 0x00, lda p zp_mem, and_imm 0x7f, cmp_imm 0x37] m1 = ?m3" by simp
  then have "load64 p m = do { m4 \<leftarrow> loop64 p (load_body p c) ?m3; Some (asm [relinkBasic p, screenOn p] m4) }"
    using m1(1) m3(3) by (simp add: load64_def load_body_def del: asm.simps)
  then show ?thesis using m3 m2 m1(5) by (intro exI [of _ ?m3]) (simp add: q_def pointer_def del: asm.simps)
qed

lemma stores_load: "stores p line (load_body p c) (\<lambda>x. x \<noteq> 1 \<and> (c AND 0x7f = 0x37 \<longrightarrow> \<not> is_io x))"
  using stores_fast stores_slow by (cases "c AND 0x7f = 0x37") (simp_all add: load_body_def stores_def)

lemma load_line:
  assumes "P01 m = 0x37" "ddrb m = 0" "bytes \<noteq> []" "length bytes < 65536"
    and line: "line (c_env m) = map Sent ([c, b, lo16 a, hi16 a, lo16 e, hi16 e] @ bytes) @ es"
    and e: "e = a + word_of_nat (length bytes)"
    and free: "\<forall>i < length bytes. loadable c (a + word_of_nat i)"
  shows "\<exists>m'. load64 p m = Some m' \<and> line (c_env m') = es \<and> P01 m' = 0x37 \<and> ddrb m' = 0 \<and> rS m' = rS m \<and>
    talk m' = talk m @ map Sent ([c, b, lo16 a, hi16 a, lo16 e, hi16 e] @ bytes) \<and> flips m' = flips m + 6 + length bytes \<and>
    (\<forall>x. \<not> server_cell x \<longrightarrow> ram m' x = stored (ram m) a bytes x) \<and>
    pointer bend m' = (if a = pointer bstart m then e else pointer bend m)"
proof -
  define q :: uchar where "q = (if a = pointer bstart m then 0 else 1)"
  have "line (c_env m) = map Sent [c, b, lo16 a, hi16 a, lo16 e, hi16 e] @ map Sent bytes @ es" using line by simp
  from load_setup [OF assms(1,2) this, folded q_def] obtain m3 where
    m3: "load64 p m = do { m4 \<leftarrow> loop64 p (load_body p c) m3; Some (asm [relinkBasic p, screenOn p] m4) }"
      "line (c_env m3) = map Sent bytes @ es" "pointer zp_start m3 = a" "pointer zp_end m3 = e"
      "view m3 = view (m\<lparr>rY := 0, rS := rS m - 1, ram := (ram m)(zp_mem := c, zp_bank := b, zp_start := lo16 a, zp_start + 1 := hi16 a,
        zp_end := lo16 e, zp_end + 1 := hi16 e, stack_cell (rS m) := q),
        talk := talk m @ map Sent [c, b, lo16 a, hi16 a, lo16 e, hi16 e], flips := flips m + 6\<rparr>)" by blast
  have "\<exists>m'. loop64 p (load_body p c) m3 = Some m' \<and> line (c_env m') = es \<and>
      view m' = view (m3\<lparr>ram := (stored (ram m3) a bytes)(zp_start := ram m3 zp_end, zp_start + 1 := ram m3 (zp_end + 1)),
        talk := talk m3 @ map Sent bytes, flips := flips m3 + length bytes\<rparr>)"
    by (rule loop_stores [OF stores_load])
      (use assms(1-4) m3(2-5) e free in \<open>simp_all add: loadable_def server_cell_def\<close>)
  then obtain m4 where m4: "loop64 p (load_body p c) m3 = Some m4" "line (c_env m4) = es"
    "view m4 = view (m3\<lparr>ram := (stored (ram m3) a bytes)(zp_start := ram m3 zp_end, zp_start + 1 := ram m3 (zp_end + 1)),
        talk := talk m3 @ map Sent bytes, flips := flips m3 + length bytes\<rparr>)" by blast
  have outside: "stored r a bytes x = r x" if "server_cell x" for r x
    using free that by (intro stored_outside) (auto simp: loadable_def)
  have r4: "rS m4 = rS m - 1" "P01 m4 = 0x37" "ddrb m4 = 0" "flips m4 = flips m + 6 + length bytes"
    "talk m4 = talk m @ map Sent ([c, b, lo16 a, hi16 a, lo16 e, hi16 e] @ bytes)"
    "ram m4 (stack_cell (rS m)) = q" "ram m4 zp_end = lo16 e" "ram m4 (zp_end + 1) = hi16 e"
    "ram m4 bend = ram m bend" "ram m4 (bend + 1) = ram m (bend + 1)"
    using m4(3) m3(5) assms(1,2) outside by simp_all
  have s4: "ram m4 x = stored (ram m) a bytes x" if "\<not> server_cell x" for x
    using that m4(3) m3(5) by (auto simp: stored_def)
  let ?m5 = "asm [relinkBasic p, screenOn p] m4"
  have m5: "view ?m5 = view (m4\<lparr>rS := rS m, ram := (if q = 0 then (ram m4)(bend := lo16 e, bend + 1 := hi16 e) else ram m4)\<rparr>)"
    "line (c_env ?m5) = es"
    using relinkBasic_view [of "rS m" m4 p] screen_keeps [of "relinkBasic p m4"] r4 m4(2) by simp_all
  moreover have "load64 p m = Some ?m5" using m3(1) m4(1) by simp
  ultimately show ?thesis
    using r4 s4 by (intro exI [of _ ?m5]) (auto simp: q_def pointer_def simp del: asm.simps)
qed

lemma save_setup:
  assumes "P01 m = 0x37" "ddrb m = 0"
    and line: "line (c_env m) = map Sent [c, b, lo16 a, hi16 a, lo16 e, hi16 e] @ ev # es"
  shows "\<exists>m3. save64 p m = do { m4 \<leftarrow> loop64 p (save_body p c) m3; Some (screenOn p (input64 p m4)) } \<and>
    line (c_env m3) = es \<and> pointer zp_start m3 = a \<and> pointer zp_end m3 = e \<and>
    view m3 = view (m\<lparr>rY := 0, ddrb := 0xff, ram := (ram m)(zp_mem := c, zp_bank := b, zp_start := lo16 a, zp_start + 1 := hi16 a,
      zp_end := lo16 e, zp_end + 1 := hi16 e),
      talk := talk m @ map Sent [c, b, lo16 a, hi16 a, lo16 e, hi16 e] @ [Ready], flips := flips m + 6\<rparr>)"
proof -
  from header_line [OF assms] obtain m1 where m1: "readHeader p m = Some m1" "line (c_env m1) = ev # es"
    "pointer zp_start m1 = a" "pointer zp_end m1 = e"
    "view m1 = view (m\<lparr>ram := (ram m)(zp_mem := c, zp_bank := b, zp_start := lo16 a, zp_start + 1 := hi16 a,
      zp_end := lo16 e, zp_end + 1 := hi16 e),
      talk := talk m @ map Sent [c, b, lo16 a, hi16 a, lo16 e, hi16 e], flips := flips m + 6\<rparr>)" by blast
  have "P01 (screenOff p m1) = 0x37" "line (c_env (screenOff p m1)) = ev # es" "view (screenOff p m1) = view m1"
    using screen_keeps [of m1] m1 assms(1) by simp_all
  with output_line [of "screenOff p m1" ev es] obtain m2 where m2: "output64 p (screenOff p m1) = Some m2"
    "line (c_env m2) = es" "view m2 = view (m1\<lparr>ddrb := 0xff, talk := talk m1 @ [Ready]\<rparr>)" by auto
  let ?m3 = "asm [ldy_imm 0x00, lda p zp_mem, cmp_imm 0x37] m2"
  have m3: "view ?m3 = view (m2\<lparr>rY := 0\<rparr>)" "c_env ?m3 = c_env m2" "fZ ?m3 \<longleftrightarrow> c = 0x37"
    using m1(5) m2(3) by (auto simp: machine_defs)
  have "asm [lda_imm 0x00, sta p 0xdd03, screenOn p] x = screenOn p (input64 p x)" for x by (simp add: input64_def)
  then have "save64 p m = do { m4 \<leftarrow> loop64 p (save_body p c) ?m3; Some (screenOn p (input64 p m4)) }"
    using m1(1) m2(1) m3(3) by (simp add: save64_def save_body_def del: asm.simps)
  then show ?thesis using m3 m2 m1(5) by (intro exI [of _ ?m3]) (simp add: pointer_def del: asm.simps)
qed

lemma fetches_save: "fetches p line (save_body p c) (\<lambda>x. c = 0x37 \<longrightarrow> x = 0x37)"
  using fetches_fast fetches_slow by (cases "c = 0x37") (simp_all add: save_body_def)

lemma save_line:
  assumes "P01 m = 0x37" "ddrb m = 0" "0 < n" "n < 65536"
    and line: "line (c_env m) = map Sent [c, b, lo16 a, hi16 a, lo16 e, hi16 e] @ ev # evs @ es" "length evs = n"
    and e: "e = a + word_of_nat n"
    and free: "\<forall>i < n. readable c (a + word_of_nat i)"
  shows "\<exists>m'. save64 p m = Some m' \<and> line (c_env m') = es \<and> P01 m' = 0x37 \<and> ddrb m' = 0 \<and> rS m' = rS m \<and>
    talk m' = talk m @ map Sent [c, b, lo16 a, hi16 a, lo16 e, hi16 e] @
      Ready # map (\<lambda>i. Got (seen p c (ram m) (a + word_of_nat i))) [0..<n] \<and> flips m' = flips m + 6 + n \<and>
    (\<forall>x. \<not> server_cell x \<longrightarrow> ram m' x = ram m x)"
proof -
  from save_setup [OF assms(1,2) line(1)] obtain m3 where
    m3: "save64 p m = do { m4 \<leftarrow> loop64 p (save_body p c) m3; Some (screenOn p (input64 p m4)) }"
      "line (c_env m3) = evs @ es" "pointer zp_start m3 = a" "pointer zp_end m3 = e"
      "view m3 = view (m\<lparr>rY := 0, ddrb := 0xff, ram := (ram m)(zp_mem := c, zp_bank := b, zp_start := lo16 a, zp_start + 1 := hi16 a,
        zp_end := lo16 e, zp_end + 1 := hi16 e),
        talk := talk m @ map Sent [c, b, lo16 a, hi16 a, lo16 e, hi16 e] @ [Ready], flips := flips m + 6\<rparr>)" by blast
  have mem: "ram m3 zp_mem = c" using m3(5) by simp
  have "\<exists>m'. loop64 p (save_body p c) m3 = Some m' \<and> line (c_env m') = es \<and>
      view m' = view (m3\<lparr>ram := (ram m3)(zp_start := ram m3 zp_end, zp_start + 1 := ram m3 (zp_end + 1)),
        talk := talk m3 @ map (\<lambda>i. Got (seen p (ram m3 zp_mem) (ram m3) (a + word_of_nat i))) [0..<n], flips := flips m3 + n\<rparr>)"
    by (rule loop_fetches [OF fetches_save])
      (use assms(1-4) line(2) m3(2-5) mem e free in \<open>simp_all add: readable_def server_cell_def\<close>)
  then obtain m4 where m4: "loop64 p (save_body p c) m3 = Some m4" "line (c_env m4) = es"
    "view m4 = view (m3\<lparr>ram := (ram m3)(zp_start := ram m3 zp_end, zp_start + 1 := ram m3 (zp_end + 1)),
        talk := talk m3 @ map (\<lambda>i. Got (seen p c (ram m3) (a + word_of_nat i))) [0..<n], flips := flips m3 + n\<rparr>)"
    unfolding mem by blast
  let ?m5 = "screenOn p (input64 p m4)"
  have "P01 m4 = 0x37" using m4(3) m3(5) assms(1) by simp
  then have m5: "view ?m5 = view (m4\<lparr>ddrb := 0\<rparr>)" "line (c_env ?m5) = es"
    using input_view [of m4 p] screen_keeps [of "input64 p m4"] m4(2) by simp_all
  have "save64 p m = Some ?m5" using m3(1) m4(1) by simp
  moreover have "seen p c (ram m3) (a + word_of_nat i) = seen p c (ram m) (a + word_of_nat i)" if "i < n" for i
    using free that m3(5) by (auto simp: seen_def readable_def)
  then have "map (\<lambda>i. Got (seen p c (ram m3) (a + word_of_nat i))) [0..<n] =
      map (\<lambda>i. Got (seen p c (ram m) (a + word_of_nat i))) [0..<n]" by simp
  ultimately show ?thesis
    using m5 m4(3) m3(5) assms(1,2) by (intro exI [of _ ?m5]) auto
qed

lemma poke_line:
  assumes "P01 m = 0x37" "ddrb m = 0" and line: "line (c_env m) = map Sent [c, b, lo16 a, hi16 a, v] @ es"
    and free: "readable c a"
  shows "\<exists>m'. poke64 p m = Some m' \<and> line (c_env m') = es \<and> P01 m' = 0x37 \<and> ddrb m' = 0 \<and> rS m' = rS m \<and>
    talk m' = talk m @ map Sent [c, b, lo16 a, hi16 a, v] \<and> flips m' = flips m + 5 \<and>
    (\<forall>x. \<not> server_cell x \<longrightarrow> ram m' x = ((ram m)(a := v)) x)"
proof -
  have "line (c_env m) = map Sent [c, b, lo16 a, hi16 a] @ Sent v # es" using line by simp
  from address_line [OF assms(1,2) this] obtain m1 where m1: "readAddress p m = Some m1" "line (c_env m1) = Sent v # es"
    "view m1 = view (m\<lparr>ram := (ram m)(zp_mem := c, zp_bank := b, zp_start := lo16 a, zp_start + 1 := hi16 a),
      talk := talk m @ map Sent [c, b, lo16 a, hi16 a], flips := flips m + 4\<rparr>)" by blast
  let ?y = "ldy_imm 0x00 m1"
  obtain e where w: "wait64 p ?y = Some (?y\<lparr>rA := 0x10, fZ := False, fN := False, c_env := e\<rparr>)" "line e = es" "lit e = Sent v"
    using wait_strobe [of ?y "Sent v" es] m1 assms(1) by (auto simp: machine_defs)
  obtain v' e' where b: "pins p e = (v', e')" by fastforce
  with pins_lit [OF b] w have x: "v' = v" "line e' = es" by auto
  let ?m2 = "asm [lda p 0xdd01, tax] (?y\<lparr>rA := 0x10, fZ := False, fN := False, c_env := e\<rparr>)"
  have m2: "view ?m2 = view (?y\<lparr>talk := talk ?y @ [Sent v]\<rparr>)" "rX ?m2 = v" "c_env ?m2 = e'" "P01 ?m2 = 0x37"
    using m1 b x assms(1,2) by (simp_all add: machine_defs read_io_def)
  let ?m3 = "ack64 p ?m2"
  have m3: "view ?m3 = view (?m2\<lparr>flips := Suc (flips ?m2)\<rparr>)" "rX ?m3 = v" "c_env ?m3 = e'"
    using ack_flips [of ?m2 p] m2 by (simp_all del: asm.simps)
  have r3: "rY ?m3 = 0" "rS ?m3 = rS m" "P01 ?m3 = 0x37" "ddrb ?m3 = 0"
    "ram ?m3 = (ram m)(zp_mem := c, zp_bank := b, zp_start := lo16 a, zp_start + 1 := hi16 a)"
    "talk ?m3 = talk m @ map Sent [c, b, lo16 a, hi16 a, v]" "flips ?m3 = flips m + 5"
    using m3(1) m2(1) m1(3) assms(1,2) by (simp_all add: machine_defs del: asm.simps)
  let ?m4 = "asm [txa, ldx p zp_mem, stx p 0x01, sta_iy p zp_start, lda_imm 0x37, sta p 0x01] ?m3"
  have m4: "view ?m4 = view (?m3\<lparr>ram := (ram ?m3)(a := v)\<rparr>)" "c_env ?m4 = e'"
    using r3 m3(2,3) free by (auto simp: machine_defs readable_def pointer_def)
  have "poke64 p m = Some ?m4" using m1(1) w(1) by (simp add: poke64_def)
  moreover have "\<not> server_cell x \<Longrightarrow> ram ?m4 x = ((ram m)(a := v)) x" for x
    using m4(1) unfolding r3(5) by (auto simp del: asm.simps)
  ultimately show ?thesis using m4 x(2) r3 by (intro exI [of _ ?m4]) (auto simp del: asm.simps)
qed

lemma peek_line:
  assumes "P01 m = 0x37" "ddrb m = 0" and line: "line (c_env m) = map Sent [c, b, lo16 a, hi16 a] @ ev # ev' # es"
    and free: "readable c a"
  shows "\<exists>m'. peek64 p m = Some m' \<and> line (c_env m') = es \<and> P01 m' = 0x37 \<and> ddrb m' = 0 \<and> rS m' = rS m \<and>
    talk m' = talk m @ map Sent [c, b, lo16 a, hi16 a] @ [Ready, Got (seen p c (ram m) a)] \<and> flips m' = flips m + 5 \<and>
    (\<forall>x. \<not> server_cell x \<longrightarrow> ram m' x = ram m x)"
proof -
  from address_line [OF assms(1,2) line] obtain m1 where m1: "readAddress p m = Some m1" "line (c_env m1) = ev # ev' # es"
    "view m1 = view (m\<lparr>ram := (ram m)(zp_mem := c, zp_bank := b, zp_start := lo16 a, zp_start + 1 := hi16 a),
      talk := talk m @ map Sent [c, b, lo16 a, hi16 a], flips := flips m + 4\<rparr>)" by blast
  with output_line [of m1 ev "ev' # es"] assms(1) obtain m2 where m2: "output64 p m1 = Some m2" "line (c_env m2) = ev' # es"
    "view m2 = view (m1\<lparr>ddrb := 0xff, talk := talk m1 @ [Ready]\<rparr>)" by auto
  let ?m3 = "asm [ldy_imm 0x00, ldx p zp_mem, stx p 0x01, lda_iy p zp_start, ldx_imm 0x37, stx p 0x01] m2"
  have "seen p c (ram m2) a = seen p c (ram m) a" using m2(3) m1(3) free by (auto simp: seen_def readable_def)
  then have m3: "view ?m3 = view (m2\<lparr>rY := 0\<rparr>)" "c_env ?m3 = c_env m2" "rA ?m3 = seen p c (ram m) a"
    using m2(3) m1(3) free assms(1) by (auto simp: machine_defs readable_def pointer_def seen_def)
  from write_line [of ?m3 ev' es] m3 m2 m1(3) assms(1) obtain m4 where m4: "write64 p ?m3 = Some m4" "line (c_env m4) = es"
    "view m4 = view (?m3\<lparr>talk := talk ?m3 @ [Got (seen p c (ram m) a)], flips := Suc (flips ?m3)\<rparr>)"
    by (auto simp del: asm.simps)
  have "peek64 p m = Some (input64 p m4)" using m1(1) m2(1) m4(1) by (simp add: peek64_def del: asm.simps)
  moreover have "view (input64 p m4) = view (m4\<lparr>ddrb := 0\<rparr>)" "c_env (input64 p m4) = c_env m4"
    using input_view [of m4 p] m4(3) m3(1) m2(3) m1(3) assms(1) by (simp_all del: asm.simps)
  ultimately show ?thesis using m4(2,3) m3(1) m2(3) m1(3) assms(1)
    by (intro exI [of _ "input64 p m4"]) (auto simp del: asm.simps)
qed

lemma jump_line:
  assumes "P01 m = 0x37" "ddrb m = 0" and line: "line (c_env m) = map Sent [c, b, hi16 a, lo16 a] @ es"
  shows "\<exists>m'. jump64 p m = Some (Rti 0 a, m') \<and> line (c_env m') = es \<and> P01 m' = c \<and> ddrb m' = 0 \<and>
    rA m' = 0 \<and> rX m' = 0 \<and> rY m' = 0 \<and> fst (rts m') = Rts repl \<and>
    talk m' = talk m @ map Sent [c, b, hi16 a, lo16 a] \<and> flips m' = flips m + 4 \<and>
    (\<forall>x. \<not> server_cell x \<longrightarrow> ram m' x = ram m x)"
proof -
  have "line (c_env m) = map Sent [c, b] @ Sent (hi16 a) # Sent (lo16 a) # es" using line by simp
  then obtain m1 where m1: "reads_to p [zp_mem, zp_bank] m = Some m1" "line (c_env m1) = Sent (hi16 a) # Sent (lo16 a) # es"
    "view m1 = view (m\<lparr>ram := (ram m)(zp_mem := c, zp_bank := b), talk := talk m @ map Sent [c, b], flips := flips m + 2\<rparr>)"
    using reads_line [of "[c, b]" "[zp_mem, zp_bank]" m] assms(1,2) by auto
  let ?m2 = "asm [ldx_imm 0xff, txs, lda_imm (hi16 repl), pha, lda_imm (lo16 repl - 1), pha] m1"
  have m2: "view ?m2 = view (m1\<lparr>rS := 0xfd, ram := (ram m1)(stack_cell 0xff := hi16 repl, stack_cell 0xfe := lo16 repl - 1)\<rparr>)"
    "c_env ?m2 = c_env m1"
    by (simp_all add: machine_defs)
  have i2: "io_visible (P01 ?m2)" "ddrb ?m2 = 0" "line (c_env ?m2) = Sent (hi16 a) # Sent (lo16 a) # es"
    using m2 m1 assms(1,2) by (simp_all del: asm.simps)
  obtain m3 where m3: "read64 p ?m2 = Some m3" "rX m3 = hi16 a" "line (c_env m3) = Sent (lo16 a) # es"
    "view m3 = view (?m2\<lparr>talk := talk ?m2 @ [Sent (hi16 a)], flips := Suc (flips ?m2)\<rparr>)"
    using read_line [OF i2] by blast
  let ?m4 = "asm [txa, pha] m3"
  have m4: "view ?m4 = view (m3\<lparr>rS := 0xfc, ram := (ram m3)(stack_cell 0xfd := hi16 a)\<rparr>)" "c_env ?m4 = c_env m3"
    using m3(2,4) m2(1) by (simp_all add: machine_defs)
  have i4: "io_visible (P01 ?m4)" "ddrb ?m4 = 0" "line (c_env ?m4) = Sent (lo16 a) # es"
    using m4 m3 m2 m1 assms(1,2) by (simp_all del: asm.simps)
  obtain m5 where m5: "read64 p ?m4 = Some m5" "rX m5 = lo16 a" "line (c_env m5) = es"
    "view m5 = view (?m4\<lparr>talk := talk ?m4 @ [Sent (lo16 a)], flips := Suc (flips ?m4)\<rparr>)"
    using read_line [OF i4] by blast
  have r5: "rS m5 = 0xfc" "ddrb m5 = 0" "flips m5 = flips m + 4" "talk m5 = talk m @ map Sent [c, b, hi16 a, lo16 a]"
    "ram m5 = (ram m)(zp_mem := c, zp_bank := b, stack_cell 0xff := hi16 repl, stack_cell 0xfe := lo16 repl - 1, stack_cell 0xfd := hi16 a)"
    using m5(4) m4(1) m3(4) m2(1) m1(3) assms(1,2) by (simp_all del: asm.simps)
  let ?m6 = "asm [txa, pha, lda p zp_mem, sta p 0x01, lda_imm 0x00, tax, tay, pha] m5"
  have m6: "rA ?m6 = 0" "rX ?m6 = 0" "rY ?m6 = 0" "rS ?m6 = 0xfa" "P01 ?m6 = c" "ddrb ?m6 = 0" "c_env ?m6 = c_env m5"
    "flips ?m6 = flips m5" "talk ?m6 = talk m5"
    "ram ?m6 = (ram m5)(stack_cell 0xfc := lo16 a, stack_cell 0xfb := 0)"
    using r5 m5(2) by (simp_all add: machine_defs)
  have "jump64 p m = Some (rti ?m6)" using m1(1) m3(1) m5(1) by (simp add: jump64_def)
  moreover have "rti ?m6 = (Rti 0 a, ?m6\<lparr>rS := 0xfd\<rparr>)"
    using m6(4,10) r5(5) by (simp add: rti_def pop_def del: asm.simps)
  moreover have "fst (rts (?m6\<lparr>rS := 0xfd\<rparr>)) = Rts repl"
    using m6(10) r5(5) by (simp add: rts_def pop_def repl_def lo16_def hi16_def word16_le_def del: asm.simps)
  ultimately show ?thesis
    using m6 r5 m5(3) by (intro exI [of _ "?m6\<lparr>rS := 0xfd\<rparr>"]) (auto simp del: asm.simps)
qed

lemma inject_line:
  assumes "P01 m = 0x37" "ddrb m = 0" and line: "line (c_env m) = map Sent [hi16 a, lo16 a] @ es"
  shows "\<exists>m'. inject64 p ret m = Some (Rts (a + 1), m') \<and> line (c_env m') = es \<and> P01 m' = 0x37 \<and> ddrb m' = 0 \<and>
    fst (rts m') = Rts (ret + 1) \<and> rS (snd (rts m')) = rS m \<and>
    talk m' = talk m @ map Sent [hi16 a, lo16 a] \<and> flips m' = flips m + 2 \<and>
    (\<forall>x. \<not> server_cell x \<longrightarrow> ram m' x = ram m x)"
proof -
  let ?s = "rS m"
  let ?m2 = "asm [lda_imm (hi16 ret), pha, lda_imm (lo16 ret), pha] m"
  have m2: "view ?m2 = view (m\<lparr>rS := ?s - 2, ram := (ram m)(stack_cell ?s := hi16 ret, stack_cell (?s - 1) := lo16 ret)\<rparr>)"
    "c_env ?m2 = c_env m"
    by (simp_all add: machine_defs)
  have i2: "io_visible (P01 ?m2)" "ddrb ?m2 = 0" "line (c_env ?m2) = Sent (hi16 a) # Sent (lo16 a) # es"
    using m2 line assms(1,2) by (simp_all del: asm.simps)
  obtain m3 where m3: "read64 p ?m2 = Some m3" "rX m3 = hi16 a" "line (c_env m3) = Sent (lo16 a) # es"
    "view m3 = view (?m2\<lparr>talk := talk ?m2 @ [Sent (hi16 a)], flips := Suc (flips ?m2)\<rparr>)"
    using read_line [OF i2] by blast
  let ?m4 = "asm [txa, pha] m3"
  have m4: "view ?m4 = view (m3\<lparr>rS := ?s - 3, ram := (ram m3)(stack_cell (?s - 2) := hi16 a)\<rparr>)" "c_env ?m4 = c_env m3"
    using m3(2,4) m2(1) by (simp_all add: machine_defs)
  have i4: "io_visible (P01 ?m4)" "ddrb ?m4 = 0" "line (c_env ?m4) = Sent (lo16 a) # es"
    using m4 m3 m2 assms(1,2) by (simp_all del: asm.simps)
  obtain m5 where m5: "read64 p ?m4 = Some m5" "rX m5 = lo16 a" "line (c_env m5) = es"
    "view m5 = view (?m4\<lparr>talk := talk ?m4 @ [Sent (lo16 a)], flips := Suc (flips ?m4)\<rparr>)"
    using read_line [OF i4] by blast
  let ?m6 = "asm [txa, pha] m5"
  have s5: "rS m5 = ?s - 3" using m5(4) m4(1) by (simp del: asm.simps)
  have m6: "view ?m6 = view (m5\<lparr>rS := ?s - 4, ram := (ram m5)(stack_cell (?s - 3) := lo16 a)\<rparr>)" "c_env ?m6 = c_env m5"
    using m5(2) s5 by (simp_all add: machine_defs)
  have r6: "rS ?m6 = ?s - 4" "ddrb ?m6 = 0" "P01 ?m6 = 0x37" "flips ?m6 = flips m + 2" "talk ?m6 = talk m @ map Sent [hi16 a, lo16 a]"
    "ram ?m6 = (ram m)(stack_cell ?s := hi16 ret, stack_cell (?s - 1) := lo16 ret, stack_cell (?s - 2) := hi16 a, stack_cell (?s - 3) := lo16 a)"
    using m6(1) m5(4) m4(1) m3(4) m2(1) assms(1,2) by (simp_all del: asm.simps)
  have "inject64 p ret m = Some (rts ?m6)" using m3(1) m5(1) by (simp add: inject64_def del: asm.simps)
  moreover have "rts ?m6 = (Rts (a + 1), ?m6\<lparr>rS := ?s - 2\<rparr>)"
    using r6(1,6) by (simp add: rts_def pop_def del: asm.simps)
  moreover have "rts (?m6\<lparr>rS := ?s - 2\<rparr>) = (Rts (ret + 1), ?m6\<lparr>rS := ?s\<rparr>)"
    using r6(6) by (simp add: rts_def pop_def del: asm.simps)
  ultimately show ?thesis
    using r6 m6(2) m5(3) by (intro exI [of _ "?m6\<lparr>rS := ?s - 2\<rparr>"]) (auto simp del: asm.simps)
qed

lemma write_all_line:
  "io_visible (P01 m) \<Longrightarrow> length evs = length bs \<Longrightarrow> line (c_env m) = evs @ es \<Longrightarrow>
   \<exists>m'. write_all p bs m = Some m' \<and> line (c_env m') = es \<and>
     view m' = view (m\<lparr>talk := talk m @ map Got bs, flips := flips m + length bs\<rparr>)"
proof (induction bs arbitrary: m evs)
  case (Cons b bs)
  obtain ev evs' where evs: "evs = ev # evs'" using Cons.prems(2) by (cases evs) auto
  let ?m = "lda_imm b m"
  have v: "view ?m = view m" "rA ?m = b" "c_env ?m = c_env m" by (simp_all add: machine_defs)
  then obtain m1 where m1: "write64 p ?m = Some m1" "line (c_env m1) = evs' @ es"
    "view m1 = view (m\<lparr>talk := talk m @ [Got b], flips := Suc (flips m)\<rparr>)"
    using write_line [of ?m ev "evs' @ es"] Cons.prems evs by auto
  have "\<exists>m'. write_all p bs m1 = Some m' \<and> line (c_env m') = es \<and>
     view m' = view (m1\<lparr>talk := talk m1 @ map Got bs, flips := flips m1 + length bs\<rparr>)"
    by (rule Cons.IH) (use Cons.prems evs m1 in auto)
  then show ?case using m1 by auto
qed simp

lemma identify_line:
  assumes "P01 m = 0x37" and line: "line (c_env m) = ev # evs @ es" "length evs = 15"
  shows "\<exists>m'. identify64 p org eof m = Some m' \<and> line (c_env m') = es \<and>
    view m' = view (m\<lparr>ddrb := 0, talk := talk m @ Ready # map Got (server_block org eof @ [ram m memtop, ram m (memtop + 1)]),
      flips := flips m + 15\<rparr>)"
proof -
  have ev: "evs = take 13 evs @ [evs ! 13, evs ! 14]"
    using line(2) by (intro nth_equalityI) (auto simp: nth_append less_Suc_eq nth_Cons' eval_nat_numeral)
  obtain m1 where m1: "output64 p m = Some m1" "line (c_env m1) = evs @ es" "view m1 = view (m\<lparr>ddrb := 0xff, talk := talk m @ [Ready]\<rparr>)"
    using output_line [OF assms(1) line(1)] by blast
  let ?bs = "server_block org eof"
  have l: "length (take 13 evs) = length ?bs" using line(2) by (simp add: server_block_def)
  have "line (c_env m1) = take 13 evs @ [evs ! 13, evs ! 14] @ es" using m1(2) ev by (metis append_assoc)
  with l obtain m2 where m2: "write_all p ?bs m1 = Some m2" "line (c_env m2) = [evs ! 13, evs ! 14] @ es"
    "view m2 = view (m1\<lparr>talk := talk m1 @ map Got ?bs, flips := flips m1 + 13\<rparr>)"
    using write_all_line [of m1 "take 13 evs" ?bs] m1(3) assms(1) by (auto simp: server_block_def)
  let ?l = "lda p memtop m2"
  have v: "view ?l = view m2" "rA ?l = ram m memtop" "c_env ?l = c_env m2" using m2(3) m1(3) by (simp_all add: machine_defs)
  obtain m3 where m3: "write64 p ?l = Some m3" "line (c_env m3) = evs ! 14 # es"
    "view m3 = view (m2\<lparr>talk := talk m2 @ [Got (ram m memtop)], flips := Suc (flips m2)\<rparr>)"
    using write_line [of ?l "evs ! 13" "evs ! 14 # es"] v m2 m1(3) assms(1) by auto
  let ?h = "lda p (memtop + 1) m3"
  have v: "view ?h = view m3" "rA ?h = ram m (memtop + 1)" "c_env ?h = c_env m3" using m3(3) m2(3) m1(3) by (simp_all add: machine_defs)
  obtain m4 where m4: "write64 p ?h = Some m4" "line (c_env m4) = es"
    "view m4 = view (m3\<lparr>talk := talk m3 @ [Got (ram m (memtop + 1))], flips := Suc (flips m3)\<rparr>)"
    using write_line [of ?h "evs ! 14" es] v m3 m2(3) m1(3) assms(1) by auto
  have "identify64 p org eof m = Some (input64 p m4)"
    using m1(1) m2(1) m3(1) m4(1)
    by (simp del: write_all.simps add: identify64_def server_block_def Server_size_def Server_id_def Server_version_def Server_machine_def Server_type_def)
  moreover have "view (input64 p m4) = view (m4\<lparr>ddrb := 0\<rparr>)" "c_env (input64 p m4) = c_env m4"
    using input_view [of m4 p] m4(3) m3(3) m2(3) m1(3) assms(1) by simp_all
  ultimately show ?thesis using m4(2,3) m3(3) m2(3) m1(3) by auto
qed

lemma serve_line:
  assumes "P01 m = 0x37" "ddrb m = 0" "line (c_env m) = Sent c # es" "bit (fst (icr p (c_env m))) 4"
  shows "\<exists>m1. serve64 p org ret eof m = dispatch64 p org ret eof m1 \<and> rY m1 = c \<and> line (c_env m1) = es \<and>
    P01 m1 = 0x37 \<and> ddrb m1 = 0 \<and> rS m1 = rS m \<and> ram m1 = ram m \<and> talk m1 = talk m @ [Sent c] \<and> flips m1 = Suc (flips m)"
proof -
  obtain v e where v: "icr p (c_env m) = (v, e)" by fastforce
  then have b: "bit v 4" using assms(4) by simp
  with strobe [OF v _ b] assms(3) have e: "line e = es" "lit e = Sent c" by auto
  let ?m = "asm [lda p 0xdd0d, and_imm 0x10] m"
  have m: "?m = m\<lparr>rA := 0x10, fZ := False, fN := False, c_env := e\<rparr>"
    using assms(1) v b by (simp add: machine_defs read_io_def and_flag)
  obtain b' e' where b': "pins p e = (b', e')" by fastforce
  with pins_lit [OF b'] e have x: "b' = c" "line e' = es" by auto
  let ?n = "ldy p 0xdd01 ?m"
  have n: "view ?n = view (m\<lparr>rY := c, talk := talk m @ [Sent c]\<rparr>)" "c_env ?n = e'"
    using m assms(1,2) b' x by (simp_all add: machine_defs read_io_def)
  have "serve64 p org ret eof m = dispatch64 p org ret eof (ack64 p ?n)"
  proof -
    have "\<not> fZ ?m" unfolding m by simp
    then show ?thesis by (simp add: serve64_def Let_def)
  qed
  moreover have "view (ack64 p ?n) = view (?n\<lparr>flips := Suc (flips ?n)\<rparr>)" "c_env (ack64 p ?n) = e'"
    using ack_flips [of ?n p] n assms(1) by (simp_all del: asm.simps)
  ultimately show ?thesis using n x assms(1,2) by (intro exI [of _ "ack64 p ?n"]) (simp del: asm.simps)
qed

end

end
