(* ===== verification/Server_Host.thy ===== *)
theory Server_Host
  imports Server64_Commands
begin

text \<open>
  A concrete host for the server: it strobes a given conversation, however slowly. On this host
  every command of the server runs to its end, with the effect that the command should have.
\<close>

section \<open>The host as the server sees it\<close>

text \<open>
  \<open>q_line\<close> is what the host will still strobe. It takes its time: the next strobe comes after
  \<open>q_wait\<close> looks at the flag, the one after that after the first of \<open>q_waits\<close>, and so on.
\<close>

record host_line =
  q_line :: "bus_event list"
  q_lit :: bus_event
  q_wait :: nat
  q_waits :: "nat list"

definition next_strobe :: "host_line \<Rightarrow> uchar \<times> host_line" where
  "next_strobe e =
     (case (q_wait e, q_line e) of
        (Suc k, _) \<Rightarrow> (0, e\<lparr>q_wait := k\<rparr>)
      | (0, []) \<Rightarrow> (0, e)
      | (0, ev # es) \<Rightarrow> (0x10, e\<lparr>q_line := es, q_lit := ev,
           q_wait := (case q_waits e of [] \<Rightarrow> 0 | w # ws \<Rightarrow> w), q_waits := tl (q_waits e)\<rparr>))"

definition host_board :: "(ushort \<Rightarrow> uchar) \<Rightarrow> (ushort \<Rightarrow> host_line cpu \<Rightarrow> host_line cpu) \<Rightarrow> (ushort \<Rightarrow> uchar)
    \<Rightarrow> host_line c64_board" where
  "host_board roms calls io = \<lparr>icr = next_strobe, pins = (\<lambda>e. (case q_lit e of Sent b \<Rightarrow> b | _ \<Rightarrow> 0xff, e)),
     io_read = (\<lambda>a e. (io a, e)), io_write = (\<lambda>a v e. e), rom = roms, rom_jsr = calls\<rparr>"

interpretation host: strobe_line "host_board roms calls io" q_line q_lit q_wait
proof
  fix e v e'
  assume "icr (host_board roms calls io) e = (v, e')" "q_line e \<noteq> []"
  then show "\<not> bit v 4 \<Longrightarrow> q_line e' = q_line e \<and> q_wait e' < q_wait e" "bit v 4 \<Longrightarrow> q_line e = q_lit e' # q_line e'"
    by (auto simp: host_board_def next_strobe_def bit_flag split: nat.splits list.splits)
qed (auto simp: host_board_def)

text \<open>The server as the interrupt finds it, when the host has strobed the first of \<open>conv\<close>.\<close>

definition called :: "host_line cpu \<Rightarrow> bus_event list \<Rightarrow> bool" where
  "called m conv \<longleftrightarrow> P01 m = 0x37 \<and> ddrb m = 0 \<and> q_line (c_env m) = conv \<and> q_wait (c_env m) = 0"

lemma called_serve:
  assumes "called m (Sent c # es)"
  shows "\<exists>m1. serve64 (host_board roms calls io) org ret eof m = dispatch64 (host_board roms calls io) org ret eof m1 \<and>
    rY m1 = c \<and> q_line (c_env m1) = es \<and> P01 m1 = 0x37 \<and> ddrb m1 = 0 \<and> rS m1 = rS m \<and> ram m1 = ram m \<and>
    talk m1 = talk m @ [Sent c] \<and> flips m1 = Suc (flips m)"
proof (rule host.serve_line)
  show "bit (fst (icr (host_board roms calls io) (c_env m))) 4"
    using assms by (simp add: called_def host_board_def next_strobe_def bit_flag)
qed (use assms in \<open>simp_all add: called_def\<close>)

lemma stored_at: "i < length bs \<Longrightarrow> length bs < 65536 \<Longrightarrow> stored r a bs (a + word_of_nat i) = bs ! i"
proof -
  assume i: "i < length bs" "length bs < 65536"
  then have "unat (word_of_nat i :: ushort) = i" by (simp add: unat_of_nat)
  then show ?thesis using i(1) by (simp add: stored_def)
qed

section \<open>The commands, as the host calls them\<close>

definition header :: "uchar \<Rightarrow> uchar \<Rightarrow> ushort \<Rightarrow> nat \<Rightarrow> uchar list" where
  "header c b a n = (let e = a + word_of_nat n in [c, b, lo16 a, hi16 a, lo16 e, hi16 e])"

lemma serve_load:
  assumes "called m (map Sent (Command_load # header c b a (length bytes) @ bytes))"
    and "bytes \<noteq> []" "length bytes < 65536" "\<forall>i < length bytes. loadable c (a + word_of_nat i)"
  shows "\<exists>m'. serve64 (host_board roms calls io) org ret eof m = Some (Done, m') \<and>
    talk m' = talk m @ map Sent (Command_load # header c b a (length bytes) @ bytes) \<and>
    flips m' = flips m + 7 + length bytes \<and> P01 m' = 0x37 \<and> ddrb m' = 0 \<and> rS m' = rS m \<and>
    (\<forall>x. \<not> server_cell x \<longrightarrow> ram m' x = stored (ram m) a bytes x) \<and>
    pointer bend m' = (if a = pointer bstart m then a + word_of_nat (length bytes) else pointer bend m)"
proof -
  let ?p = "host_board roms calls io" and ?e = "a + word_of_nat (length bytes)"
  have conv: "map Sent (Command_load # header c b a (length bytes) @ bytes) =
      Sent 1 # map Sent ([c, b, lo16 a, hi16 a, lo16 ?e, hi16 ?e] @ bytes)"
    by (simp add: header_def Command_defs Let_def)
  from called_serve [OF assms(1) [unfolded conv], of roms calls io org ret eof] obtain m1 where m1:
    "serve64 ?p org ret eof m = dispatch64 ?p org ret eof m1" "rY m1 = 1"
    "q_line (c_env m1) = map Sent ([c, b, lo16 a, hi16 a, lo16 ?e, hi16 ?e] @ bytes)"
    "P01 m1 = 0x37" "ddrb m1 = 0" "rS m1 = rS m" "ram m1 = ram m" "talk m1 = talk m @ [Sent 1]" "flips m1 = Suc (flips m)" by blast
  then have "q_line (c_env m1) = map Sent ([c, b, lo16 a, hi16 a, lo16 ?e, hi16 ?e] @ bytes) @ []" by simp
  from host.load_line [OF m1(4,5) assms(2,3) this refl assms(4), of roms calls io] obtain m' where m': "load64 ?p m1 = Some m'"
    "P01 m' = 0x37" "ddrb m' = 0" "rS m' = rS m" "flips m' = flips m + 7 + length bytes"
    "talk m' = talk m1 @ map Sent ([c, b, lo16 a, hi16 a, lo16 ?e, hi16 ?e] @ bytes)"
    "\<forall>x. \<not> server_cell x \<longrightarrow> ram m' x = stored (ram m) a bytes x"
    "pointer bend m' = (if a = pointer bstart m then ?e else pointer bend m)"
    using m1(6,7,9) by (auto simp: pointer_def)
  have "serve64 ?p org ret eof m = Some (Done, m')" using m1(1,2) m'(1) by (simp add: dispatch64_def Command_defs)
  then show ?thesis using m' m1(8) unfolding conv by (intro exI [of _ m']) simp
qed

lemma serve_save:
  assumes "called m (map Sent (Command_save # header c b a n) @ Ready # evs)"
    and "length evs = n" "0 < n" "n < 65536" "\<forall>i < n. readable c (a + word_of_nat i)"
  shows "\<exists>m'. serve64 (host_board roms calls io) org ret eof m = Some (Done, m') \<and>
    talk m' = talk m @ map Sent (Command_save # header c b a n) @ Ready #
      map (\<lambda>i. Got (seen (host_board roms calls io) c (ram m) (a + word_of_nat i))) [0..<n] \<and>
    flips m' = flips m + 7 + n \<and> P01 m' = 0x37 \<and> ddrb m' = 0 \<and> rS m' = rS m \<and>
    (\<forall>x. \<not> server_cell x \<longrightarrow> ram m' x = ram m x)"
proof -
  let ?p = "host_board roms calls io" and ?e = "a + word_of_nat n"
  have conv: "map Sent (Command_save # header c b a n) = Sent 2 # map Sent [c, b, lo16 a, hi16 a, lo16 ?e, hi16 ?e]"
    by (simp add: header_def Command_defs Let_def)
  have "called m (Sent 2 # map Sent [c, b, lo16 a, hi16 a, lo16 ?e, hi16 ?e] @ Ready # evs)"
    using assms(1) unfolding conv by simp
  from called_serve [OF this, of roms calls io org ret eof] obtain m1 where m1:
    "serve64 ?p org ret eof m = dispatch64 ?p org ret eof m1" "rY m1 = 2"
    "q_line (c_env m1) = map Sent [c, b, lo16 a, hi16 a, lo16 ?e, hi16 ?e] @ Ready # evs"
    "P01 m1 = 0x37" "ddrb m1 = 0" "rS m1 = rS m" "ram m1 = ram m" "talk m1 = talk m @ [Sent 2]" "flips m1 = Suc (flips m)" by blast
  from m1(3) have "q_line (c_env m1) = map Sent [c, b, lo16 a, hi16 a, lo16 ?e, hi16 ?e] @ Ready # evs @ []" by simp
  from host.save_line [OF m1(4,5) assms(3,4) this assms(2) refl assms(5), of roms calls io] obtain m' where m': "save64 ?p m1 = Some m'"
    "P01 m' = 0x37" "ddrb m' = 0" "rS m' = rS m1" "flips m' = flips m1 + 6 + n"
    "talk m' = talk m1 @ map Sent [c, b, lo16 a, hi16 a, lo16 ?e, hi16 ?e] @
      Ready # map (\<lambda>i. Got (seen ?p c (ram m1) (a + word_of_nat i))) [0..<n]"
    "\<forall>x. \<not> server_cell x \<longrightarrow> ram m' x = ram m1 x" by blast
  have "serve64 ?p org ret eof m = Some (Done, m')" using m1(1,2) m'(1) by (simp add: dispatch64_def Command_defs)
  then show ?thesis using m' m1(6-9) unfolding conv by (intro exI [of _ m']) simp
qed

lemma serve_poke:
  assumes "called m (map Sent [Command_poke, c, b, lo16 a, hi16 a, v])" "readable c a"
  shows "\<exists>m'. serve64 (host_board roms calls io) org ret eof m = Some (Done, m') \<and>
    talk m' = talk m @ map Sent [Command_poke, c, b, lo16 a, hi16 a, v] \<and> flips m' = flips m + 6 \<and>
    (\<forall>x. \<not> server_cell x \<longrightarrow> ram m' x = ((ram m)(a := v)) x)"
proof -
  let ?p = "host_board roms calls io"
  have "called m (Sent 3 # map Sent [c, b, lo16 a, hi16 a, v])" using assms(1) by (simp add: Command_defs)
  from called_serve [OF this, of roms calls io org ret eof] obtain m1 where m1:
    "serve64 ?p org ret eof m = dispatch64 ?p org ret eof m1" "rY m1 = 3" "q_line (c_env m1) = map Sent [c, b, lo16 a, hi16 a, v] @ []"
    "P01 m1 = 0x37" "ddrb m1 = 0" "ram m1 = ram m" "talk m1 = talk m @ [Sent 3]" "flips m1 = Suc (flips m)" by auto
  from host.poke_line [OF m1(4,5,3) assms(2), of roms calls io] obtain m' where m': "poke64 ?p m1 = Some m'"
    "talk m' = talk m1 @ map Sent [c, b, lo16 a, hi16 a, v]" "flips m' = flips m1 + 5"
    "\<forall>x. \<not> server_cell x \<longrightarrow> ram m' x = ((ram m1)(a := v)) x" by blast
  then show ?thesis using m1 by (intro exI [of _ m']) (simp add: dispatch64_def Command_defs)
qed

lemma serve_peek:
  assumes "called m (map Sent [Command_peek, c, b, lo16 a, hi16 a] @ [Ready, ev])" "readable c a"
  shows "\<exists>m'. serve64 (host_board roms calls io) org ret eof m = Some (Done, m') \<and>
    talk m' = talk m @ map Sent [Command_peek, c, b, lo16 a, hi16 a] @ [Ready, Got (seen (host_board roms calls io) c (ram m) a)] \<and>
    flips m' = flips m + 6 \<and>
    (\<forall>x. \<not> server_cell x \<longrightarrow> ram m' x = ram m x)"
proof -
  let ?p = "host_board roms calls io"
  have "called m (Sent 4 # map Sent [c, b, lo16 a, hi16 a] @ [Ready, ev])" using assms(1) by (simp add: Command_defs)
  from called_serve [OF this, of roms calls io org ret eof] obtain m1 where m1:
    "serve64 ?p org ret eof m = dispatch64 ?p org ret eof m1" "rY m1 = 4" "q_line (c_env m1) = map Sent [c, b, lo16 a, hi16 a] @ [Ready, ev]"
    "P01 m1 = 0x37" "ddrb m1 = 0" "ram m1 = ram m" "talk m1 = talk m @ [Sent 4]" "flips m1 = Suc (flips m)" by auto
  from host.peek_line [OF m1(4,5,3) assms(2), of roms calls io] obtain m' where m': "peek64 ?p m1 = Some m'"
    "talk m' = talk m1 @ map Sent [c, b, lo16 a, hi16 a] @ [Ready, Got (seen ?p c (ram m1) a)]" "flips m' = flips m1 + 5"
    "\<forall>x. \<not> server_cell x \<longrightarrow> ram m' x = ram m1 x" by blast
  then show ?thesis using m1 by (intro exI [of _ m']) (simp add: dispatch64_def Command_defs)
qed

lemma serve_jump:
  assumes "called m (map Sent [Command_jump, c, b, hi16 a, lo16 a])"
  shows "\<exists>m'. serve64 (host_board roms calls io) org ret eof m = Some (Rti 0 a, m') \<and> P01 m' = c \<and>
    rA m' = 0 \<and> rX m' = 0 \<and> rY m' = 0 \<and> fst (rts m') = Rts repl \<and> flips m' = flips m + 5 \<and>
    (\<forall>x. \<not> server_cell x \<longrightarrow> ram m' x = ram m x)"
proof -
  let ?p = "host_board roms calls io"
  have "called m (Sent 5 # map Sent [c, b, hi16 a, lo16 a])" using assms by (simp add: Command_defs)
  from called_serve [OF this, of roms calls io org ret eof] obtain m1 where m1:
    "serve64 ?p org ret eof m = dispatch64 ?p org ret eof m1" "rY m1 = 5" "q_line (c_env m1) = map Sent [c, b, hi16 a, lo16 a] @ []"
    "P01 m1 = 0x37" "ddrb m1 = 0" "ram m1 = ram m" "flips m1 = Suc (flips m)" by auto
  from host.jump_line [OF m1(4,5,3), of roms calls io] obtain m' where m': "jump64 ?p m1 = Some (Rti 0 a, m')" "P01 m' = c"
    "rA m' = 0" "rX m' = 0" "rY m' = 0" "fst (rts m') = Rts repl" "flips m' = flips m1 + 4"
    "\<forall>x. \<not> server_cell x \<longrightarrow> ram m' x = ram m1 x" by blast
  then show ?thesis using m1 by (intro exI [of _ m']) (simp add: dispatch64_def Command_defs)
qed

lemma serve_inject:
  assumes "called m (map Sent [Command_inject, hi16 a, lo16 a])"
  shows "\<exists>m'. serve64 (host_board roms calls io) org ret eof m = Some (Rts (a + 1), m') \<and> P01 m' = 0x37 \<and>
    fst (rts m') = Rts (ret + 1) \<and> rS (snd (rts m')) = rS m \<and> flips m' = flips m + 3 \<and>
    (\<forall>x. \<not> server_cell x \<longrightarrow> ram m' x = ram m x)"
proof -
  let ?p = "host_board roms calls io"
  have "called m (Sent 7 # map Sent [hi16 a, lo16 a])" using assms by (simp add: Command_defs)
  from called_serve [OF this, of roms calls io org ret eof] obtain m1 where m1:
    "serve64 ?p org ret eof m = dispatch64 ?p org ret eof m1" "rY m1 = 7" "q_line (c_env m1) = map Sent [hi16 a, lo16 a] @ []"
    "P01 m1 = 0x37" "ddrb m1 = 0" "rS m1 = rS m" "ram m1 = ram m" "flips m1 = Suc (flips m)" by auto
  from host.inject_line [OF m1(4,5,3), of roms calls io ret] obtain m' where m': "inject64 ?p ret m1 = Some (Rts (a + 1), m')"
    "P01 m' = 0x37" "fst (rts m') = Rts (ret + 1)" "rS (snd (rts m')) = rS m1" "flips m' = flips m1 + 2"
    "\<forall>x. \<not> server_cell x \<longrightarrow> ram m' x = ram m1 x" by blast
  then show ?thesis using m1 by (intro exI [of _ m']) (simp add: dispatch64_def Command_defs)
qed

lemma serve_identify:
  assumes "called m (Sent Command_identify # Ready # evs)" "length evs = 15"
  shows "\<exists>m'. serve64 (host_board roms calls io) org ret eof m = Some (Done, m') \<and>
    talk m' = talk m @ Sent Command_identify # Ready # map Got (server_block org eof @ [ram m memtop, ram m (memtop + 1)]) \<and>
    flips m' = flips m + 16 \<and> ram m' = ram m"
proof -
  let ?p = "host_board roms calls io"
  from called_serve [OF assms(1), of roms calls io org ret eof] obtain m1 where m1:
    "serve64 ?p org ret eof m = dispatch64 ?p org ret eof m1" "rY m1 = Command_identify" "q_line (c_env m1) = Ready # evs @ []"
    "P01 m1 = 0x37" "ram m1 = ram m" "talk m1 = talk m @ [Sent Command_identify]" "flips m1 = Suc (flips m)" by auto
  from host.identify_line [OF m1(4,3) assms(2), of roms calls io org eof] obtain m' where m': "identify64 ?p org eof m1 = Some m'"
    "view m' = view (m1\<lparr>ddrb := 0, talk := talk m1 @ Ready # map Got (server_block org eof @ [ram m1 memtop, ram m1 (memtop + 1)]),
      flips := flips m1 + 15\<rparr>)"
    by blast
  have "dispatch64 ?p org ret eof m1 = Some (Done, m')"
    using m1(2) m'(1) by (simp add: dispatch64_def Command_defs)
  then have "serve64 ?p org ret eof m = Some (Done, m')" by (simp only: m1(1))
  moreover have "talk m' = talk m1 @ Ready # map Got (server_block org eof @ [ram m1 memtop, ram m1 (memtop + 1)])"
    "flips m' = flips m1 + 15" "ram m' = ram m1"
    using m'(2) by simp_all
  ultimately show ?thesis using m1(5-7) by (intro exI [of _ m']) (simp del: map_append)
qed

section \<open>A C64 for the witnesses\<close>

text \<open>A C64 whose memory is empty but for the pointers of BASIC, waiting for its host.\<close>

definition sample_c64 :: "bus_event list \<Rightarrow> host_line cpu" where
  "sample_c64 conv =
     \<lparr>rA = 0, rX = 0, rY = 0, rS = 0xf0, fZ = False, fN = False, P01 = 0x37,
      ram = (\<lambda>_. 0)(bstart := 0x01, bstart + 1 := 0x08, bend := 0x03, bend + 1 := 0x08, memtop + 1 := 0xa0),
      pra = 0, prb = 0, ddra = 0x3f, ddrb = 0, talk = [], flips = 0,
      c_env = \<lparr>q_line = conv, q_lit = Ready, q_wait = 0, q_waits = [2, 0, 1]\<rparr>\<rparr>"

lemma sample_c64_called [simp]: "called (sample_c64 conv) conv"
  by (simp add: called_def sample_c64_def)

abbreviation sample_board :: "host_line c64_board" where
  "sample_board \<equiv> host_board (\<lambda>_. 0xff) (\<lambda>_ m. m) (\<lambda>_. 0)"

end
