(* ===== verification/Server_Link.thy ===== *)
theory Server_Link
  imports Server_Host Xlink_Bus
begin

text \<open>
  The host and the server together: what a request of the library that reports success over the
  parallel port has done to the memory and the processor of the C64, when the server is called
  with what the host strobed.
\<close>

section \<open>The conversation of a request\<close>

text \<open>What passed over the bus during a request, after the byte of its ping.\<close>

definition after_ping :: "'w xlink \<Rightarrow> 'w xlink \<Rightarrow> bus_event list" where
  "after_ping s s' = drop (Suc (length (pp_bus (trace s)))) (pp_bus (trace s'))"

lemma bytes16 [simp]: "lo (ucast a) = lo16 a" "hi (ucast a) = hi16 a" for a :: ushort
  by (rule bit_word_eqI; auto simp: bit_bytes lo16_def hi16_def bit_simps ac_simps)+

lemma range_header:
  "range_command XLINK_COMMAND_LOAD c b a n = Command_load # header c b a n"
  "range_command XLINK_COMMAND_SAVE c b a n = Command_save # header c b a n"
  by (simp_all add: range_command_def header_def Let_def command_codes Command_defs)

lemma load_after_ping:
  assumes "xlink_load (libxlink_driver sy) c b a bytes s = Some (True, s')" "drv_backend s = BParport"
  shows "after_ping s s' = map Sent (Command_load # header c b a (length bytes) @ bytes)"
  using ppb.load_says [OF assms(1)] assms(2)
  by (simp add: pp_port_def range_header after_ping_def)

lemma save_after_ping:
  assumes "xlink_save (libxlink_driver sy) c b a n s = Some ((True, bytes), s')" "drv_backend s = BParport"
  shows "length bytes = n" "after_ping s s' = map Sent (Command_save # header c b a n) @ Ready # map Got bytes"
  using ppb.save_says [OF assms(1)] assms(2)
  by (simp_all add: pp_port_def range_header after_ping_def)

section \<open>Load\<close>

lemma loadable_cell: "loadable c a \<Longrightarrow> \<not> server_cell a"
  by (simp add: loadable_def)

lemma load_served:
  assumes "xlink_load (libxlink_driver sy) c b a bytes s = Some (True, s')" "drv_backend s = BParport"
    and "called m (after_ping s s')" "bytes \<noteq> []" "length bytes < 65536"
    and "\<forall>i < length bytes. loadable c (a + word_of_nat i)"
  shows "\<exists>m'. serve64 (host_board roms calls io) org ret eof m = Some (Done, m') \<and>
    drop (length (talk m)) (talk m') = after_ping s s' \<and> flips m' = flips m + length (after_ping s s') \<and>
    (\<forall>i < length bytes. ram m' (a + word_of_nat i) = bytes ! i) \<and>
    (\<forall>x. \<not> server_cell x \<and> (\<forall>i < length bytes. x \<noteq> a + word_of_nat i) \<longrightarrow> ram m' x = ram m x) \<and>
    pointer bend m' = (if a = pointer bstart m then a + word_of_nat (length bytes) else pointer bend m)"
proof -
  note conv = load_after_ping [OF assms(1,2)]
  from serve_load [OF _ assms(4-6), of m b roms calls io org ret eof] assms(3) obtain m' where
    m': "serve64 (host_board roms calls io) org ret eof m = Some (Done, m')"
      "talk m' = talk m @ map Sent (Command_load # header c b a (length bytes) @ bytes)"
      "flips m' = flips m + 7 + length bytes"
      "\<forall>x. \<not> server_cell x \<longrightarrow> ram m' x = stored (ram m) a bytes x"
      "pointer bend m' = (if a = pointer bstart m then a + word_of_nat (length bytes) else pointer bend m)"
    unfolding conv by blast
  have "length (header c b a (length bytes)) = 6" by (simp add: header_def Let_def)
  moreover have "ram m' (a + word_of_nat i) = bytes ! i" if "i < length bytes" for i
    using that m'(4) assms(5) loadable_cell [of c "a + word_of_nat i"] assms(6) by (simp add: stored_at)
  moreover have "ram m' x = ram m x" if "\<not> server_cell x" "\<forall>i < length bytes. x \<noteq> a + word_of_nat i" for x
    using that m'(4) stored_outside [of bytes a x "ram m"] by metis
  ultimately show ?thesis
    using m'(1-3,5) unfolding conv by (intro exI [of _ m'] conjI) simp_all
qed

text \<open>C17. A load arrives: when the library reports over the parallel port that a load succeeded, the
  server that is called with what the host strobed takes exactly that conversation, answers each
  strobe with one flip of its line, returns from the interrupt and leaves the bytes at their
  addresses and the rest of the memory, its own cells apart, as it was; a load to the start of
  BASIC moves the end of the program behind the bytes.\<close>

theorem load_link:
  assumes "xlink_load (libxlink_driver sy) c b a bytes s = Some (True, s')" "drv_backend s = BParport"
    and "called m (after_ping s s')" "bytes \<noteq> []" "length bytes < 65536"
    and "\<forall>i < length bytes. loadable c (a + word_of_nat i)"
  shows "\<exists>m'. serve64 (host_board roms calls io) org ret eof m = Some (Done, m') \<and>
    drop (length (talk m)) (talk m') = after_ping s s' \<and> flips m' = flips m + length (after_ping s s') \<and>
    (\<forall>i < length bytes. ram m' (a + word_of_nat i) = bytes ! i) \<and>
    (\<forall>x. \<not> server_cell x \<and> (\<forall>i < length bytes. x \<noteq> a + word_of_nat i) \<longrightarrow> ram m' x = ram m x) \<and>
    pointer bend m' = (if a = pointer bstart m then a + word_of_nat (length bytes) else pointer bend m)"
  using assms by (rule load_served)

theorem load_link_witness:
  "\<exists>s' m'. xlink_load (libxlink_driver sample_sys) 0x37 0 0x0801 [9, 8]
      (sample_state BParport [0, 0x80, 0, 0x80, 0, 0x80, 0, 0x80, 0, 0x80, 0]) = Some (True, s') \<and>
    serve64 sample_board 0xc000 0xc100 0xc200
      (sample_c64 (after_ping (sample_state BParport [0, 0x80, 0, 0x80, 0, 0x80, 0, 0x80, 0, 0x80, 0]) s')) = Some (Done, m') \<and>
    ram m' 0x0802 = 8"
proof -
  let ?s = "sample_state BParport [0, 0x80, 0, 0x80, 0, 0x80, 0, 0x80, 0, 0x80, 0]"
  let ?run = "xlink_load (libxlink_driver sample_sys) 0x37 0 0x0801 [9, 8] ?s"
  have "map_option fst ?run = Some True" by code_simp
  then obtain s' where run: "?run = Some (True, s')" by auto
  have "drv_backend ?s = BParport" by code_simp
  moreover have "\<forall>i < length [9, 8 :: uchar]. loadable 0x37 (0x0801 + word_of_nat i)"
    by (simp add: All_less_Suc loadable_def server_cell_def transfer_cell_def)
  ultimately obtain m' where "serve64 sample_board 0xc000 0xc100 0xc200 (sample_c64 (after_ping ?s s')) = Some (Done, m')"
    "\<forall>i < length [9, 8 :: uchar]. ram m' (0x0801 + word_of_nat i) = [9, 8] ! i"
    using load_link [OF run _ sample_c64_called, of "\<lambda>_. 0xff" "\<lambda>_ m. m" "\<lambda>_. 0" "0xc000" "0xc100" "0xc200"] by auto
  with run show ?thesis by (intro exI [of _ s'] exI [of _ m']) (auto dest: spec [of _ 1])
qed

section \<open>Save\<close>

text \<open>The server and the host have seen the same conversation.\<close>

definition same_talk :: "host_line cpu \<Rightarrow> host_line cpu \<Rightarrow> bus_event list \<Rightarrow> bool" where
  "same_talk m m' conv \<longleftrightarrow> talk m' = talk m @ conv"

lemma save_talk_served:
  assumes "called m (map Sent (Command_save # header c b a n) @ Ready # map Got bytes)" "length bytes = n"
    and "0 < n" "n < 65536" "\<forall>i < n. readable c (a + word_of_nat i)"
    and "serve64 (host_board roms calls io) org ret eof m = Some (x, m')"
    and "same_talk m m' (map Sent (Command_save # header c b a n) @ Ready # map Got bytes)"
  shows "x = Done \<and> bytes = map (\<lambda>i. seen (host_board roms calls io) c (ram m) (a + word_of_nat i)) [0..<n] \<and>
    (\<forall>z. \<not> server_cell z \<longrightarrow> ram m' z = ram m z)"
proof -
  from serve_save [OF assms(1) _ assms(3-5), of roms calls io org ret eof] assms(2,6)
  have x: "x = Done" "\<forall>z. \<not> server_cell z \<longrightarrow> ram m' z = ram m z"
    "talk m' = talk m @ map Sent (Command_save # header c b a n) @ Ready #
      map (\<lambda>i. Got (seen (host_board roms calls io) c (ram m) (a + word_of_nat i))) [0..<n]" by auto
  then have "map Got bytes = map Got (map (\<lambda>i. seen (host_board roms calls io) c (ram m) (a + word_of_nat i)) [0..<n])"
    using assms(7) unfolding same_talk_def by (simp add: comp_def)
  then have "bytes = map (\<lambda>i. seen (host_board roms calls io) c (ram m) (a + word_of_nat i)) [0..<n]"
    by (rule map_injective) (simp add: inj_def)
  with x show ?thesis by blast
qed

lemma save_served:
  assumes "xlink_save (libxlink_driver sy) c b a n s = Some ((True, bytes), s')" "drv_backend s = BParport"
    and "called m (after_ping s s')" "0 < n" "n < 65536" "\<forall>i < n. readable c (a + word_of_nat i)"
    and "serve64 (host_board roms calls io) org ret eof m = Some (x, m')" "same_talk m m' (after_ping s s')"
  shows "x = Done \<and> bytes = map (\<lambda>i. seen (host_board roms calls io) c (ram m) (a + word_of_nat i)) [0..<n] \<and>
    (\<forall>z. \<not> server_cell z \<longrightarrow> ram m' z = ram m z)"
  using assms save_talk_served unfolding save_after_ping(2) [OF assms(1,2)]
  by (metis save_after_ping(1) [OF assms(1,2)])

text \<open>C13. A save fetches the memory: when the library reports over the parallel port that a save
  succeeded, and the server that was called with what the host strobed has held the same
  conversation, then the bytes of the save are what the processor of the C64 reads at the
  addresses of the range, one after the other, in the memory configuration of the command, and
  the memory is as before.\<close>

theorem save_link:
  assumes "xlink_save (libxlink_driver sy) c b a n s = Some ((True, bytes), s')" "drv_backend s = BParport"
    and "called m (after_ping s s')" "0 < n" "n < 65536" "\<forall>i < n. readable c (a + word_of_nat i)"
    and "serve64 (host_board roms calls io) org ret eof m = Some (x, m')" "same_talk m m' (after_ping s s')"
  shows "x = Done \<and> bytes = map (\<lambda>i. seen (host_board roms calls io) c (ram m) (a + word_of_nat i)) [0..<n] \<and>
    (\<forall>z. \<not> server_cell z \<longrightarrow> ram m' z = ram m z)"
  using assms by (rule save_served)

abbreviation sample_save :: "uchar list \<Rightarrow> uchar list xlink" where
  "sample_save bs \<equiv> sample_state BParport ([0, 0x80, 0, 0x80, 0, 0x80, 0, 0x80, 0, 0x80] @ concat (map (\<lambda>b. [b, 0]) bs))"

abbreviation sample_load :: "uchar list xlink" where
  "sample_load \<equiv> sample_state BParport [0, 0x80, 0, 0x80, 0, 0x80, 0, 0x80, 0, 0x80, 0]"

lemma sample_save_run:
  "\<exists>s'. xlink_save (libxlink_driver sample_sys) 0x37 0 0x0801 2 (sample_save [9, 8]) = Some ((True, [9, 8]), s') \<and>
     drv_backend (sample_save [9, 8]) = BParport"
proof -
  have "map_option fst (xlink_save (libxlink_driver sample_sys) 0x37 0 0x0801 2 (sample_save [9, 8])) = Some (True, [9, 8])"
    by code_simp
  moreover have "drv_backend (sample_save [9, 8]) = BParport" by code_simp
  ultimately show ?thesis by auto
qed

text \<open>The C64 of the witnesses with two bytes in its memory, and the server's run of a save of them.\<close>

definition sample_c64_98 :: "bus_event list \<Rightarrow> host_line cpu" where
  "sample_c64_98 conv = (sample_c64 conv)\<lparr>ram := (ram (sample_c64 conv))(0x0801 := 9, 0x0802 := 8)\<rparr>"

lemma sample_98_called [simp]: "called (sample_c64_98 conv) conv"
  by (simp add: called_def sample_c64_98_def sample_c64_def)

lemma two_cells: "\<forall>i < 2. readable 0x37 (0x0801 + word_of_nat i)" "\<forall>i < 2. loadable 0x37 (0x0801 + word_of_nat i)"
    "\<forall>i < 2. \<not> rom_visible 0x37 (0x0801 + word_of_nat i)"
  by (auto simp: less_2_cases_iff readable_def loadable_def server_cell_def transfer_cell_def)

lemma sample_save_served:
  assumes "xlink_save (libxlink_driver sample_sys) 0x37 0 0x0801 2 (sample_save [9, 8]) = Some ((True, [9, 8]), s')"
    and "called m (after_ping (sample_save [9, 8]) s')" "ram m 0x0801 = 9" "ram m 0x0802 = 8"
  shows "\<exists>m'. serve64 sample_board 0xc000 0xc100 0xc200 m = Some (Done, m') \<and> same_talk m m' (after_ping (sample_save [9, 8]) s')"
proof -
  have "drv_backend (sample_save [9, 8]) = BParport" by code_simp
  note conv = save_after_ping(2) [OF assms(1) this]
  have "map (\<lambda>i. Got (seen sample_board 0x37 (ram m) (0x0801 + word_of_nat i))) [0..<2] = map Got [9, 8]"
    using assms(3,4) by (simp add: upt_rec seen_def)
  with serve_save [OF assms(2) [unfolded conv] _ _ _ two_cells(1), of "\<lambda>_. 0xff" "\<lambda>_ m. m" "\<lambda>_. 0" "0xc000" "0xc100" "0xc200"]
  show ?thesis unfolding same_talk_def conv by auto
qed

theorem save_link_witness:
  "\<exists>s' x m'. xlink_save (libxlink_driver sample_sys) 0x37 0 0x0801 2 (sample_save [9, 8]) = Some ((True, [9, 8]), s') \<and>
    serve64 sample_board 0xc000 0xc100 0xc200 (sample_c64_98 (after_ping (sample_save [9, 8]) s')) = Some (x, m') \<and>
    x = Done \<and> ram m' 0x0802 = 8"
proof -
  obtain s' where run: "xlink_save (libxlink_driver sample_sys) 0x37 0 0x0801 2 (sample_save [9, 8]) = Some ((True, [9, 8]), s')"
    "drv_backend (sample_save [9, 8]) = BParport"
    using sample_save_run by blast
  let ?m = "sample_c64_98 (after_ping (sample_save [9, 8]) s')"
  have mem: "ram ?m 0x0801 = 9" "ram ?m 0x0802 = 8" by (simp_all add: sample_c64_98_def)
  from sample_save_served [OF run(1) sample_98_called this] obtain m' where
    m': "serve64 sample_board 0xc000 0xc100 0xc200 ?m = Some (Done, m')" "same_talk ?m m' (after_ping (sample_save [9, 8]) s')"
    by blast
  have "\<not> server_cell 0x0802" by (simp add: server_cell_def transfer_cell_def)
  with save_link [OF run sample_98_called _ _ two_cells(1) m'] mem(2) have "ram m' 0x0802 = 8" by auto
  with run(1) m'(1) show ?thesis by blast
qed

section \<open>Load and save\<close>

text \<open>C18. Memory survives the cable: bytes that a load has put into the C64, which then leaves them
  alone, are what a later save of the same range returns, when no ROM lies over the range in the
  configuration of the save.\<close>

theorem load_save_link:
  assumes "xlink_load (libxlink_driver sy) c b a bytes s = Some (True, s')" "drv_backend s = BParport"
    and "called m (after_ping s s')" "bytes \<noteq> []" "length bytes < 65536"
    and "\<forall>i < length bytes. loadable c (a + word_of_nat i)"
    and "serve64 (host_board roms calls io) org ret eof m = Some (x, m1)"
    and "\<forall>i < length bytes. ram m2 (a + word_of_nat i) = ram m1 (a + word_of_nat i)"
    and "xlink_save (libxlink_driver sy) d e a (length bytes) t = Some ((True, saved), t')" "drv_backend t = BParport"
    and "called m2 (after_ping t t')"
    and "\<forall>i < length bytes. readable d (a + word_of_nat i) \<and> \<not> rom_visible d (a + word_of_nat i)"
    and "serve64 (host_board roms calls io) org ret eof m2 = Some (y, m3)" "same_talk m2 m3 (after_ping t t')"
  shows "saved = bytes"
proof -
  let ?p = "host_board roms calls io"
  from load_served [OF assms(1-6), of roms calls io org ret eof] assms(7)
  have l: "\<forall>i < length bytes. ram m1 (a + word_of_nat i) = bytes ! i" by auto
  have "\<forall>i < length bytes. readable d (a + word_of_nat i)" using assms(12) by blast
  from save_served [OF assms(9-11) _ assms(5) this assms(13,14)] assms(4)
  have "saved = map (\<lambda>i. seen ?p d (ram m2) (a + word_of_nat i)) [0..<length bytes]" by simp
  then show ?thesis using l assms(8,12) by (intro nth_equalityI) (auto simp: seen_def)
qed

theorem load_save_link_witness:
  "\<exists>s' m1 t' m3. xlink_load (libxlink_driver sample_sys) 0x37 0 0x0801 [9, 8] sample_load = Some (True, s') \<and>
    serve64 sample_board 0xc000 0xc100 0xc200 (sample_c64 (after_ping sample_load s')) = Some (Done, m1) \<and>
    xlink_save (libxlink_driver sample_sys) 0x37 0 0x0801 (length [9, 8 :: uchar]) (sample_save [9, 8]) = Some ((True, [9, 8]), t') \<and>
    serve64 sample_board 0xc000 0xc100 0xc200 (sample_c64_98 (after_ping (sample_save [9, 8]) t')) = Some (Done, m3)"
proof -
  have "map_option fst (xlink_load (libxlink_driver sample_sys) 0x37 0 0x0801 [9, 8] sample_load) = Some True" by code_simp
  then obtain s' where load: "xlink_load (libxlink_driver sample_sys) 0x37 0 0x0801 [9, 8] sample_load = Some (True, s')" by auto
  have be: "drv_backend sample_load = BParport" by code_simp
  let ?l = "length [9, 8 :: uchar]"
  have cells: "\<forall>i < ?l. readable 0x37 (0x0801 + word_of_nat i) \<and> \<not> rom_visible 0x37 (0x0801 + word_of_nat i)"
    "\<forall>i < ?l. loadable 0x37 (0x0801 + word_of_nat i)"
    using two_cells by (auto simp: numeral_2_eq_2)
  from load_served [OF load be sample_c64_called _ _ cells(2), of "\<lambda>_. 0xff" "\<lambda>_ m. m" "\<lambda>_. 0" "0xc000" "0xc100" "0xc200"]
  obtain m1 where m1: "serve64 sample_board 0xc000 0xc100 0xc200 (sample_c64 (after_ping sample_load s')) = Some (Done, m1)"
    "ram m1 0x0801 = 9" "ram m1 0x0802 = 8" by (auto simp: All_less_Suc)
  obtain t' where save: "xlink_save (libxlink_driver sample_sys) 0x37 0 0x0801 2 (sample_save [9, 8]) = Some ((True, [9, 8]), t')"
    "drv_backend (sample_save [9, 8]) = BParport"
    using sample_save_run by blast
  let ?m2 = "sample_c64_98 (after_ping (sample_save [9, 8]) t')"
  have mem: "ram ?m2 0x0801 = 9" "ram ?m2 0x0802 = 8" by (simp_all add: sample_c64_98_def)
  from sample_save_served [OF save(1) sample_98_called this] obtain m3 where
    m3: "serve64 sample_board 0xc000 0xc100 0xc200 ?m2 = Some (Done, m3)" "same_talk ?m2 m3 (after_ping (sample_save [9, 8]) t')"
    by blast
  have same: "\<forall>i < ?l. ram ?m2 (0x0801 + word_of_nat i) = ram m1 (0x0801 + word_of_nat i)"
    using m1 mem by (simp add: All_less_Suc)
  have save2: "xlink_save (libxlink_driver sample_sys) 0x37 0 0x0801 ?l (sample_save [9, 8]) = Some ((True, [9, 8]), t')"
    using save(1) by (simp add: eval_nat_numeral)
  from load_save_link [OF load be sample_c64_called _ _ cells(2) m1(1) same save2 save(2) sample_98_called cells(1) m3]
  have "[9, 8 :: uchar] = [9, 8]" by simp
  with load m1(1) save2 m3(1) show ?thesis by blast
qed

end
