(* ===== verification/Server_Control.thy ===== *)
theory Server_Control
  imports Server_Link
begin

text \<open>
  The host and the server together, continued: single bytes, control of the processor, injected
  code, relocation and identification, and the interrupt vector of the server.
\<close>

section \<open>Single bytes\<close>

lemma poke_after_ping:
  assumes "xlink_poke (libxlink_driver sy) c b a v s = Some (True, s')" "drv_backend s = BParport"
  shows "after_ping s s' = map Sent [Command_poke, c, b, lo16 a, hi16 a, v]"
  using ppb.command_says [OF assms(1) [unfolded xlink_poke_def]] assms(2)
  by (simp add: pp_port_def after_ping_def command_codes Command_defs)

lemma peek_after_ping:
  assumes "xlink_peek (libxlink_driver sy) c b a s = Some ((True, bytes), s')" "drv_backend s = BParport"
  shows "\<exists>v. bytes = [v] \<and> after_ping s s' = map Sent [Command_peek, c, b, lo16 a, hi16 a] @ [Ready, Got v]"
  using ppb.peek_says [OF assms(1)] assms(2)
  by (auto simp: pp_port_def after_ping_def command_codes Command_defs length_Suc_conv)

text \<open>C22. A poke that the library reports as done over the parallel port puts its byte into the one
  cell of the C64's memory, also under a ROM, and a peek returns the byte that the processor of
  the C64 reads there in the memory configuration of the command; the server returns from the
  interrupt, and apart from its own cells the rest of the memory stays as it was.\<close>

theorem poke_peek_link:
  assumes "drv_backend s = BParport" "called m (after_ping s s')" "readable c a"
    and "serve64 (host_board roms calls io) org ret eof m = Some (x, m')"
  shows "(xlink_poke (libxlink_driver sy) c b a v s = Some (True, s') \<longrightarrow>
      x = Done \<and> ram m' a = v \<and> (\<forall>z. \<not> server_cell z \<and> z \<noteq> a \<longrightarrow> ram m' z = ram m z)) \<and>
    (xlink_peek (libxlink_driver sy) c b a s = Some ((True, bytes), s') \<and> same_talk m m' (after_ping s s') \<longrightarrow>
      x = Done \<and> bytes = [seen (host_board roms calls io) c (ram m) a] \<and>
      (\<forall>z. \<not> server_cell z \<longrightarrow> ram m' z = ram m z))"
proof (intro conjI impI)
  have a: "\<not> server_cell a" using assms(3) by (simp add: readable_def)
  assume "xlink_poke (libxlink_driver sy) c b a v s = Some (True, s')"
  from assms(2) have "called m (map Sent [Command_poke, c, b, lo16 a, hi16 a, v])"
    unfolding poke_after_ping [OF \<open>xlink_poke _ _ _ _ _ _ = _\<close> assms(1)] .
  from serve_poke [OF this assms(3), of roms calls io org ret eof] assms(4) a
  show "x = Done" "ram m' a = v" "\<forall>z. \<not> server_cell z \<and> z \<noteq> a \<longrightarrow> ram m' z = ram m z" by auto
next
  assume k: "xlink_peek (libxlink_driver sy) c b a s = Some ((True, bytes), s') \<and> same_talk m m' (after_ping s s')"
  then obtain v where v: "bytes = [v]" "after_ping s s' = map Sent [Command_peek, c, b, lo16 a, hi16 a] @ [Ready, Got v]"
    using peek_after_ping assms(1) by blast
  from assms(2) have "called m (map Sent [Command_peek, c, b, lo16 a, hi16 a] @ [Ready, Got v])" unfolding v(2) .
  from serve_peek [OF this assms(3), of roms calls io org ret eof] assms(4) k v
  show "x = Done" "bytes = [seen (host_board roms calls io) c (ram m) a]" "\<forall>z. \<not> server_cell z \<longrightarrow> ram m' z = ram m z"
    by (auto simp: same_talk_def)
qed

abbreviation sample_call :: "uchar list xlink" where
  "sample_call \<equiv> sample_state BParport [0, 0x80, 0, 0x80, 0, 0x80, 0, 0x80]"

lemma sample_call_port: "drv_backend sample_call = BParport" by code_simp

theorem poke_peek_link_witness:
  "\<exists>s' m'. xlink_poke (libxlink_driver sample_sys) 0x37 0 0xe000 14 sample_call = Some (True, s') \<and>
    serve64 sample_board 0xc000 0xc100 0xc200 (sample_c64 (after_ping sample_call s')) = Some (Done, m') \<and> ram m' 0xe000 = 14"
proof -
  have "map_option fst (xlink_poke (libxlink_driver sample_sys) 0x37 0 0xe000 14 sample_call) = Some True" by code_simp
  then obtain s' where run: "xlink_poke (libxlink_driver sample_sys) 0x37 0 0xe000 14 sample_call = Some (True, s')" by auto
  have free: "readable 0x37 0xe000" by (simp add: readable_def server_cell_def transfer_cell_def is_io_def)
  have "called (sample_c64 (after_ping sample_call s')) (map Sent [Command_poke, 0x37, 0, lo16 0xe000, hi16 0xe000, 14])"
    unfolding poke_after_ping [OF run sample_call_port] by (rule sample_c64_called)
  from serve_poke [OF this free, of "\<lambda>_. 0xff" "\<lambda>_ m. m" "\<lambda>_. 0" "0xc000" "0xc100" "0xc200"] obtain m' where
    m': "serve64 sample_board 0xc000 0xc100 0xc200 (sample_c64 (after_ping sample_call s')) = Some (Done, m')" by blast
  from poke_peek_link [OF sample_call_port sample_c64_called free m'] run have "ram m' 0xe000 = 14" by blast
  with run m' show ?thesis by blast
qed

section \<open>Control\<close>

lemma jump_after_ping:
  assumes "xlink_jump (libxlink_driver sy) c b a s = Some (True, s')" "drv_backend s = BParport"
  shows "after_ping s s' = map Sent [Command_jump, c, b, hi16 a, lo16 a]"
  using ppb.command_says [OF assms(1) [unfolded xlink_jump_def]] assms(2)
  by (simp add: pp_port_def after_ping_def command_codes Command_defs)

text \<open>C19. A jump that the library reports as done over the parallel port ends the interrupt at exactly
  the address asked for, in the memory configuration asked for, with the registers and the
  flags zero, so that interrupts are on, and with the prompt of BASIC as the address that the
  code there returns to.\<close>

theorem jump_link:
  assumes "xlink_jump (libxlink_driver sy) c b a s = Some (True, s')" "drv_backend s = BParport"
    and "called m (after_ping s s')"
  shows "\<exists>m'. serve64 (host_board roms calls io) org ret eof m = Some (Rti 0 a, m') \<and>
    P01 m' = c \<and> rA m' = 0 \<and> rX m' = 0 \<and> rY m' = 0 \<and> fst (rts m') = Rts repl \<and>
    flips m' = flips m + length (after_ping s s') \<and> (\<forall>z. \<not> server_cell z \<longrightarrow> ram m' z = ram m z)"
  using serve_jump [OF assms(3) [unfolded jump_after_ping [OF assms(1,2)]], of roms calls io org ret eof]
  unfolding jump_after_ping [OF assms(1,2)] by auto

theorem jump_link_witness:
  "\<exists>s' m'. xlink_jump (libxlink_driver sample_sys) 0x37 0 0x080d sample_call = Some (True, s') \<and>
    serve64 sample_board 0xc000 0xc100 0xc200 (sample_c64 (after_ping sample_call s')) = Some (Rti 0 0x080d, m')"
proof -
  have "map_option fst (xlink_jump (libxlink_driver sample_sys) 0x37 0 0x080d sample_call) = Some True" by code_simp
  then obtain s' where run: "xlink_jump (libxlink_driver sample_sys) 0x37 0 0x080d sample_call = Some (True, s')" by auto
  from jump_link [OF run sample_call_port sample_c64_called, of "\<lambda>_. 0xff" "\<lambda>_ m. m" "\<lambda>_. 0" "0xc000" "0xc100" "0xc200"] run
  show ?thesis by blast
qed

section \<open>Injected code and relocation\<close>

text \<open>What passed over the bus during a request that makes two calls: a ping, a load, a ping, a call.\<close>

definition said :: "'w xlink \<Rightarrow> 'w xlink \<Rightarrow> bus_event list" where
  "said s s' = drop (length (pp_bus (trace s))) (pp_bus (trace s'))"

lemma load_call_served:
  assumes "called m (map Sent (Command_load # header c b a (length code) @ code))" "code \<noteq> []" "length code < 65536"
    and "\<forall>i < length code. loadable c (a + word_of_nat i)"
  shows "\<exists>m'. serve64 (host_board roms calls io) org ret eof m = Some (Done, m') \<and>
    (\<forall>i < length code. ram m' (a + word_of_nat i) = code ! i)"
proof -
  from serve_load [OF assms, of roms calls io org ret eof] obtain m' where
    m': "serve64 (host_board roms calls io) org ret eof m = Some (Done, m')"
      "\<forall>x. \<not> server_cell x \<longrightarrow> ram m' x = stored (ram m) a code x" by blast
  have "ram m' (a + word_of_nat i) = code ! i" if "i < length code" for i
    using that m'(2) assms(3) loadable_cell [of c "a + word_of_nat i"] assms(4) by (simp add: stored_at)
  with m'(1) show ?thesis by blast
qed

text \<open>C20. Injected code runs and comes back: an inject that the library reports as done over the
  parallel port has made two calls of the server. The first leaves the code at its address; the
  second ends by going on at that address in the default memory configuration, with the memory
  as it was, and when the code returns it goes on behind the \<open>nop\<close> of the server, at the end of
  the interrupt, with the stack as the interrupt found it.\<close>

theorem inject_link:
  assumes "xlink_inject (libxlink_driver sy) a code s = Some (True, s')" "drv_backend s = BParport"
    and "code \<noteq> []" "length code < 65536" "\<forall>i < length code. loadable (m_memory (machine s)) (a + word_of_nat i)"
  shows "\<exists>load call. said s s' = Sent 0xfd # load @ Sent 0xfd # call \<and>
    (\<forall>m. called m load \<longrightarrow> (\<exists>m'. serve64 (host_board roms calls io) org ret eof m = Some (Done, m') \<and>
      (\<forall>i < length code. ram m' (a + word_of_nat i) = code ! i))) \<and>
    (\<forall>m. called m call \<longrightarrow> (\<exists>m'. serve64 (host_board roms calls io) org ret eof m = Some (Rts a, m') \<and>
      P01 m' = 0x37 \<and> fst (rts m') = Rts (ret + 1) \<and> rS (snd (rts m')) = rS m \<and>
      (\<forall>z. \<not> server_cell z \<longrightarrow> ram m' z = ram m z)))"
proof -
  let ?load = "map Sent (Command_load # header (m_memory (machine s)) (m_bank (machine s)) a (length code) @ code)"
    and ?call = "map Sent [Command_inject, hi16 (a - 1), lo16 (a - 1)]"
  have "said s s' = Sent 0xfd # ?load @ Sent 0xfd # ?call"
    using ppb.inject_says [OF assms(1)] assms(2) by (simp add: said_def pp_port_def range_header XLINK_COMMAND_INJECT_def Command_inject_def)
  moreover have "\<forall>m. called m ?call \<longrightarrow> (\<exists>m'. serve64 (host_board roms calls io) org ret eof m = Some (Rts a, m') \<and>
      P01 m' = 0x37 \<and> fst (rts m') = Rts (ret + 1) \<and> rS (snd (rts m')) = rS m \<and>
      (\<forall>z. \<not> server_cell z \<longrightarrow> ram m' z = ram m z))"
    using serve_inject [of _ "a - 1" roms calls io org ret eof] by fastforce
  ultimately show ?thesis using load_call_served [OF _ assms(3-5)] by blast
qed

theorem inject_link_witness:
  "\<exists>s'. xlink_inject (libxlink_driver sample_sys) 0xc000 [0x60]
      (sample_state BParport [0, 0x80, 0, 0x80, 0, 0x80, 0, 0x80, 0, 0x80, 0, 0x80, 0, 0x80]) = Some (True, s') \<and>
    (\<exists>load call. said (sample_state BParport [0, 0x80, 0, 0x80, 0, 0x80, 0, 0x80, 0, 0x80, 0, 0x80, 0, 0x80]) s' =
      Sent 0xfd # load @ Sent 0xfd # call)"
proof -
  let ?s = "sample_state BParport [0, 0x80, 0, 0x80, 0, 0x80, 0, 0x80, 0, 0x80, 0, 0x80, 0, 0x80]"
  let ?run = "xlink_inject (libxlink_driver sample_sys) 0xc000 [0x60] ?s"
  have "map_option fst ?run = Some True" by code_simp
  then obtain s' where run: "?run = Some (True, s')" by auto
  have b: "drv_backend ?s = BParport" "m_memory (machine ?s) = 0x37" by code_simp+
  then have "\<forall>i < length [0x60 :: uchar]. loadable (m_memory (machine ?s)) (0xc000 + word_of_nat i)"
    by (simp add: loadable_def server_cell_def transfer_cell_def is_io_def)
  from inject_link [OF run b(1) _ _ this] run show ?thesis by fastforce
qed

text \<open>C21. A relocation that the library reports as done over the parallel port has made two calls of
  the server that runs: the first leaves the code of the new server, without the two bytes of
  its load address, at the new address, the second ends the interrupt at that address, which is
  where the new server installs itself.\<close>

theorem relocate_link:
  assumes "xlink_relocate (libxlink_driver sy) server a s = Some (True, s')" "drv_backend s = BParport"
    and "server (machine s) a = Some code" "2 < length code" "length code < 65536"
    and "\<forall>i < length code - 2. loadable (m_memory (machine s) OR 0x80) (a + word_of_nat i)"
  shows "\<exists>load call. said s s' = Sent 0xfd # load @ Sent 0xfd # call \<and>
    (\<forall>m. called m load \<longrightarrow> (\<exists>m'. serve64 (host_board roms calls io) org ret eof m = Some (Done, m') \<and>
      (\<forall>i < length code - 2. ram m' (a + word_of_nat i) = code ! (i + 2)))) \<and>
    (\<forall>m. called m call \<longrightarrow> (\<exists>m'. serve64 (host_board roms calls io) org ret eof m = Some (Rti 0 a, m') \<and>
      P01 m' = m_memory (machine s) OR 0x80 \<and> fst (rts m') = Rts repl \<and>
      (\<forall>z. \<not> server_cell z \<longrightarrow> ram m' z = ram m z)))"
proof -
  let ?c = "m_memory (machine s) OR 0x80" and ?b = "m_bank (machine s)" and ?code = "drop 2 code"
  let ?load = "map Sent (Command_load # header ?c ?b a (length ?code) @ ?code)"
    and ?call = "map Sent [Command_jump, ?c, ?b, hi16 a, lo16 a]"
  have "said s s' = Sent 0xfd # ?load @ Sent 0xfd # ?call"
    using ppb.relocate_says [OF assms(1) _ assms(3)] assms(2)
    by (simp add: said_def pp_port_def range_header XLINK_COMMAND_JUMP_def Command_jump_def)
  moreover have "\<forall>m. called m ?load \<longrightarrow> (\<exists>m'. serve64 (host_board roms calls io) org ret eof m = Some (Done, m') \<and>
      (\<forall>i < length code - 2. ram m' (a + word_of_nat i) = code ! (i + 2)))"
    using load_call_served [of _ ?c ?b a ?code roms calls io org ret eof] assms(4-6) by (simp add: add.commute)
  ultimately show ?thesis
    using serve_jump [of _ ?c ?b a roms calls io org ret eof] by blast
qed

theorem relocate_link_witness:
  "\<exists>s' load call. xlink_relocate (libxlink_driver sample_sys) (\<lambda>m a. Some [0, 0xc0, 0x60]) 0xc000
      (sample_state BParport [0, 0x80, 0, 0x80, 0, 0x80, 0, 0x80, 0, 0x80, 0, 0x80, 0, 0x80, 0, 0x80]) = Some (True, s') \<and>
    said (sample_state BParport [0, 0x80, 0, 0x80, 0, 0x80, 0, 0x80, 0, 0x80, 0, 0x80, 0, 0x80, 0, 0x80]) s' =
      Sent 0xfd # load @ Sent 0xfd # call"
proof -
  let ?s = "sample_state BParport [0, 0x80, 0, 0x80, 0, 0x80, 0, 0x80, 0, 0x80, 0, 0x80, 0, 0x80, 0, 0x80]"
  let ?run = "xlink_relocate (libxlink_driver sample_sys) (\<lambda>m a. Some [0, 0xc0, 0x60]) 0xc000 ?s"
  have "map_option fst ?run = Some True" by code_simp
  then obtain s' where run: "?run = Some (True, s')" by auto
  have b: "drv_backend ?s = BParport" "m_memory (machine ?s) OR 0x80 = 0xb7" by code_simp+
  then have "\<forall>i < length [0, 0xc0, 0x60 :: uchar] - 2. loadable (m_memory (machine ?s) OR 0x80) (0xc000 + word_of_nat i)"
    by (simp add: loadable_def server_cell_def transfer_cell_def is_io_def)
  from relocate_link [OF run b(1) refl _ _ this] run show ?thesis by fastforce
qed

section \<open>Identification\<close>

text \<open>What the server puts on the lines for an identification, whatever the host does meanwhile.\<close>

lemma wait_keeps:
  assumes "wait64 p m = Some m'"
  shows "view m' = view m"
proof -
  have k: "view (asm [lda p 0xdd0d, and_imm 0x10] m) = view m" for p :: "'a c64_board" and m
    by (auto simp: machine_defs read_io_def is_io_def split: prod.splits)
  show ?thesis
    by (rule wait64.raw_induct [where P = "\<lambda>p m m'. view m' = view m", OF _ assms])
      (auto simp del: asm.simps view_eq simp: Let_def k split: if_splits)
qed

lemma write_keeps:
  assumes "write64 p m = Some m'" "P01 m = 0x37"
  shows "view m' = view (m\<lparr>talk := talk m @ [Got (rA m)], flips := Suc (flips m)\<rparr>)"
proof -
  let ?m = "m\<lparr>prb := rA m, talk := talk m @ [Got (rA m)]\<rparr>"
  have "write64 p m = wait64 p (ack64 p ?m)" using assms(2) by (simp add: write64_def machine_defs write_io_def)
  with assms(1) have "view m' = view (ack64 p ?m)" by (simp only: wait_keeps)
  with ack_flips [of ?m p] assms(2) show ?thesis by simp
qed

lemma write_all_keeps:
  "write_all p bs m = Some m' \<Longrightarrow> P01 m = 0x37 \<Longrightarrow>
   view m' = view (m\<lparr>talk := talk m @ map Got bs, flips := flips m + length bs\<rparr>)"
proof (induction bs arbitrary: m)
  case (Cons b bs)
  have v: "view (lda_imm b m) = view m" "rA (lda_imm b m) = b" by (simp_all add: machine_defs)
  from Cons.prems(1) obtain m1 where m1: "write64 p (lda_imm b m) = Some m1" "write_all p bs m1 = Some m'"
    by (auto simp: bind_Some_iff)
  with write_keeps [OF m1(1)] v Cons.prems(2) have k: "view m1 = view (m\<lparr>talk := talk m @ [Got b], flips := Suc (flips m)\<rparr>)"
    by simp
  with Cons.IH [OF m1(2)] Cons.prems(2) show ?case by simp
qed simp

lemma identify_keeps:
  assumes "identify64 p org eof m = Some m'" "P01 m = 0x37"
  shows "talk m' = talk m @ Ready # map Got (server_block org eof @ [ram m memtop, ram m (memtop + 1)]) \<and> ram m' = ram m"
proof -
  let ?bs = "server_block org eof"
  have "Server_size # Server_id @ [Server_version, Server_machine, Server_type, lo16 org, hi16 org, lo16 eof, hi16 eof] = ?bs"
    by (simp add: server_block_def Server_size_def Server_id_def Server_version_def Server_machine_def Server_type_def)
  with assms(1) obtain m1 m2 m3 m4 where
    m1: "output64 p m = Some m1" and m2: "write_all p ?bs m1 = Some m2" and m3: "write64 p (lda p memtop m2) = Some m3"
    and m4: "write64 p (lda p (memtop + 1) m3) = Some m4" and m': "m' = input64 p m4"
    by (auto simp: identify64_def bind_Some_iff)
  obtain m0 where "wait64 p m = Some m0" "m1 = asm [lda_imm 0xff, sta p 0xdd03] m0"
    using m1 by (auto simp: output64_def bind_Some_iff)
  with wait_keeps [of p m m0] assms(2) have v1: "view m1 = view (m\<lparr>ddrb := 0xff, talk := talk m @ [Ready]\<rparr>)"
    by (simp add: machine_defs write_io_def)
  with write_all_keeps [OF m2] assms(2) have
    v2: "view m2 = view (m1\<lparr>talk := talk m1 @ map Got ?bs, flips := flips m1 + length ?bs\<rparr>)" by simp
  have l: "view (lda p memtop m2) = view m2" "rA (lda p memtop m2) = ram m2 memtop" by (simp_all add: machine_defs)
  with write_keeps [OF m3] v1 v2 assms(2) have
    v3: "view m3 = view (m2\<lparr>talk := talk m2 @ [Got (ram m memtop)], flips := Suc (flips m2)\<rparr>)" by simp
  have l: "view (lda p (memtop + 1) m3) = view m3" "rA (lda p (memtop + 1) m3) = ram m3 (memtop + 1)" by (simp_all add: machine_defs)
  with write_keeps [OF m4] v1 v2 v3 assms(2) have
    v4: "view m4 = view (m3\<lparr>talk := talk m3 @ [Got (ram m (memtop + 1))], flips := Suc (flips m3)\<rparr>)" by simp
  with input_view [of m4 p] v1 v2 v3 m' assms(2) show ?thesis by simp
qed

text \<open>C23. The host learns what server it talks to: after an identification that the library reports
  as done over the parallel port, by a server that has held the same conversation, the
  description of the server says a C64 server of version 10 in RAM, with the name of the
  project, from the address that the server was assembled for to its end, and the top of memory
  that the C64 keeps for BASIC.\<close>

theorem identify_link:
  assumes "xlink_identify (libxlink_driver sy) si s = Some ((True, si'), s')" "drv_backend s = BParport" "6 \<le> length (si_id si)"
    and "called m (after_ping s s')" "serve64 (host_board roms calls io) org ret eof m = Some (x, m')"
    and "same_talk m m' (after_ping s s')"
  shows "x = Done \<and> si_version si' = XLINK_VERSION \<and> si_machine si' = 0 \<and> si_type si' = 0 \<and>
    si_start si' = org \<and> si_end si' = eof \<and> si_length si' = eof - org \<and> si_memtop si' = pointer memtop m \<and>
    take 6 (si_id si') = [0x58, 0x4c, 0x49, 0x4e, 0x4b, 0] \<and> ram m' = ram m"
proof -
  let ?p = "host_board roms calls io"
  from ppb.identify_says [OF assms(1)] assms(2) obtain b name bytes where
    n: "length name = unat (b AND 0x0f)" "length bytes = 9"
      "si' = identify_fields bytes (si\<lparr>si_id := (name @ drop (length name) (si_id si))[length name := 0]\<rparr>)"
    and conv: "after_ping s s' = Sent Command_identify # Ready # map Got (b # name @ bytes)"
    by (auto simp: pp_port_def after_ping_def command_codes Command_defs)
  from assms(4) have "called m (Sent Command_identify # Ready # map Got (b # name @ bytes))" unfolding conv .
  from called_serve [OF this, of roms calls io org ret eof] obtain m1 where
    m1: "serve64 ?p org ret eof m = dispatch64 ?p org ret eof m1" "rY m1 = Command_identify" "P01 m1 = 0x37" "ram m1 = ram m"
      "talk m1 = talk m @ [Sent Command_identify]" by blast
  from m1(1,2) assms(5) have i: "identify64 ?p org eof m1 = Some m'" "x = Done"
    by (cases "identify64 ?p org eof m1"; simp add: dispatch64_def Command_defs)+
  from identify_keeps [OF i(1) m1(3)] m1(4,5) assms(6) have
    all: "b # name @ bytes = server_block org eof @ [ram m memtop, ram m (memtop + 1)]" and ram: "ram m' = ram m"
    unfolding same_talk_def conv by (auto simp del: map_append simp: inj_map_eq_map [of Got, simplified inj_def, simplified])
  then have "b = 5" by (simp add: server_block_def)
  then have "length name = 5" using n(1) by simp
  with all have f: "name = [0x58, 0x4c, 0x49, 0x4e, 0x4b]"
    "bytes = [0x10, 0, 0, lo16 org, hi16 org, lo16 eof, hi16 eof, ram m memtop, ram m (memtop + 1)]"
    by (auto simp: server_block_def length_Suc_conv eval_nat_numeral)
  obtain z r where z: "drop (length name) (si_id si) = z # r"
    using assms(3) f(1) by (cases "drop (length name) (si_id si)") auto
  have "take 6 ((name @ drop (length name) (si_id si))[length name := 0]) = [0x58, 0x4c, 0x49, 0x4e, 0x4b, 0]"
    unfolding z list_update_length by (simp add: f(1))
  then show ?thesis
    using i(2) ram unfolding n(3) f(2)
    by (simp add: identify_fields_def Let_def XLINK_VERSION_def pointer_def)
qed

abbreviation sample_identify :: "uchar list xlink" where
  "sample_identify \<equiv> sample_state BParport
     [0, 0x80, 0, 0x80, 5, 0, 0x58, 0x80, 0x4c, 0, 0x49, 0x80, 0x4e, 0, 0x4b, 0x80, 0x10, 0, 0, 0x80, 0, 0, 0, 0x80, 0xc0, 0, 0, 0x80, 0xc2, 0, 0, 0x80, 0xa0]"

lemma sample_memtop [simp]: "ram (sample_c64 conv) memtop = 0" "ram (sample_c64 conv) 0x284 = 0xa0"
  by (simp_all add: sample_c64_def)

theorem identify_link_witness:
  "\<exists>si s' m'. xlink_identify (libxlink_driver sample_sys) blank_server sample_identify = Some ((True, si), s') \<and>
    serve64 sample_board 0xc000 0xc100 0xc200 (sample_c64 (after_ping sample_identify s')) = Some (Done, m') \<and> si_memtop si = 0xa000"
proof -
  let ?s = "sample_identify"
  let ?run = "xlink_identify (libxlink_driver sample_sys) blank_server ?s"
  let ?conv = "Sent Command_identify # Ready # map Got (server_block 0xc000 0xc200 @ [0, 0xa0])"
  have run: "map_option (\<lambda>((r, si), s'). (r, after_ping ?s s')) ?run = Some (True, ?conv)" by code_simp
  obtain si s' where run: "?run = Some ((True, si), s')" "after_ping ?s s' = ?conv" using run by auto
  have be: "drv_backend ?s = BParport" by code_simp
  let ?m = "sample_c64 (after_ping ?s s')"
  have "called ?m (Sent Command_identify # Ready # map Got (server_block 0xc000 0xc200 @ [0, 0xa0]))"
    unfolding run(2) by (rule sample_c64_called)
  from serve_identify [OF this, of "\<lambda>_. 0xff" "\<lambda>_ m. m" "\<lambda>_. 0" "0xc000" "0xc100" "0xc200"] obtain m' where
    m': "serve64 sample_board 0xc000 0xc100 0xc200 ?m = Some (Done, m')"
      "talk m' = talk ?m @ Sent Command_identify # Ready # map Got (server_block 0xc000 0xc200 @ [ram ?m memtop, ram ?m (memtop + 1)])"
    by (auto simp: server_block_def)
  then have "same_talk ?m m' (after_ping ?s s')" unfolding same_talk_def run(2) by simp
  from identify_link [OF run(1) be _ sample_c64_called m'(1) this] have "si_memtop si = 0xa000"
    by (simp add: blank_server_def pointer_def sample_c64_def word16_le_def)
  with run(1) m'(1) show ?thesis by blast
qed

section \<open>Other bytes\<close>

text \<open>C31. A byte that is no command, a ping for instance, only gets its acknowledgement: the server
  flips its line once, returns from the interrupt and leaves the memory alone; so it does, but
  for the flip, when the interrupt did not come from the host.\<close>

theorem serve_other:
  "(called m (Sent x # es) \<and>
      x \<notin> {Command_load, Command_save, Command_poke, Command_peek, Command_jump, Command_run, Command_inject, Command_identify} \<longrightarrow>
    (\<exists>m'. serve64 (host_board roms calls io) org ret eof m = Some (Done, m') \<and> q_line (c_env m') = es \<and>
      talk m' = talk m @ [Sent x] \<and> flips m' = Suc (flips m) \<and> ram m' = ram m \<and> P01 m' = P01 m)) \<and>
   (P01 m = 0x37 \<and> fst (next_strobe (c_env m)) = 0 \<longrightarrow>
    (\<exists>m'. serve64 (host_board roms calls io) org ret eof m = Some (Done, m') \<and> view m' = view m))"
proof (intro conjI impI; elim conjE)
  assume c: "called m (Sent x # es)"
    and "x \<notin> {Command_load, Command_save, Command_poke, Command_peek, Command_jump, Command_run, Command_inject, Command_identify}"
  with called_serve [OF c, of roms calls io org ret eof]
  show "\<exists>m'. serve64 (host_board roms calls io) org ret eof m = Some (Done, m') \<and> q_line (c_env m') = es \<and>
      talk m' = talk m @ [Sent x] \<and> flips m' = Suc (flips m) \<and> ram m' = ram m \<and> P01 m' = P01 m"
    by (auto simp: dispatch64_def called_def)
next
  assume "P01 m = 0x37" "fst (next_strobe (c_env m)) = 0"
  moreover obtain v e where "next_strobe (c_env m) = (v, e)" by fastforce
  ultimately show "\<exists>m'. serve64 (host_board roms calls io) org ret eof m = Some (Done, m') \<and> view m' = view m"
    by (simp add: serve64_def machine_defs read_io_def host_board_def Let_def)
qed

theorem serve_other_witness:
  "\<exists>m'. serve64 sample_board 0xc000 0xc100 0xc200 (sample_c64 [Sent 0xfd]) = Some (Done, m') \<and> flips m' = 1"
  using serve_other [of "sample_c64 [Sent 0xfd]" "0xfd" "[]" "\<lambda>_. 0xff" "\<lambda>_ m. m" "\<lambda>_. 0" "0xc000" "0xc100" "0xc200"]
  by (auto simp: Command_defs) (auto simp: sample_c64_def)

section \<open>The vector of the interrupt\<close>

text \<open>C32. Installing the server sets the cable's lines, the vector of the interrupt and a jump at 1000
  for a start by hand. Uninstalling it, before a run, does not undo the vector: the two bytes
  of the system's address are stored the wrong way round.\<close>

theorem install_vectors:
  assumes "P01 m = 0x37"
  shows "pointer 0x0314 (install64 p org handler m) = handler \<and>
    ddrb (install64 p org handler m) = 0 \<and> bit (ddra (install64 p org handler m)) 2 \<and>
    ram (install64 p org handler m) 1000 = 0x4c \<and> pointer 1001 (install64 p org handler m) = org \<and>
    pointer 0x0314 (uninstall64 p m) = 0x31ea \<and> pointer 0x0314 (uninstall64 p m) \<noteq> sysirq"
proof -
  have "word16_le (hi16 sysirq) (lo16 sysirq) = 0x31ea" "(0x31ea :: ushort) \<noteq> sysirq" by code_simp+
  then show ?thesis
    using assms
    by (simp add: install64_def uninstall64_def machine_defs read_io_def write_io_def pointer_def bit_simps split: prod.splits)
qed

theorem install_vectors_witness:
  "pointer 0x0314 (install64 sample_board 0xc000 0xc030 (sample_c64 [])) = 0xc030"
  by (rule install_vectors [THEN conjunct1]) (simp add: sample_c64_def)

section \<open>Empty ranges\<close>

text \<open>Without a strobe the server waits for ever.\<close>

lemma wait_needs_strobe:
  assumes "wait64 (host_board roms calls io) m = Some m'" "P01 m = 0x37"
  shows "q_line (c_env m) \<noteq> []"
proof -
  have step: "\<exists>v e. asm [lda (host_board roms calls io) 0xdd0d, and_imm 0x10] m =
      m\<lparr>rA := v, fZ := (v = 0), fN := bit v 7, c_env := e\<rparr> \<and> (q_line (c_env m) = [] \<longrightarrow> v = 0 \<and> q_line e = [])"
    if "P01 m = 0x37" for m
  proof -
    obtain v e where v: "next_strobe (c_env m) = (v, e)" by fastforce
    then have "q_line (c_env m) = [] \<longrightarrow> v AND 0x10 = 0 \<and> q_line e = []"
      by (auto simp: next_strobe_def split: nat.splits)
    moreover have "asm [lda (host_board roms calls io) 0xdd0d, and_imm 0x10] m =
        m\<lparr>rA := v AND 0x10, fZ := (v AND 0x10 = 0), fN := bit (v AND 0x10) 7, c_env := e\<rparr>"
      using that v by (simp add: machine_defs read_io_def host_board_def)
    ultimately show ?thesis by blast
  qed
  have "p = host_board roms calls io \<longrightarrow> P01 m = 0x37 \<longrightarrow> q_line (c_env m) \<noteq> []"
    if "wait64 p m = Some m'" for p m
  proof (rule wait64.raw_induct [where P = "\<lambda>p m m'. p = host_board roms calls io \<longrightarrow> P01 m = 0x37 \<longrightarrow> q_line (c_env m) \<noteq> []",
        OF _ that], intro impI notI)
    fix w :: "host_line c64_board \<Rightarrow> host_line cpu \<Rightarrow> host_line cpu option" and p m m'
    assume IH: "\<And>p m m'. w p m = Some m' \<Longrightarrow> p = host_board roms calls io \<longrightarrow> P01 m = 0x37 \<longrightarrow> q_line (c_env m) \<noteq> []"
      and run: "(let m = asm [lda p 0xdd0d, and_imm 0x10] m in if fZ m then w p m else Some m) = Some m'"
      and p: "p = host_board roms calls io" "P01 m = 0x37" "q_line (c_env m) = []"
    from step [OF p(2)] p(3) obtain e where "asm [lda p 0xdd0d, and_imm 0x10] m = m\<lparr>rA := 0, fZ := True, fN := bit (0 :: uchar) 7, c_env := e\<rparr>"
      "q_line e = []" unfolding p(1) by auto
    with run IH [of p "m\<lparr>rA := 0, fZ := True, fN := bit (0 :: uchar) 7, c_env := e\<rparr>" m'] p(1,2)
    show False by (simp only: Let_def) simp
  qed
  with assms show ?thesis by blast
qed

text \<open>C30. The server cannot be given an empty range: its loop moves a byte before it compares the
  addresses. The header of a load of no bytes, which the library sends for a program file of
  nothing but its two address bytes, leaves the server waiting in the interrupt.\<close>

theorem empty_load_hangs:
  assumes "called m (map Sent (Command_load # header c b a 0))"
  shows "serve64 (host_board roms calls io) org ret eof m = None"
proof -
  let ?p = "host_board roms calls io"
  have "called m (Sent 1 # map Sent [c, b, lo16 a, hi16 a, lo16 a, hi16 a])"
    using assms by (simp add: header_def Command_defs)
  from called_serve [OF this, of roms calls io org ret eof] obtain m1 where m1:
    "serve64 ?p org ret eof m = dispatch64 ?p org ret eof m1" "rY m1 = 1" "P01 m1 = 0x37" "ddrb m1 = 0"
    "q_line (c_env m1) = map Sent [c, b, lo16 a, hi16 a, lo16 a, hi16 a] @ []" by auto
  from host.load_setup [OF m1(3-5), of roms calls io] obtain m3 where
    m3: "load64 ?p m1 = do { m4 \<leftarrow> loop64 ?p (load_body ?p c) m3; Some (asm [relinkBasic ?p, screenOn ?p] m4) }"
      "q_line (c_env m3) = []" "P01 m3 = 0x37" using m1(3) by auto
  have "wait64 ?p m3 = None" using wait_needs_strobe [of roms calls io m3] m3(2,3) by (cases "wait64 ?p m3") auto
  then have "load_body ?p c m3 = None" by (simp add: load_body_def store_fast_def store_slow_def)
  then have "loop64 ?p (load_body ?p c) m3 = None" by (simp add: loop64.simps)
  then have "load64 ?p m1 = None" by (simp only: m3(1)) simp
  then show ?thesis using m1(1,2) by (simp add: dispatch64_def Command_defs)
qed

theorem empty_load_hangs_witness:
  "serve64 sample_board 0xc000 0xc100 0xc200 (sample_c64 (map Sent (Command_load # header 0x37 0 0xc000 0))) = None"
  by (rule empty_load_hangs) (rule sample_c64_called)

end
