(* ===== verification/Client_Link.thy ===== *)
theory Client_Link
  imports Client_Props Server_Control
begin

text \<open>
  The client and the server together: what the load and save commands of the command line have
  done to the memory of the C64 and to the files of the host.
\<close>

lemma range_bytes:
  "pp_bus (trace s') = pp_bus (trace s) @ map Sent (0xfd # bs) @ es \<Longrightarrow> after_ping s s' = map Sent bs @ es"
  by (simp add: after_ping_def)

lemma load_program_after_ping:
  assumes "command_load e self s = Some (True, self', s')" "drv_backend s = BParport" "cm_force self"
    and "cm_argv self = [f]" "fs_load e f (world s) = Some content" "length content \<ge> 2"
    and "cm_start self = -1" "cm_end self = -1" "cm_skip self = -1"
  shows "after_ping s s' = map Sent (Command_load #
    header (cm_memory self') (cm_bank self') (word16_le (content ! 0) (content ! 1)) (length (drop 2 content)) @ drop 2 content)"
  using load_program_says [OF assms] by (simp add: range_header after_ping_def)

lemma program_served:
  assumes "command_load e self s = Some (True, self', s')" "drv_backend s = BParport" "cm_force self"
    and "cm_argv self = [f]" "fs_load e f (world s) = Some content"
    and "cm_start self = -1" "cm_end self = -1" "cm_skip self = -1"
    and "2 < length content" "length content < 65538"
    and "\<forall>i < length content - 2. loadable (cm_memory self') (word16_le (content ! 0) (content ! 1) + word_of_nat i)"
    and "called m (after_ping s s')"
  shows "\<exists>m'. serve64 (host_board roms calls io) org ret eof m = Some (Done, m') \<and>
    (\<forall>i < length content - 2. ram m' (word16_le (content ! 0) (content ! 1) + word_of_nat i) = content ! (i + 2))"
proof -
  have l: "length content \<ge> 2" using assms(9) by simp
  note conv = load_program_after_ping [OF assms(1-5) l assms(6-8)]
  from load_call_served [OF assms(12) [unfolded conv], of roms calls io org ret eof] assms(9-11)
  show ?thesis by (auto simp: add.commute)
qed

text \<open>C10. A program arrives: a forced load of a program file that the client reports as done over the
  parallel port has put the bytes of the file into the memory of the C64, from the address in
  the first two bytes of the file on, and the server has returned from the interrupt.\<close>

theorem program_link:
  assumes "command_load e self s = Some (True, self', s')" "drv_backend s = BParport" "cm_force self"
    and "cm_argv self = [f]" "fs_load e f (world s) = Some content"
    and "cm_start self = -1" "cm_end self = -1" "cm_skip self = -1"
    and "2 < length content" "length content < 65538"
    and "\<forall>i < length content - 2. loadable (cm_memory self') (word16_le (content ! 0) (content ! 1) + word_of_nat i)"
    and "called m (after_ping s s')"
  shows "\<exists>m'. serve64 (host_board roms calls io) org ret eof m = Some (Done, m') \<and>
    (\<forall>i < length content - 2. ram m' (word16_le (content ! 0) (content ! 1) + word_of_nat i) = content ! (i + 2))"
  using assms by (rule program_served)

text \<open>The runs of the witnesses: a program file of two bytes for C000, saved and loaded.\<close>

definition sample_load_command :: command where
  "sample_load_command = fresh_command\<lparr>cm_argv := [''a.prg''], cm_force := True\<rparr>"

definition sample_save_command :: command where
  "sample_save_command = fresh_command\<lparr>cm_argv := [''a.prg''], cm_start := 0xc000, cm_end := 0xc002\<rparr>"

abbreviation sample_saved :: "uchar list xlink" where
  "sample_saved \<equiv> sample_state BParport [0, 0x80, 0, 0x80, 0, 0x80, 0, 0x80, 0, 0x80, 0xa9, 0, 0x60]"

lemma sample_commands:
  "cm_force sample_load_command" "cm_argv sample_load_command = [''a.prg'']" "cm_start sample_load_command = -1"
  "cm_end sample_load_command = -1" "cm_skip sample_load_command = -1"
  "cm_argv sample_save_command = [''a.prg'']" "cm_start sample_save_command = 0xc000" "cm_end sample_save_command = 0xc002"
  "fs_load sample_env ''a.prg'' w = Some [0x00, 0xc0, 0xa9, 0x60]" "drv_backend sample_load = BParport" "drv_backend sample_saved = BParport"
  by (simp_all add: sample_load_command_def sample_save_command_def sample_env_def sample_state_def)

lemma sample_load_run:
  "\<exists>c s'. command_load sample_env sample_load_command sample_load = Some (True, c, s') \<and> cm_memory c = 0x37"
proof -
  have "map_option (\<lambda>(r, c, s). (r, cm_memory c)) (command_load sample_env sample_load_command sample_load) = Some (True, 0x37)"
    by code_simp
  then show ?thesis by auto
qed

lemma code_cells: "\<forall>i < 2. loadable 0x37 (0xc000 + word_of_nat i)" "\<forall>i < 2. readable 0x37 (0xc000 + word_of_nat i)"
  by (auto simp: less_2_cases_iff readable_def loadable_def server_cell_def transfer_cell_def is_io_def)

theorem program_link_witness:
  "\<exists>c s' m'. command_load sample_env sample_load_command sample_load = Some (True, c, s') \<and>
    serve64 sample_board 0xc800 0xc880 0xc900 (sample_c64 (after_ping sample_load s')) = Some (Done, m') \<and> ram m' 0xc001 = 0x60"
proof -
  obtain c s' where run: "command_load sample_env sample_load_command sample_load = Some (True, c, s')" "cm_memory c = 0x37"
    using sample_load_run by blast
  let ?f = "[0x00, 0xc0, 0xa9, 0x60] :: uchar list"
  have "word16_le (?f ! 0) (?f ! 1) = 0xc000" by code_simp
  then have a: "\<forall>i < length ?f - 2. loadable (cm_memory c) (word16_le (?f ! 0) (?f ! 1) + word_of_nat i)"
    using code_cells(1) run(2) by simp
  note p = program_link [OF run(1) sample_commands(10,1,2,9,3-5) _ _ a sample_c64_called,
      of "\<lambda>_. 0xff" "\<lambda>_ m. m" "\<lambda>_. 0" "0xc800" "0xc880" "0xc900"]
  obtain m' where "serve64 sample_board 0xc800 0xc880 0xc900 (sample_c64 (after_ping sample_load s')) = Some (Done, m')"
    "\<forall>i < length ?f - 2. ram m' (word16_le (?f ! 0) (?f ! 1) + word_of_nat i) = ?f ! (i + 2)"
    using p by auto
  moreover have "word16_le (?f ! 0) (?f ! 1) + word_of_nat 1 = 0xc001" by code_simp
  ultimately show ?thesis using run(1) by (intro exI conjI) (assumption+, auto dest: spec [of _ 1])
qed

section \<open>From one C64 to another\<close>

lemma save_program_served:
  assumes "command_save e self s = Some (True, s')" "drv_backend s = BParport" "cm_argv self = f # fs"
    and "strncasecmp0 (drop (length f - 4) f) ''.prg'' 4" "cm_start self \<noteq> -1"
    and "last (trace s') = PutFile f content"
    and "cm_start self < cm_end self" "cm_end self < cm_start self + 65536"
    and "called m (after_ping s s')" "serve64 (host_board roms calls io) org ret eof m = Some (x, m')"
    and "same_talk m m' (after_ping s s')"
  defines "c \<equiv> cm_memory (command_apply_memory_and_bank (machine s) self)" and "n \<equiv> nat (cm_end self - cm_start self)"
    and "a \<equiv> word_of_int (cm_start self) :: ushort"
  assumes "\<forall>i < n. readable c (a + word_of_nat i)"
  shows "content = [lo (word_of_int (cm_start self)), hi (word_of_int (cm_start self))] @
    map (\<lambda>i. seen (host_board roms calls io) c (ram m) (a + word_of_nat i)) [0..<n]"
proof -
  from save_program_says [OF assms(1-3,5)] obtain bytes out where
    b: "cm_end self = cm_start self + int (length bytes)" "save_bytes f self bytes = Some out" "last (trace s') = PutFile f out"
    and bus: "pp_bus (trace s') = pp_bus (trace s) @
      map Sent (0xfd # range_command XLINK_COMMAND_SAVE c (cm_bank (command_apply_memory_and_bank (machine s) self)) a (length bytes)) @
      Ready # map Got bytes"
    unfolding c_def a_def by blast
  have n: "length bytes = n" using b(1) by (simp add: n_def)
  from range_bytes [OF bus] have
    conv: "after_ping s s' = map Sent (Command_save # header c (cm_bank (command_apply_memory_and_bank (machine s) self)) a n) @
      Ready # map Got bytes" by (simp add: range_header n)
  have "content = [lo (word_of_int (cm_start self)), hi (word_of_int (cm_start self))] @ bytes"
    using b(2,3) assms(4,6) by (auto simp: save_bytes_def split: if_splits)
  moreover have "bytes = map (\<lambda>i. seen (host_board roms calls io) c (ram m) (a + word_of_nat i)) [0..<n]"
    using save_talk_served [OF assms(9) [unfolded conv] n _ _ assms(15) assms(10) assms(11) [unfolded conv]] assms(7,8)
    by (simp add: n_def)
  ultimately show ?thesis by simp
qed

text \<open>C1. Memory moves from one C64 to another: after a save of a range to a program file over the
  parallel port, and a forced load of that file without options, by whatever client runs, the
  cells of the range on the second C64 hold what the processor of the first one read there, in
  the memory configuration of the save.\<close>

theorem save_load_link:
  assumes "command_save e self s = Some (True, s')" "drv_backend s = BParport" "cm_argv self = f # fs"
    and "strncasecmp0 (drop (length f - 4) f) ''.prg'' 4" "0 \<le> cm_start self" "cm_start self < cm_end self" "cm_end self \<le> 65536"
    and "cm_end self - cm_start self < 65536" "last (trace s') = PutFile f content" "called m (after_ping s s')"
    and "serve64 (host_board roms calls io) org ret eof m = Some (x, m1)" "same_talk m m1 (after_ping s s')"
    and "fs_load e f (world t) = Some content" "command_load e self2 t = Some (True, c', t')" "drv_backend t = BParport"
    and "cm_argv self2 = [f]" "cm_force self2" "cm_start self2 = -1" "cm_end self2 = -1" "cm_skip self2 = -1"
    and "called k (after_ping t t')"
  defines "c \<equiv> cm_memory (command_apply_memory_and_bank (machine s) self)" and "n \<equiv> nat (cm_end self - cm_start self)"
    and "a \<equiv> word_of_int (cm_start self) :: ushort"
  assumes cells: "\<forall>i < n. readable c (a + word_of_nat i) \<and> loadable (cm_memory c') (a + word_of_nat i)"
  shows "\<exists>k'. serve64 (host_board roms calls io) org ret eof k = Some (Done, k') \<and>
    (\<forall>i < n. ram k' (a + word_of_nat i) = seen (host_board roms calls io) c (ram m) (a + word_of_nat i))"
proof -
  let ?p = "host_board roms calls io"
  have s: "cm_start self \<noteq> -1" "cm_end self < cm_start self + 65536" "\<forall>i < n. readable c (a + word_of_nat i)"
    using assms(5,8) cells by simp_all
  from save_program_served [OF assms(1-4) s(1) assms(9,6) s(2) assms(10-12) s(3) [unfolded c_def a_def n_def]]
  have content: "content = [lo (word_of_int (cm_start self)), hi (word_of_int (cm_start self))] @
      map (\<lambda>i. seen ?p c (ram m) (a + word_of_nat i)) [0..<n]"
    by (simp only: c_def a_def n_def)
  have "cm_start self < 65536" using assms(6,7) by simp
  then have w: "word16_le (content ! 0) (content ! 1) = a"
    using address_bytes [OF assms(5)] by (simp add: content a_def)
  have l: "length content = n + 2" "0 < n" "n < 65536" using assms(6,8) by (simp_all add: content n_def)
  have "\<forall>i < length content - 2. loadable (cm_memory c') (word16_le (content ! 0) (content ! 1) + word_of_nat i)"
    using cells unfolding w l by simp
  from program_served [OF assms(14,15,17,16,13,18-20) _ _ this assms(21), of roms calls io org ret eof] l
  obtain k' where k': "serve64 ?p org ret eof k = Some (Done, k')" "\<forall>i < n. ram k' (a + word_of_nat i) = content ! (i + 2)"
    unfolding w by auto
  then have "\<forall>i < n. ram k' (a + word_of_nat i) = seen ?p c (ram m) (a + word_of_nat i)" by (simp add: content)
  with k'(1) show ?thesis by blast
qed

text \<open>The first C64 of the witness, with two bytes of code at C000.\<close>

definition sample_c64_code :: "bus_event list \<Rightarrow> host_line cpu" where
  "sample_c64_code conv = (sample_c64 conv)\<lparr>ram := (ram (sample_c64 conv))(0xc000 := 0xa9, 0xc001 := 0x60)\<rparr>"

lemma sample_code_called [simp]: "called (sample_c64_code conv) conv"
  by (simp add: called_def sample_c64_code_def sample_c64_def)

lemma sample_save_command_run:
  "\<exists>s'. command_save sample_env sample_save_command sample_saved = Some (True, s') \<and>
     last (trace s') = PutFile ''a.prg'' [0x00, 0xc0, 0xa9, 0x60] \<and>
     after_ping sample_saved s' = map Sent (Command_save # header 0x37 0 0xc000 2) @ Ready # map Got [0xa9, 0x60]"
proof -
  have "map_option (\<lambda>(r, s). (r, last (trace s), after_ping sample_saved s)) (command_save sample_env sample_save_command sample_saved) =
    Some (True, PutFile ''a.prg'' [0x00, 0xc0, 0xa9, 0x60], map Sent (Command_save # header 0x37 0 0xc000 2) @ Ready # map Got [0xa9, 0x60])"
    by code_simp
  then show ?thesis by auto
qed

lemma sample_code_served:
  "\<exists>m'. serve64 sample_board 0xc800 0xc880 0xc900
       (sample_c64_code (map Sent (Command_save # header 0x37 0 0xc000 2) @ Ready # map Got [0xa9, 0x60])) = Some (Done, m') \<and>
     same_talk (sample_c64_code (map Sent (Command_save # header 0x37 0 0xc000 2) @ Ready # map Got [0xa9, 0x60])) m'
       (map Sent (Command_save # header 0x37 0 0xc000 2) @ Ready # map Got [0xa9, 0x60])"
proof -
  let ?conv = "map Sent (Command_save # header 0x37 0 0xc000 2) @ Ready # map Got [0xa9, 0x60]"
  have "map (\<lambda>i. Got (seen sample_board 0x37 (ram (sample_c64_code ?conv)) (0xc000 + word_of_nat i))) [0..<2] = map Got [0xa9, 0x60]"
    by (simp add: upt_rec seen_def rom_visible_def is_io_def sample_c64_code_def)
  moreover have "called (sample_c64_code ?conv) ?conv" by (rule sample_code_called)
  ultimately show ?thesis
    using serve_save [OF _ _ _ _ code_cells(2), of "sample_c64_code ?conv" 0 "map Got [0xa9, 0x60]" "\<lambda>_. 0xff" "\<lambda>_ m. m" "\<lambda>_. 0" "0xc800" "0xc880" "0xc900"]
    unfolding same_talk_def by auto
qed

theorem save_load_link_witness:
  "\<exists>c t' k'. command_load sample_env sample_load_command sample_load = Some (True, c, t') \<and>
    serve64 sample_board 0xc800 0xc880 0xc900 (sample_c64 (after_ping sample_load t')) = Some (Done, k') \<and> ram k' 0xc001 = 0x60"
proof -
  let ?conv = "map Sent (Command_save # header 0x37 0 0xc000 2) @ Ready # map Got [0xa9, 0x60]"
  obtain s' where save: "command_save sample_env sample_save_command sample_saved = Some (True, s')"
    "last (trace s') = PutFile ''a.prg'' [0x00, 0xc0, 0xa9, 0x60]" "after_ping sample_saved s' = ?conv"
    using sample_save_command_run by blast
  obtain c t' where load: "command_load sample_env sample_load_command sample_load = Some (True, c, t')" "cm_memory c = 0x37"
    using sample_load_run by blast
  obtain m' where m': "serve64 sample_board 0xc800 0xc880 0xc900 (sample_c64_code (after_ping sample_saved s')) = Some (Done, m')"
    "same_talk (sample_c64_code (after_ping sample_saved s')) m' (after_ping sample_saved s')"
    using sample_code_served unfolding save(3) by blast
  have prg: "strncasecmp0 (drop (length ''a.prg'' - 4) ''a.prg'') ''.prg'' 4"
    "cm_memory (command_apply_memory_and_bank (machine sample_saved) sample_save_command) = 0x37" by code_simp+
  have cells: "\<forall>i < nat (cm_end sample_save_command - cm_start sample_save_command).
      readable (cm_memory (command_apply_memory_and_bank (machine sample_saved) sample_save_command))
        (word_of_int (cm_start sample_save_command) + word_of_nat i) \<and>
      loadable (cm_memory c) (word_of_int (cm_start sample_save_command) + word_of_nat i)"
    using code_cells by (simp add: sample_commands prg(2) load(2))
  have "\<exists>k'. serve64 sample_board 0xc800 0xc880 0xc900 (sample_c64 (after_ping sample_load t')) = Some (Done, k') \<and>
    (\<forall>i < nat (cm_end sample_save_command - cm_start sample_save_command).
      ram k' (word_of_int (cm_start sample_save_command) + word_of_nat i) =
      seen sample_board (cm_memory (command_apply_memory_and_bank (machine sample_saved) sample_save_command))
        (ram (sample_c64_code (after_ping sample_saved s'))) (word_of_int (cm_start sample_save_command) + word_of_nat i))"
    by (rule save_load_link [OF save(1) sample_commands(11,6) prg(1) _ _ _ _ save(2) sample_code_called m' sample_commands(9)
        load(1) sample_commands(10,2,1,3-5) sample_c64_called cells]) (simp_all add: sample_commands)
  then obtain k' where k': "serve64 sample_board 0xc800 0xc880 0xc900 (sample_c64 (after_ping sample_load t')) = Some (Done, k')"
    "\<forall>i < 2. ram k' (0xc000 + word_of_nat i) = seen sample_board 0x37 (ram (sample_c64_code (after_ping sample_saved s'))) (0xc000 + word_of_nat i)"
    by (auto simp: sample_commands prg(2))
  have "ram k' 0xc001 = 0x60"
    using k'(2) [rule_format, of 1] by (simp add: seen_def rom_visible_def is_io_def sample_c64_code_def)
  with load(1) k'(1) show ?thesis by blast
qed

end
