(* ===== verification/Bootstrap64.thy ===== *)
theory Bootstrap64
  imports Server64
begin

text \<open>
  The two small programs that bring the server onto a C64 without a cartridge: bootstrap.asm, typed
  in as a BASIC listing, which only understands a load, and loader.asm, which is put in front of
  the code of the server, starts from BASIC and copies that code to the top of the lowest 16K.
  Both are for the target c64; \<open>sei\<close> and \<open>cli\<close>
  are left out, as in the server.
\<close>

section \<open>bootstrap.asm\<close>

text \<open>\<open>loop\<close>: commands are acknowledged and skipped up to a load.\<close>

definition bootstrap_next :: "'e c64_board \<Rightarrow> 'e cpu \<Rightarrow> 'e cpu option" where
  "bootstrap_next p m =
     do { m \<leftarrow> wait64 p m; Some (asm [ldy p 0xdd01, ack64 p, cpy_imm Command_load] m) }"

partial_function (option) bootstrap_loop :: "'e c64_board \<Rightarrow> 'e cpu \<Rightarrow> 'e cpu option" where
  "bootstrap_loop p m =
     do { m \<leftarrow> bootstrap_next p m;
          if \<not> fZ m then bootstrap_loop p m else Some m }"

declare bootstrap_loop.simps [code]

definition bootstrap_load :: "'e c64_board \<Rightarrow> 'e cpu \<Rightarrow> 'e cpu option" where
  "bootstrap_load p m =
     do { m \<leftarrow> readHeader p (asm [lda_imm 0x0b, sta p 0xd011] m);
          m \<leftarrow> loop64 p (store_fast p) (ldy_imm 0x00 m);
          Some (asm [lda p zp_end, sta p bend, lda p (zp_end + 1), sta p (bend + 1),
                     lda_imm 0x1b, sta p 0xd011] m) }"

definition bootstrap_main :: "'e c64_board \<Rightarrow> 'e cpu \<Rightarrow> (exit64 \<times> 'e cpu) option" where
  "bootstrap_main p m =
     do { m \<leftarrow> bootstrap_loop p (asm [lda_imm 0x00, sta p 0xdd03,
                 lda p 0xdd02, ora_imm 0x04, sta p 0xdd02, lda p 0xdd0d] m);
          m \<leftarrow> bootstrap_load p m;
          Some (Jmp repl, m) }"

section \<open>loader.asm\<close>

abbreviation ld_cnt :: ushort where "ld_cnt \<equiv> 0x22"
abbreviation ld_src :: ushort where "ld_src \<equiv> 0xfc"
abbreviation ld_dst :: ushort where "ld_dst \<equiv> 0xfe"

definition incword :: "'e c64_board \<Rightarrow> ushort \<Rightarrow> 'e cpu \<Rightarrow> 'e cpu" where
  "incword p z m = (let m = inc p z m in if \<not> fZ m then m else inc p (z + 1) m)"

definition decword :: "'e c64_board \<Rightarrow> ushort \<Rightarrow> 'e cpu \<Rightarrow> 'e cpu" where
  "decword p z m =
     (let m = asm [dec p z, lda p z, cmp_imm 0xff] m in if \<not> fZ m then m else dec p (z + 1) m)"

definition loader_step :: "'e c64_board \<Rightarrow> 'e cpu \<Rightarrow> bool \<times> 'e cpu" where
  "loader_step p m =
     (let m = asm [lda_iy p ld_src, sta_iy p ld_dst, incword p ld_src, incword p ld_dst,
                   decword p ld_cnt, lda p ld_cnt] m
      in if \<not> fZ m then (True, m)
         else (let m = lda p (ld_cnt + 1) m in (\<not> fZ m, m)))"

partial_function (option) loader_copy :: "'e c64_board \<Rightarrow> 'e cpu \<Rightarrow> 'e cpu option" where
  "loader_copy p m =
     (let (again, m) = loader_step p m in if again then loader_copy p m else Some m)"

declare loader_copy.simps [code]

text \<open>\<open>len\<close> is the size of the server, given to the assembler, \<open>code\<close> the address of the label.\<close>

definition loader_main :: "'e c64_board \<Rightarrow> ushort \<Rightarrow> ushort \<Rightarrow> 'e cpu \<Rightarrow> (exit64 \<times> 'e cpu) option" where
  "loader_main p len code m =
     (let dest = 0x4000 - len in
      do { m \<leftarrow> loader_copy p (asm [lda_imm (lo16 len), sta p ld_cnt, lda_imm (hi16 len), sta p (ld_cnt + 1),
                lda_imm (lo16 code), sta p ld_src, lda_imm (hi16 code), sta p (ld_src + 1),
                lda_imm (lo16 dest), sta p ld_dst, lda_imm (hi16 dest), sta p (ld_dst + 1), ldy_imm 0x00] m);
           Some (Jmp dest, m) })"

end
