(* ===== verification/Bootstrap_Laws.thy ===== *)
theory Bootstrap_Laws
  imports Bootstrap64 Server_Host
begin

text \<open>The loader copies the server to where it was assembled for, and the bootstrap program takes one load.\<close>

section \<open>loader.asm\<close>

text \<open>The cells that the loader uses.\<close>

definition loader_cell :: "ushort \<Rightarrow> bool" where
  "loader_cell a \<longleftrightarrow> a = ld_cnt \<or> a = ld_cnt + 1 \<or> a = ld_src \<or> a = ld_src + 1 \<or> a = ld_dst \<or> a = ld_dst + 1"

lemma bytes_dec: "lo16 (a - 1) = lo16 a - 1" "hi16 (a - 1) = (if lo16 a = 0 then hi16 a - 1 else hi16 a)"
proof -
  have b: "lo16 a = lo16 (a - 1) + 1" "hi16 a = (if lo16 (a - 1) + 1 = 0 then hi16 (a - 1) + 1 else hi16 (a - 1))"
    using bytes_inc [of "a - 1"] by simp_all
  then show "lo16 (a - 1) = lo16 a - 1" by simp
  from b show "hi16 (a - 1) = (if lo16 a = 0 then hi16 a - 1 else hi16 a)" by simp
qed

lemma cell_bytes: "pointer z m = a \<longleftrightarrow> ram m z = lo16 a \<and> ram m (z + 1) = hi16 a"
  by (auto simp: pointer_def)

lemma incword_view:
  assumes "1 < z" "z < 0x00ff"
  shows "view (incword p z m) = view (m\<lparr>ram := (ram m)(z := lo16 (pointer z m + 1), z + 1 := hi16 (pointer z m + 1))\<rparr>) \<and>
    c_env (incword p z m) = c_env m"
proof -
  have z: "z < 0xa000" "z + 1 < 0xa000" "z \<noteq> 1" "z + 1 \<noteq> 1" "z + 1 \<noteq> z"
    using assms by (auto simp: word_less_nat_alt unat_word_ariths word_unat_eq_iff)
  show ?thesis
    using z by (auto simp: incword_def machine_defs Let_def bytes_inc pointer_def fun_eq_iff)
qed

lemma decword_view:
  assumes "1 < z" "z < 0x00ff"
  shows "view (decword p z m) = view (m\<lparr>ram := (ram m)(z := lo16 (pointer z m - 1), z + 1 := hi16 (pointer z m - 1))\<rparr>) \<and>
    c_env (decword p z m) = c_env m"
proof -
  have z: "z < 0xa000" "z + 1 < 0xa000" "z \<noteq> 1" "z + 1 \<noteq> 1" "z + 1 \<noteq> z"
    using assms by (auto simp: word_less_nat_alt unat_word_ariths word_unat_eq_iff)
  have "ram m z - 1 - 0xff = 0 \<longleftrightarrow> ram m z = 0" by (auto simp: diff_eq_eq)
  then show ?thesis
    using z by (auto simp: decword_def machine_defs Let_def bytes_dec pointer_def fun_eq_iff)
qed

text \<open>One byte: what lies below the ROMs and I/O and is not a cell of the loader can be copied.\<close>

definition copyable :: "ushort \<Rightarrow> bool" where
  "copyable a \<longleftrightarrow> a < 0xa000 \<and> a \<noteq> 1 \<and> \<not> loader_cell a"

lemma loader_step_view:
  assumes "rY m = 0" "pointer ld_src m = s" "pointer ld_dst m = d" "pointer ld_cnt m = n" "copyable s" "copyable d"
    and step: "loader_step p m = (again, m')"
  shows "(again \<longleftrightarrow> n \<noteq> 1) \<and> rY m' = 0 \<and> pointer ld_src m' = s + 1 \<and> pointer ld_dst m' = d + 1 \<and> pointer ld_cnt m' = n - 1 \<and>
    (\<forall>x. \<not> loader_cell x \<longrightarrow> ram m' x = ((ram m)(d := ram m s)) x) \<and>
    P01 m' = P01 m \<and> ddrb m' = ddrb m \<and> rS m' = rS m \<and> talk m' = talk m \<and> flips m' = flips m"
proof -
  let ?m1 = "asm [lda_iy p ld_src, sta_iy p ld_dst] m"
  have c: "s < 0xa000" "s \<noteq> 1" "d < 0xa000" "d \<noteq> 1" "\<not> loader_cell d" using assms(5,6) by (simp_all add: copyable_def)
  then have m1: "view ?m1 = view (m\<lparr>ram := (ram m)(d := ram m s)\<rparr>)"
    using assms(1-3) by (auto simp: machine_defs pointer_def)
  have ptr: "pointer ld_src ?m1 = s" "pointer ld_dst ?m1 = d" "pointer ld_cnt ?m1 = n"
    using m1 assms(2-4) c(5) by (auto simp: pointer_def loader_cell_def simp del: asm.simps)
  let ?m2 = "incword p ld_src ?m1"
  have m2: "view ?m2 = view (?m1\<lparr>ram := (ram ?m1)(ld_src := lo16 (s + 1), ld_src + 1 := hi16 (s + 1))\<rparr>)"
    using incword_view [of ld_src p ?m1] ptr(1) by (simp del: asm.simps)
  have ptr2: "pointer ld_dst ?m2 = d" using m2 ptr(2) by (simp add: pointer_def del: asm.simps)
  let ?m3 = "incword p ld_dst ?m2"
  have m3: "view ?m3 = view (?m2\<lparr>ram := (ram ?m2)(ld_dst := lo16 (d + 1), ld_dst + 1 := hi16 (d + 1))\<rparr>)"
    using incword_view [of ld_dst p ?m2] ptr2 by (simp del: asm.simps)
  have ptr3: "pointer ld_cnt ?m3 = n" using m2 m3 ptr(3) by (simp add: pointer_def del: asm.simps)
  let ?m4 = "decword p ld_cnt ?m3"
  have m4: "view ?m4 = view (?m3\<lparr>ram := (ram ?m3)(ld_cnt := lo16 (n - 1), ld_cnt + 1 := hi16 (n - 1))\<rparr>)"
    using decword_view [of ld_cnt p ?m3] ptr3 by (simp del: asm.simps)
  have "asm [lda_iy p ld_src, sta_iy p ld_dst, incword p ld_src, incword p ld_dst, decword p ld_cnt, lda p ld_cnt] m =
      lda p ld_cnt ?m4" by simp
  then have "loader_step p m = (if lo16 (n - 1) \<noteq> 0 then (True, lda p ld_cnt ?m4)
      else (hi16 (n - 1) \<noteq> 0, lda p (ld_cnt + 1) (lda p ld_cnt ?m4)))"
    using m4 by (simp add: loader_step_def machine_defs Let_def del: asm.simps)
  moreover have "lo16 0 = 0" "hi16 0 = 0" by (simp_all add: lo16_def hi16_def)
  then have "n = 1 \<longleftrightarrow> lo16 (n - 1) = 0 \<and> hi16 (n - 1) = 0" using pointer_eq_iff [of "n - 1" 0] by simp
  ultimately have "again \<longleftrightarrow> n \<noteq> 1" "view m' = view ?m4"
    using step by (auto simp: machine_defs simp del: asm.simps split: if_splits)
  then show ?thesis
    using m1 m2 m3 m4 assms(1) by (auto simp: pointer_def loader_cell_def simp del: asm.simps)
qed

lemma loader_copies:
  "rY m = 0 \<Longrightarrow> pointer ld_src m = s \<Longrightarrow> pointer ld_dst m = d \<Longrightarrow> pointer ld_cnt m = word_of_nat (length bytes) \<Longrightarrow>
   bytes \<noteq> [] \<Longrightarrow> length bytes < 65536 \<Longrightarrow> \<forall>i < length bytes. ram m (s + word_of_nat i) = bytes ! i \<Longrightarrow>
   \<forall>i < length bytes. copyable (s + word_of_nat i) \<and> copyable (d + word_of_nat i) \<Longrightarrow>
   \<forall>i < length bytes. \<forall>j < length bytes. d + word_of_nat i \<noteq> s + word_of_nat j \<Longrightarrow>
   \<exists>m'. loader_copy p m = Some m' \<and> (\<forall>x. \<not> loader_cell x \<longrightarrow> ram m' x = stored (ram m) d bytes x) \<and>
     P01 m' = P01 m \<and> ddrb m' = ddrb m \<and> rS m' = rS m \<and> talk m' = talk m \<and> flips m' = flips m"
proof (induction bytes arbitrary: m s d)
  case (Cons b bytes)
  let ?n = "word_of_nat (length (b # bytes)) :: ushort"
  have "copyable (s + word_of_nat 0) \<and> copyable (d + word_of_nat 0)" "ram m (s + word_of_nat 0) = (b # bytes) ! 0"
    using Cons.prems(7,8) by blast+
  then have c: "copyable s" "copyable d" "ram m s = b" by simp_all
  obtain again m1 where step: "loader_step p m = (again, m1)" by fastforce
  from loader_step_view [OF Cons.prems(1-4) c(1,2) step] have
    m1: "again \<longleftrightarrow> ?n \<noteq> 1" "rY m1 = 0" "pointer ld_src m1 = s + 1" "pointer ld_dst m1 = d + 1"
      "pointer ld_cnt m1 = ?n - 1" "P01 m1 = P01 m" "ddrb m1 = ddrb m" "rS m1 = rS m" "talk m1 = talk m" "flips m1 = flips m"
    and ram: "\<And>x. \<not> loader_cell x \<Longrightarrow> ram m1 x = ((ram m)(d := b)) x" using c(3) by auto
  have n: "?n - 1 = word_of_nat (length bytes)" by simp
  have again: "again \<longleftrightarrow> bytes \<noteq> []"
    using m1(1) no_bytes [of bytes] Cons.prems(6) n by (simp add: diff_eq_eq)
  have run: "loader_copy p m = (if bytes \<noteq> [] then loader_copy p m1 else Some m1)"
    using step again by (simp add: loader_copy.simps [of p m])
  have st: "stored (ram m1) (d + 1) bytes x = stored (ram m) d (b # bytes) x" if "\<not> loader_cell x" for x
    using ram [OF that] Cons.prems(6) by (simp add: stored_Cons) (simp add: stored_def)
  show ?case
  proof (cases "bytes = []")
    case True
    then show ?thesis using run st m1(6-10) by auto
  next
    case False
    have sh: "(z + 1) + word_of_nat i = z + word_of_nat (Suc i)" for z :: ushort and i by simp
    have "\<forall>i < length bytes. ram m1 ((s + 1) + word_of_nat i) = bytes ! i"
    proof (intro allI impI)
      fix i assume "i < length bytes"
      then have i: "Suc i < length (b # bytes)" "0 < length (b # bytes)" by simp_all
      with Cons.prems(7,8) have "ram m (s + word_of_nat (Suc i)) = bytes ! i" "\<not> loader_cell (s + word_of_nat (Suc i))"
        by (auto simp: copyable_def simp del: of_nat_Suc)
      moreover have "d + word_of_nat 0 \<noteq> s + word_of_nat (Suc i)" using Cons.prems(9) i by blast
      ultimately show "ram m1 ((s + 1) + word_of_nat i) = bytes ! i" unfolding sh by (simp add: ram del: of_nat_Suc)
    qed
    moreover have "\<forall>i < length bytes. copyable ((s + 1) + word_of_nat i) \<and> copyable ((d + 1) + word_of_nat i)"
      unfolding sh using Cons.prems(8) by (metis Suc_less_eq length_Cons)
    moreover have "\<forall>i < length bytes. \<forall>j < length bytes. (d + 1) + word_of_nat i \<noteq> (s + 1) + word_of_nat j"
      unfolding sh using Cons.prems(9) by (metis Suc_less_eq length_Cons)
    moreover have "length bytes < 65536" using Cons.prems(6) by simp
    ultimately obtain m' where "loader_copy p m1 = Some m'" "\<forall>x. \<not> loader_cell x \<longrightarrow> ram m' x = stored (ram m1) (d + 1) bytes x"
      "P01 m' = P01 m1" "ddrb m' = ddrb m1" "rS m' = rS m1" "talk m' = talk m1" "flips m' = flips m1"
      using Cons.IH [of m1 "s + 1" "d + 1"] m1 n False by auto
    then show ?thesis using run False st m1(6-10) by auto
  qed
qed simp

text \<open>C25. The loader brings the server to its place: with the code of the server behind it in memory,
  below the place it is for, it ends, with a jump to that place, at the top of the lowest 16K,
  where the code then is, byte for byte; only the code's cells and six cells of the zero page
  have changed.\<close>

theorem loader_places_server:
  assumes "bytes \<noteq> []" "unat len = length bytes" "0x0100 \<le> unat code" "unat code + 2 * length bytes \<le> 0x4000"
    and "\<forall>i < length bytes. ram m (code + word_of_nat i) = bytes ! i"
  shows "\<exists>m'. loader_main p len code m = Some (Jmp (0x4000 - len), m') \<and>
    (\<forall>i < length bytes. ram m' (0x4000 - len + word_of_nat i) = bytes ! i) \<and>
    (\<forall>x. \<not> loader_cell x \<and> (\<forall>i < length bytes. x \<noteq> 0x4000 - len + word_of_nat i) \<longrightarrow> ram m' x = ram m x)"
proof -
  let ?d = "0x4000 - len :: ushort"
  let ?m = "asm [lda_imm (lo16 len), sta p ld_cnt, lda_imm (hi16 len), sta p (ld_cnt + 1),
      lda_imm (lo16 code), sta p ld_src, lda_imm (hi16 code), sta p (ld_src + 1),
      lda_imm (lo16 ?d), sta p ld_dst, lda_imm (hi16 ?d), sta p (ld_dst + 1), ldy_imm 0x00] m"
  have m: "rY ?m = 0" "pointer ld_src ?m = code" "pointer ld_dst ?m = ?d" "pointer ld_cnt ?m = len"
    by (simp_all add: machine_defs pointer_def)
  have ram: "ram ?m x = ram m x" if "\<not> loader_cell x" for x
    using that by (simp add: machine_defs loader_cell_def)
  have ud: "unat ?d = 0x4000 - length bytes"
    using assms(2,4) by (simp add: unat_sub word_le_nat_alt)
  have s: "unat (code + word_of_nat i) = unat code + i" and d: "unat (?d + word_of_nat i) = 0x4000 - length bytes + i"
    if "i < length bytes" for i
    using that assms(4) ud by (simp_all add: unat_word_ariths unat_of_nat)
  have low: "copyable x" if "0x0100 \<le> unat x" "unat x < 0x4000" for x
    using that by (auto simp: copyable_def loader_cell_def word_less_nat_alt)
  have cells: "\<forall>i < length bytes. copyable (code + word_of_nat i) \<and> copyable (?d + word_of_nat i)"
    using s d assms(3,4) by (auto intro!: low)
  have apart: "\<forall>i < length bytes. \<forall>j < length bytes. ?d + word_of_nat i \<noteq> code + word_of_nat j"
  proof (intro allI impI notI)
    fix i j assume ij: "i < length bytes" "j < length bytes" and "?d + word_of_nat i = code + word_of_nat j"
    then have "unat (?d + word_of_nat i) = unat (code + word_of_nat j)" by simp
    with s [OF ij(2)] d [OF ij(1)] have "0x4000 - length bytes + i = unat code + j" by simp
    with ij assms(4) show False by linarith
  qed
  have "pointer ld_cnt ?m = word_of_nat (length bytes)" using m(4) assms(2) by (simp flip: assms(2))
  moreover have "\<forall>i < length bytes. ram ?m (code + word_of_nat i) = bytes ! i"
    using assms(5) cells ram unfolding copyable_def by presburger
  moreover have "length bytes < 65536" using assms(4) by simp
  ultimately obtain m' where m': "loader_copy p ?m = Some m'" "\<forall>x. \<not> loader_cell x \<longrightarrow> ram m' x = stored (ram ?m) ?d bytes x"
    using loader_copies [OF m(1-3) _ assms(1) _ _ cells apart, of p] by blast
  have "ram m' (?d + word_of_nat i) = bytes ! i" if "i < length bytes" for i
    using that m'(2) cells \<open>length bytes < 65536\<close> by (simp add: stored_at copyable_def del: asm.simps)
  moreover have "ram m' x = ram m x" if "\<not> loader_cell x" "\<forall>i < length bytes. x \<noteq> ?d + word_of_nat i" for x
    using that m'(2) stored_outside [of bytes ?d x "ram ?m"] ram by metis
  moreover have "loader_main p len code m = Some (Jmp ?d, m')"
    using m'(1) by (simp add: loader_main_def Let_def del: asm.simps)
  ultimately show ?thesis by blast
qed

theorem loader_places_server_witness:
  "\<exists>m'. loader_main sample_board 2 0x0840 ((sample_c64 [])\<lparr>ram := (\<lambda>_. 0)(0x0840 := 0xa9, 0x0841 := 0x60)\<rparr>) =
     Some (Jmp 0x3ffe, m') \<and> ram m' 0x3fff = 0x60"
proof -
  let ?m = "(sample_c64 [])\<lparr>ram := (\<lambda>_. 0)(0x0840 := 0xa9, 0x0841 := 0x60)\<rparr>"
  have "\<forall>i < length [0xa9, 0x60 :: uchar]. ram ?m (0x0840 + word_of_nat i) = [0xa9, 0x60] ! i"
    by (simp add: All_less_Suc)
  from loader_places_server [OF _ _ _ _ this, of 2 sample_board] obtain m' where
    "loader_main sample_board 2 0x0840 ?m = Some (Jmp (0x4000 - 2), m')"
    "\<forall>i < length [0xa9, 0x60 :: uchar]. ram m' (0x4000 - 2 + word_of_nat i) = [0xa9, 0x60] ! i" by auto
  then show ?thesis by (auto simp: All_less_Suc)
qed

section \<open>bootstrap.asm\<close>

context strobe_line begin

lemma bootstrap_next_line:
  assumes "P01 m = 0x37" "ddrb m = 0" "line (c_env m) = Sent x # es"
  shows "\<exists>m'. bootstrap_next p m = Some m' \<and> (fZ m' \<longleftrightarrow> x = Command_load) \<and> line (c_env m') = es \<and>
    view m' = view (m\<lparr>rY := x, talk := talk m @ [Sent x], flips := Suc (flips m)\<rparr>)"
proof -
  have i: "io_visible (P01 m)" using assms(1) by simp
  obtain e where w: "wait64 p m = Some (m\<lparr>rA := 0x10, fZ := False, fN := False, c_env := e\<rparr>)" "line e = es" "lit e = Sent x"
    using wait_strobe [OF i assms(3)] by blast
  obtain b e' where b: "pins p e = (b, e')" by fastforce
  with pins_lit [OF b] w have x: "b = x" "line e' = es" by auto
  let ?m1 = "ldy p 0xdd01 (m\<lparr>rA := 0x10, fZ := False, fN := False, c_env := e\<rparr>)"
  have m1: "view ?m1 = view (m\<lparr>rY := x, talk := talk m @ [Sent x]\<rparr>)" "c_env ?m1 = e'"
    using assms(1,2) b x by (simp_all add: machine_defs read_io_def)
  let ?m2 = "ack64 p ?m1"
  have m2: "view ?m2 = view (?m1\<lparr>flips := Suc (flips ?m1)\<rparr>)" "c_env ?m2 = e'"
    using ack_flips [of ?m1 p] m1 assms(1) by simp_all
  have "bootstrap_next p m = Some (cpy_imm Command_load ?m2)" using w(1) by (simp add: bootstrap_next_def)
  moreover have "view (cpy_imm Command_load ?m2) = view ?m2" "c_env (cpy_imm Command_load ?m2) = e'"
    "fZ (cpy_imm Command_load ?m2) \<longleftrightarrow> rY ?m2 = Command_load"
    using m2(2) by (simp_all add: machine_defs)
  ultimately show ?thesis using m1 m2 x by (intro exI [of _ "cpy_imm Command_load ?m2"]) simp
qed

lemma bootstrap_loop_line:
  "P01 m = 0x37 \<Longrightarrow> ddrb m = 0 \<Longrightarrow> line (c_env m) = map Sent xs @ Sent Command_load # es \<Longrightarrow> Command_load \<notin> set xs \<Longrightarrow>
   \<exists>m'. bootstrap_loop p m = Some m' \<and> line (c_env m') = es \<and>
     view m' = view (m\<lparr>rY := Command_load, talk := talk m @ map Sent (xs @ [Command_load]), flips := flips m + length xs + 1\<rparr>)"
proof (induction xs arbitrary: m)
  case Nil
  then have "line (c_env m) = Sent Command_load # es" by simp
  from bootstrap_next_line [OF Nil(1,2) this] show ?case by (subst bootstrap_loop.simps) auto
next
  case (Cons x xs)
  then have "line (c_env m) = Sent x # map Sent xs @ Sent Command_load # es" by simp
  from bootstrap_next_line [OF Cons.prems(1,2) this] obtain m1 where m1: "bootstrap_next p m = Some m1" "\<not> fZ m1"
    "line (c_env m1) = map Sent xs @ Sent Command_load # es"
    "view m1 = view (m\<lparr>rY := x, talk := talk m @ [Sent x], flips := Suc (flips m)\<rparr>)" using Cons.prems(4) by auto
  from m1(1,2) have "bootstrap_loop p m = bootstrap_loop p m1" by (subst bootstrap_loop.simps) simp
  with Cons.IH [of m1] m1 Cons.prems(1,2,4) show ?case by auto
qed

lemma bootstrap_load_line:
  assumes "P01 m = 0x37" "ddrb m = 0" "bytes \<noteq> []" "length bytes < 65536"
    and line: "line (c_env m) = map Sent ([c, b, lo16 a, hi16 a, lo16 e, hi16 e] @ bytes) @ es"
    and e: "e = a + word_of_nat (length bytes)"
    and free: "\<forall>i < length bytes. loadable 0x37 (a + word_of_nat i)"
  shows "\<exists>m'. bootstrap_load p m = Some m' \<and> line (c_env m') = es \<and> pointer bend m' = e \<and> rS m' = rS m \<and>
    talk m' = talk m @ map Sent ([c, b, lo16 a, hi16 a, lo16 e, hi16 e] @ bytes) \<and> flips m' = flips m + 6 + length bytes \<and>
    (\<forall>x. \<not> server_cell x \<longrightarrow> ram m' x = stored (ram m) a bytes x)"
proof -
  let ?m0 = "asm [lda_imm 0x0b, sta p 0xd011] m"
  have m0: "view ?m0 = view m" "line (c_env ?m0) = line (c_env m)"
    using assms(1) io_line by (simp_all add: machine_defs write_io_def)
  have "P01 ?m0 = 0x37" "ddrb ?m0 = 0" "line (c_env ?m0) = map Sent [c, b, lo16 a, hi16 a, lo16 e, hi16 e] @ map Sent bytes @ es"
    using m0 assms(1,2) line by (simp_all del: asm.simps)
  from header_line [OF this] obtain m1 where m1: "readHeader p ?m0 = Some m1" "line (c_env m1) = map Sent bytes @ es"
    "pointer zp_start m1 = a" "pointer zp_end m1 = e"
    "view m1 = view (m\<lparr>ram := (ram m)(zp_mem := c, zp_bank := b, zp_start := lo16 a, zp_start + 1 := hi16 a,
      zp_end := lo16 e, zp_end + 1 := hi16 e),
      talk := talk m @ map Sent [c, b, lo16 a, hi16 a, lo16 e, hi16 e], flips := flips m + 6\<rparr>)"
    using m0(1) by (auto simp del: asm.simps)
  let ?m2 = "ldy_imm 0x00 m1"
  have m2: "view ?m2 = view (m1\<lparr>rY := 0\<rparr>)" "c_env ?m2 = c_env m1" by (simp_all add: machine_defs)
  have "\<exists>m'. loop64 p (store_fast p) ?m2 = Some m' \<and> line (c_env m') = es \<and>
      view m' = view (?m2\<lparr>ram := (stored (ram ?m2) a bytes)(zp_start := ram ?m2 zp_end, zp_start + 1 := ram ?m2 (zp_end + 1)),
        talk := talk ?m2 @ map Sent bytes, flips := flips ?m2 + length bytes\<rparr>)"
    by (rule loop_stores [OF stores_fast])
      (use assms(1-4) m1 m2 e free in \<open>simp_all add: pointer_def loadable_def server_cell_def\<close>)
  then obtain m3 where m3: "loop64 p (store_fast p) ?m2 = Some m3" "line (c_env m3) = es"
    "view m3 = view (?m2\<lparr>ram := (stored (ram ?m2) a bytes)(zp_start := ram ?m2 zp_end, zp_start + 1 := ram ?m2 (zp_end + 1)),
        talk := talk ?m2 @ map Sent bytes, flips := flips ?m2 + length bytes\<rparr>)" by blast
  have outside: "stored r a bytes x = r x" if "server_cell x" for r x
    using free that by (intro stored_outside) (auto simp: loadable_def)
  let ?m4 = "asm [lda p zp_end, sta p bend, lda p (zp_end + 1), sta p (bend + 1), lda_imm 0x1b, sta p 0xd011] m3"
  have z: "ram m3 zp_end = lo16 e" "ram m3 (zp_end + 1) = hi16 e" "P01 m3 = 0x37"
    using m3(3) m2(1) m1(5) outside assms(1) by simp_all
  have m4: "view ?m4 = view (m3\<lparr>ram := (ram m3)(bend := lo16 e, bend + 1 := hi16 e)\<rparr>)" "line (c_env ?m4) = es"
    using z m3(2) io_line by (simp_all add: machine_defs write_io_def)
  have "bootstrap_load p m = Some ?m4" using m1(1) m3(1) by (simp add: bootstrap_load_def)
  moreover have "ram ?m4 x = stored (ram m) a bytes x" if "\<not> server_cell x" for x
    using that m4(1) m3(3) m2(1) m1(5) by (auto simp: stored_def simp del: asm.simps)
  ultimately show ?thesis
    using m4 m3(3) m2(1) m1(5) by (intro exI [of _ ?m4]) (simp add: pointer_def del: asm.simps)
qed

end

end
