(* ===== verification/Bootstrap_Link.thy ===== *)
theory Bootstrap_Link
  imports Bootstrap_Laws Server_Control
begin

text \<open>The host and the bootstrap program together: how the first server gets onto the C64.\<close>

text \<open>C24. A C64 without a server takes the first load: when the library reports over the parallel port
  that a load succeeded, the bootstrap program, started before the host begins, has skipped the
  ping, has answered each strobe, has left the bytes at their addresses and the end of the
  BASIC program behind them, and goes on at the prompt of BASIC.\<close>

theorem bootstrap_link:
  assumes "xlink_load (libxlink_driver sy) c b a bytes s = Some (True, s')" "drv_backend s = BParport"
    and "P01 m = 0x37" "q_line (c_env m) = said s s'" "0 < q_wait (c_env m)"
    and "bytes \<noteq> []" "length bytes < 65536" "\<forall>i < length bytes. loadable 0x37 (a + word_of_nat i)"
  shows "\<exists>m'. bootstrap_main (host_board roms calls io) m = Some (Jmp repl, m') \<and>
    talk m' = talk m @ said s s' \<and> flips m' = flips m + length (said s s') \<and>
    (\<forall>i < length bytes. ram m' (a + word_of_nat i) = bytes ! i) \<and>
    (\<forall>x. \<not> server_cell x \<and> (\<forall>i < length bytes. x \<noteq> a + word_of_nat i) \<longrightarrow> ram m' x = ram m x) \<and>
    pointer bend m' = a + word_of_nat (length bytes) \<and> rS m' = rS m"
proof -
  let ?p = "host_board roms calls io" and ?e = "a + word_of_nat (length bytes)"
  let ?h = "[c, b, lo16 a, hi16 a, lo16 ?e, hi16 ?e]"
  have conv: "said s s' = map Sent [0xfd] @ Sent Command_load # map Sent (?h @ bytes) @ []"
    using ppb.load_says [OF assms(1)] assms(2)
    by (simp add: said_def pp_port_def range_header header_def Let_def)
  let ?m0 = "asm [lda_imm 0x00, sta ?p 0xdd03, lda ?p 0xdd02, ora_imm 0x04, sta ?p 0xdd02, lda ?p 0xdd0d] m"
  obtain k where "q_wait (c_env m) = Suc k" using assms(5) by (cases "q_wait (c_env m)") auto
  then have m0: "view ?m0 = view (m\<lparr>ddrb := 0\<rparr>)" "q_line (c_env ?m0) = said s s'"
    using assms(3,4) by (simp_all add: machine_defs read_io_def write_io_def host_board_def next_strobe_def)
  have "P01 ?m0 = 0x37" "ddrb ?m0 = 0" "Command_load \<notin> set [0xfd]"
    using m0(1) assms(3) by (simp_all add: Command_load_def del: asm.simps)
  from host.bootstrap_loop_line [OF this(1,2) m0(2) [unfolded conv] this(3), of roms calls io] obtain m1 where
    m1: "bootstrap_loop ?p ?m0 = Some m1" "q_line (c_env m1) = map Sent (?h @ bytes) @ []"
      "view m1 = view (?m0\<lparr>rY := Command_load, talk := talk ?m0 @ map Sent ([0xfd] @ [Command_load]), flips := flips ?m0 + 2\<rparr>)"
    by auto
  have "P01 m1 = 0x37" "ddrb m1 = 0" using m1(3) m0(1) assms(3) by (simp_all del: asm.simps)
  from host.bootstrap_load_line [OF this assms(6,7) m1(2) refl assms(8), of roms calls io] obtain m2 where
    m2: "bootstrap_load ?p m1 = Some m2" "pointer bend m2 = ?e" "rS m2 = rS m1" "talk m2 = talk m1 @ map Sent (?h @ bytes)"
      "flips m2 = flips m1 + 6 + length bytes" "\<forall>x. \<not> server_cell x \<longrightarrow> ram m2 x = stored (ram m1) a bytes x" by blast
  have old: "rS m1 = rS m" "talk m1 = talk m @ map Sent [0xfd, Command_load]" "flips m1 = flips m + 2" "ram m1 = ram m"
    using m1(3) m0(1) by (simp_all del: asm.simps)
  have "ram m2 (a + word_of_nat i) = bytes ! i" if "i < length bytes" for i
    using that m2(6) assms(7) loadable_cell [of "0x37" "a + word_of_nat i"] assms(8) by (simp add: stored_at)
  moreover have "ram m2 x = ram m x" if "\<not> server_cell x" "\<forall>i < length bytes. x \<noteq> a + word_of_nat i" for x
    using that m2(6) stored_outside [of bytes a x "ram m"] old(4) by metis
  moreover have "bootstrap_main ?p m = Some (Jmp repl, m2)"
    using m1(1) m2(1) by (simp add: bootstrap_main_def del: asm.simps)
  ultimately show ?thesis using m2(2-5) old conv by (intro exI [of _ m2]) simp
qed

theorem bootstrap_link_witness:
  "\<exists>s' m'. xlink_load (libxlink_driver sample_sys) 0x37 0 0x0801 [9, 8] sample_load = Some (True, s') \<and>
    bootstrap_main sample_board ((sample_c64 (said sample_load s'))\<lparr>c_env := (c_env (sample_c64 (said sample_load s')))\<lparr>q_wait := 1\<rparr>\<rparr>) =
      Some (Jmp repl, m') \<and> ram m' 0x0802 = 8 \<and> pointer bend m' = 0x0803"
proof -
  have "map_option fst (xlink_load (libxlink_driver sample_sys) 0x37 0 0x0801 [9, 8] sample_load) = Some True" by code_simp
  then obtain s' where load: "xlink_load (libxlink_driver sample_sys) 0x37 0 0x0801 [9, 8] sample_load = Some (True, s')" by auto
  have be: "drv_backend sample_load = BParport" by code_simp
  let ?m = "(sample_c64 (said sample_load s'))\<lparr>c_env := (c_env (sample_c64 (said sample_load s')))\<lparr>q_wait := 1\<rparr>\<rparr>"
  have m: "P01 ?m = 0x37" "q_line (c_env ?m) = said sample_load s'" "0 < q_wait (c_env ?m)"
    by (simp_all add: sample_c64_def)
  have cells: "\<forall>i < length [9, 8 :: uchar]. loadable 0x37 (0x0801 + word_of_nat i)"
    using two_cells(2) by (auto simp: numeral_2_eq_2)
  have ne: "[9, 8 :: uchar] \<noteq> []" "length [9, 8 :: uchar] < 65536" by simp_all
  obtain m' where "bootstrap_main sample_board ?m = Some (Jmp repl, m')"
    "\<forall>i < length [9, 8 :: uchar]. ram m' (0x0801 + word_of_nat i) = [9, 8] ! i"
    "pointer bend m' = 0x0801 + word_of_nat (length [9, 8 :: uchar])"
    using bootstrap_link [OF load be m ne cells, of "\<lambda>_. 0xff" "\<lambda>_ m. m" "\<lambda>_. 0"] by blast
  with load show ?thesis by (intro exI [of _ s'] exI [of _ m']) (auto simp: All_less_Suc)
qed

end
