(* ===== verification/Cable.thy ===== *)
theory Cable
  imports Prelude
begin

text \<open>
  The cable with a program at each end, step by step: what the byte loops of driver/parport.c do on
  the lines, and what the macros of server.h do, interleaved in any order. A wait is a step that
  is only possible when the other side has answered. Time limits are not part of it.
\<close>

section \<open>The lines\<close>

text \<open>
  \<open>strobed\<close> is the strobe of the host as the CIA keeps it in its interrupt flags, \<open>pa2\<close> the
  acknowledge line, \<open>last_pa2\<close> what the host saw of it last (\<open>_driver_parport_last_status\<close>).
\<close>

record cable =
  strobed :: bool
  pa2 :: bool
  last_pa2 :: bool
  host_drives :: bool
  host_byte :: uchar
  c64_drives :: bool
  c64_byte :: uchar
  host_got :: "uchar list"
  c64_got :: "uchar list"

definition port_value :: "cable \<Rightarrow> uchar" where
  "port_value c = (if host_drives c then host_byte c else if c64_drives c then c64_byte c else 0xff)"

datatype host_act = HOutput | HInput | HWrite uchar | HStrobe | HWait | HRead

fun host_do :: "host_act \<Rightarrow> cable \<Rightarrow> cable option" where
  "host_do HOutput c = Some (c\<lparr>host_drives := True\<rparr>)"
| "host_do HInput c = Some (c\<lparr>host_drives := False\<rparr>)"
| "host_do (HWrite b) c = Some (c\<lparr>host_byte := b\<rparr>)"
| "host_do HStrobe c = Some (c\<lparr>strobed := True\<rparr>)"
| "host_do HWait c = (if pa2 c = last_pa2 c then None else Some (c\<lparr>last_pa2 := pa2 c\<rparr>))"
| "host_do HRead c = Some (c\<lparr>host_got := host_got c @ [port_value c]\<rparr>)"

datatype c64_act = CWait | CRead | CWrite uchar | CAck | COutput | CInput

fun c64_do :: "c64_act \<Rightarrow> cable \<Rightarrow> cable option" where
  "c64_do CWait c = (if strobed c then Some (c\<lparr>strobed := False\<rparr>) else None)"
| "c64_do CRead c = Some (c\<lparr>c64_got := c64_got c @ [port_value c]\<rparr>)"
| "c64_do (CWrite b) c = Some (c\<lparr>c64_byte := b\<rparr>)"
| "c64_do CAck c = Some (c\<lparr>pa2 := \<not> pa2 c\<rparr>)"
| "c64_do COutput c = Some (c\<lparr>c64_drives := True\<rparr>)"
| "c64_do CInput c = Some (c\<lparr>c64_drives := False\<rparr>)"

section \<open>The programs\<close>

text \<open>The host: \<open>driver->send\<close>, \<open>driver->receive\<close>, \<open>driver->ping\<close>, and the requests made of them.\<close>

definition host_send :: "uchar list \<Rightarrow> host_act list" where
  "host_send bs = concat (map (\<lambda>b. [HWrite b, HStrobe, HWait]) bs)"

definition host_receive :: "nat \<Rightarrow> host_act list" where
  "host_receive n = concat (replicate n [HWait, HRead, HStrobe])"

definition host_ping :: "host_act list" where
  "host_ping = HOutput # host_send [0xfd]"

definition host_store :: "uchar list \<Rightarrow> uchar list \<Rightarrow> host_act list" where
  "host_store command bytes = host_ping @ HOutput # host_send command @ host_send bytes"

definition host_fetch :: "uchar list \<Rightarrow> nat \<Rightarrow> host_act list" where
  "host_fetch command n = host_ping @ HOutput # host_send command @ HInput # HStrobe # host_receive n"

text \<open>The server: \<open>:read()\<close>, \<open>:write()\<close>, \<open>:output()\<close>, \<open>:input()\<close>; the ping is an interrupt of its own.\<close>

definition c64_read :: "c64_act list" where "c64_read = [CWait, CRead, CAck]"
definition c64_write :: "uchar \<Rightarrow> c64_act list" where "c64_write b = [CWrite b, CAck, CWait]"

definition c64_reads :: "nat \<Rightarrow> c64_act list" where
  "c64_reads n = concat (replicate n c64_read)"

text \<open>At the end the server waits for the strobe of the next request.\<close>

definition c64_store :: "nat \<Rightarrow> c64_act list" where
  "c64_store n = c64_reads (Suc n) @ [CWait]"

definition c64_fetch :: "nat \<Rightarrow> uchar list \<Rightarrow> c64_act list" where
  "c64_fetch n bytes = c64_reads (Suc n) @ CWait # COutput # concat (map c64_write bytes) @ [CInput, CWait]"

section \<open>Interleaving\<close>

type_synonym ends = "cable \<times> host_act list \<times> c64_act list"

inductive cable_step :: "ends \<Rightarrow> ends \<Rightarrow> bool" where
  host: "host_do h c = Some c' \<Longrightarrow> cable_step (c, h # hs, cs) (c', hs, cs)"
| c64: "c64_do a c = Some c' \<Longrightarrow> cable_step (c, hs, a # cs) (c', hs, cs)"

code_pred cable_step .

text \<open>
  Lockstep: in each state but the last just one step is possible, so that there is only one order
  of the steps, and the two sides never drive the data lines at the same time.
\<close>

definition clash :: "ends \<Rightarrow> bool" where
  "clash s \<longleftrightarrow> host_drives (fst s) \<and> c64_drives (fst s)"

fun host_next :: "ends \<Rightarrow> ends option" where
  "host_next (c, [], cs) = None"
| "host_next (c, h # hs, cs) = (case host_do h c of None \<Rightarrow> None | Some c' \<Rightarrow> Some (c', hs, cs))"

fun c64_next :: "ends \<Rightarrow> ends option" where
  "c64_next (c, hs, []) = None"
| "c64_next (c, hs, a # cs) = (case c64_do a c of None \<Rightarrow> None | Some c' \<Rightarrow> Some (c', hs, cs))"

lemma cable_step_iff: "cable_step s t \<longleftrightarrow> host_next s = Some t \<or> c64_next s = Some t"
proof
  assume "cable_step s t"
  then show "host_next s = Some t \<or> c64_next s = Some t" by cases auto
next
  assume "host_next s = Some t \<or> c64_next s = Some t"
  then show "cable_step s t"
  proof
    assume "host_next s = Some t"
    then show ?thesis by (cases s rule: host_next.cases) (auto intro: cable_step.host split: option.splits)
  next
    assume "c64_next s = Some t"
    then show ?thesis by (cases s rule: c64_next.cases) (auto intro: cable_step.c64 split: option.splits)
  qed
qed

definition only_step :: "ends \<Rightarrow> ends option" where
  "only_step s = (if clash s then None else
     (case (host_next s, c64_next s) of
        (Some t, None) \<Rightarrow> Some t | (None, Some t) \<Rightarrow> Some t | _ \<Rightarrow> None))"

fun only_steps :: "nat \<Rightarrow> ends \<Rightarrow> ends option" where
  "only_steps 0 s = Some s"
| "only_steps (Suc n) s = Option.bind (only_step s) (only_steps n)"

definition lockstep :: "ends \<Rightarrow> ends \<Rightarrow> bool" where
  "lockstep s z \<longleftrightarrow> (\<exists>n. only_steps n s = Some z)"

lemma only_stepD: "only_step s = Some t \<Longrightarrow> \<not> clash s \<and> (\<forall>u. cable_step s u \<longleftrightarrow> u = t)"
  by (auto simp: only_step_def cable_step_iff split: if_splits option.splits)

lemma only_steps_add: "only_steps m s = Some t \<Longrightarrow> only_steps n t = Some z \<Longrightarrow> only_steps (m + n) s = Some z"
  by (induction m arbitrary: s) (auto simp: bind_eq_Some_conv)

lemma lockstep_trans: "lockstep s t \<Longrightarrow> lockstep t u \<Longrightarrow> lockstep s u"
  unfolding lockstep_def by (blast intro: only_steps_add)

text \<open>What lockstep means: every state that any run reaches is free of clashes and on the way to the end.\<close>

lemma lockstep_reach:
  assumes "cable_step\<^sup>*\<^sup>* s r" "lockstep s z" "\<forall>u. \<not> cable_step z u" "\<not> clash z"
  shows "\<not> clash r \<and> lockstep r z \<and> (r \<noteq> z \<longrightarrow> (\<exists>u. cable_step r u))"
proof -
  have at: "r = z \<or> (\<exists>t. only_step r = Some t \<and> lockstep t z)" if "lockstep r z" for r
  proof -
    from that obtain n where "only_steps n r = Some z" by (auto simp: lockstep_def)
    then show ?thesis by (cases n) (auto simp: lockstep_def bind_eq_Some_conv)
  qed
  from assms(1,2) have "lockstep r z"
  proof (induction rule: rtranclp_induct)
    case (step r u)
    then have "lockstep r z" by blast
    from at [OF this] show ?case using step.hyps(2) assms(3) by (metis only_stepD)
  qed
  with at [OF this] only_stepD assms(4) show ?thesis by blast
qed

section \<open>Bytes across the cable\<close>

text \<open>Nothing is strobed and the host has seen the last acknowledgement.\<close>

definition calm :: "cable \<Rightarrow> bool" where
  "calm c \<longleftrightarrow> \<not> strobed c \<and> last_pa2 c = pa2 c"

lemma send_lockstep:
  "calm c \<Longrightarrow> host_drives c \<Longrightarrow> \<not> c64_drives c \<Longrightarrow>
   \<exists>c'. calm c' \<and> host_drives c' \<and> \<not> c64_drives c' \<and> c64_got c' = c64_got c @ bs \<and> host_got c' = host_got c \<and>
    lockstep (c, host_send bs @ hs, c64_reads (length bs) @ CWait # cs) (c', hs, CWait # cs)"
proof (induction bs arbitrary: c)
  case Nil
  then show ?case by (intro exI [of _ c]) (auto simp: host_send_def c64_reads_def lockstep_def intro: exI [of _ 0])
next
  case (Cons b bs)
  let ?c = "c\<lparr>host_byte := b, strobed := False, c64_got := c64_got c @ [b], pa2 := \<not> pa2 c, last_pa2 := \<not> pa2 c\<rparr>"
  have "calm ?c" "host_drives ?c" "\<not> c64_drives ?c" using Cons.prems by (simp_all add: calm_def)
  from Cons.IH [OF this] obtain c' where c': "calm c'" "host_drives c'" "\<not> c64_drives c'" "c64_got c' = c64_got c @ b # bs"
    "host_got c' = host_got c"
    "lockstep (?c, host_send bs @ hs, c64_reads (length bs) @ CWait # cs) (c', hs, CWait # cs)" by auto
  obtain as where as: "c64_reads (length bs) @ CWait # cs = CWait # as"
    by (cases bs) (auto simp: c64_reads_def c64_read_def)
  have "only_steps 6 (c, HWrite b # HStrobe # HWait # host_send bs @ hs, CWait # CRead # CAck # CWait # as) =
      Some (?c, host_send bs @ hs, CWait # as)"
    using Cons.prems by (simp add: eval_nat_numeral only_step_def clash_def calm_def port_value_def)
  then have "lockstep (c, HWrite b # HStrobe # HWait # host_send bs @ hs, CWait # CRead # CAck # CWait # as)
      (?c, host_send bs @ hs, CWait # as)" unfolding lockstep_def by blast
  from lockstep_trans [OF this c'(6) [unfolded as]] show ?case
    using c'(1-5) as by (intro exI [of _ c']) (simp add: host_send_def c64_reads_def c64_read_def)
qed

lemma receive_lockstep:
  "calm c \<Longrightarrow> \<not> host_drives c \<Longrightarrow> c64_drives c \<Longrightarrow>
   \<exists>c'. calm c' \<and> \<not> host_drives c' \<and> c64_drives c' \<and> host_got c' = host_got c @ bs \<and> c64_got c' = c64_got c \<and>
    lockstep (c, host_receive (length bs), concat (map c64_write bs) @ CInput # cs) (c', [], CInput # cs)"
proof (induction bs arbitrary: c)
  case Nil
  then show ?case by (intro exI [of _ c]) (auto simp: host_receive_def lockstep_def intro: exI [of _ 0])
next
  case (Cons b bs)
  let ?c = "c\<lparr>c64_byte := b, strobed := False, host_got := host_got c @ [b], pa2 := \<not> pa2 c, last_pa2 := \<not> pa2 c\<rparr>"
  have "calm ?c" "\<not> host_drives ?c" "c64_drives ?c" using Cons.prems by (simp_all add: calm_def)
  from Cons.IH [OF this] obtain c' where c': "calm c'" "\<not> host_drives c'" "c64_drives c'" "host_got c' = host_got c @ b # bs"
    "c64_got c' = c64_got c"
    "lockstep (?c, host_receive (length bs), concat (map c64_write bs) @ CInput # cs) (c', [], CInput # cs)" by auto
  obtain hs where hs: "host_receive (length bs) = hs" "hs = [] \<or> hd hs = HWait"
    by (cases bs) (auto simp: host_receive_def)
  have "only_steps 6 (c, HWait # HRead # HStrobe # hs, CWrite b # CAck # CWait # concat (map c64_write bs) @ CInput # cs) =
      Some (?c, hs, concat (map c64_write bs) @ CInput # cs)"
    using Cons.prems hs(2) by (cases hs) (auto simp: eval_nat_numeral only_step_def clash_def calm_def port_value_def)
  then have "lockstep (c, HWait # HRead # HStrobe # hs, CWrite b # CAck # CWait # concat (map c64_write bs) @ CInput # cs)
      (?c, hs, concat (map c64_write bs) @ CInput # cs)" unfolding lockstep_def by blast
  note run = lockstep_trans [OF this c'(6) [unfolded hs(1)]]
  have "host_receive (length (b # bs)) = HWait # HRead # HStrobe # hs"
    "concat (map c64_write (b # bs)) = CWrite b # CAck # CWait # concat (map c64_write bs)"
    using hs(1) by (simp_all add: host_receive_def c64_write_def)
  with run c'(1-5) show ?case by (intro exI [of _ c']) simp
qed

text \<open>What both kinds of request begin with: the ping and the command.\<close>

lemma command_lockstep:
  assumes "calm c" "\<not> c64_drives c"
  shows "\<exists>c'. calm c' \<and> host_drives c' \<and> \<not> c64_drives c' \<and> c64_got c' = c64_got c @ 0xfd # bs \<and> host_got c' = host_got c \<and>
    lockstep (c, host_ping @ HOutput # host_send bs @ hs, c64_reads (Suc (length bs)) @ CWait # cs) (c', hs, CWait # cs)"
proof -
  let ?as = "c64_reads (length bs) @ CWait # cs"
  obtain as where as: "?as = CWait # as" by (cases bs) (auto simp: c64_reads_def c64_read_def)
  let ?c = "c\<lparr>host_drives := True, host_byte := 0xfd, strobed := False, c64_got := c64_got c @ [0xfd], pa2 := \<not> pa2 c, last_pa2 := \<not> pa2 c\<rparr>"
  have "only_steps 8 (c, HOutput # HWrite 0xfd # HStrobe # HWait # HOutput # host_send bs @ hs, CWait # CRead # CAck # CWait # as) =
      Some (?c, host_send bs @ hs, CWait # as)"
    using assms by (simp add: eval_nat_numeral only_step_def clash_def calm_def port_value_def)
  then have ping: "lockstep (c, host_ping @ HOutput # host_send bs @ hs, c64_reads (Suc (length bs)) @ CWait # cs)
      (?c, host_send bs @ hs, ?as)"
    using as unfolding lockstep_def by (auto simp: host_ping_def host_send_def c64_reads_def c64_read_def)
  have "calm ?c" "host_drives ?c" "\<not> c64_drives ?c" using assms by (simp_all add: calm_def)
  from send_lockstep [OF this, of bs hs cs] obtain c' where c': "calm c'" "host_drives c'" "\<not> c64_drives c'"
    "c64_got c' = c64_got c @ 0xfd # bs" "host_got c' = host_got c" "lockstep (?c, host_send bs @ hs, ?as) (c', hs, CWait # cs)"
    by auto
  with lockstep_trans [OF ping c'(6)] show ?thesis by blast
qed

section \<open>Requests\<close>

text \<open>C27. A request that stores, a load for instance, works in lockstep whatever the speed of the two
  sides: from a cable at rest, in every state that any interleaving of the host's steps with the
  server's reaches, the sides do not drive the lines together, and either the request is done,
  with the ping, the command and the data taken by the server in order, once each, and the cable
  at rest again, or there is a step to take.\<close>

theorem cable_store:
  assumes "calm c" "\<not> c64_drives c"
    and "cable_step\<^sup>*\<^sup>* (c, host_store command bytes, c64_store (length command + length bytes)) r"
  shows "\<not> clash r \<and> (\<exists>c'. lockstep r (c', [], [CWait]) \<and> (r = (c', [], [CWait]) \<or> (\<exists>u. cable_step r u)) \<and>
    calm c' \<and> \<not> c64_drives c' \<and> c64_got c' = c64_got c @ 0xfd # command @ bytes \<and> host_got c' = host_got c)"
proof -
  have host: "host_store command bytes = host_ping @ HOutput # host_send (command @ bytes) @ []"
    by (simp add: host_store_def host_send_def)
  from command_lockstep [OF assms(1,2), of "command @ bytes" "[]" "[]"] obtain c' where c': "calm c'" "\<not> c64_drives c'"
    "c64_got c' = c64_got c @ 0xfd # command @ bytes" "host_got c' = host_got c"
    "lockstep (c, host_store command bytes, c64_store (length command + length bytes)) (c', [], [CWait])"
    unfolding host c64_store_def by auto
  then have "\<forall>u. \<not> cable_step (c', [], [CWait]) u" "\<not> clash (c', [], [CWait])"
    by (auto simp: cable_step_iff clash_def calm_def)
  from lockstep_reach [OF assms(3) c'(5) this] c'(1-4) show ?thesis by blast
qed

definition rest :: cable where
  "rest = \<lparr>strobed = False, pa2 = False, last_pa2 = False, host_drives = False, host_byte = 0,
     c64_drives = False, c64_byte = 0, host_got = [], c64_got = []\<rparr>"

theorem cable_store_witness:
  "\<exists>c'. lockstep (rest, host_store [3, 0x37, 0, 0x20, 0xd0] [14], c64_store 6) (c', [], [CWait]) \<and>
     c64_got c' = [0xfd, 3, 0x37, 0, 0x20, 0xd0, 14]"
  using cable_store [of rest "[3, 0x37, 0, 0x20, 0xd0]" "[14]", OF _ _ rtranclp.rtrancl_refl]
  by (auto simp: calm_def rest_def eval_nat_numeral)

text \<open>C26. So does a request that fetches, a save for instance: the server takes the ping and the
  command, the lines are turned round without both sides driving them, the host gets exactly the
  bytes of the server, in order, once each, and the cable is at rest again.\<close>

theorem cable_fetch:
  assumes "calm c" "\<not> c64_drives c"
    and "cable_step\<^sup>*\<^sup>* (c, host_fetch command (length bytes), c64_fetch (length command) bytes) r"
  shows "\<not> clash r \<and> (\<exists>c'. lockstep r (c', [], [CWait]) \<and> (r = (c', [], [CWait]) \<or> (\<exists>u. cable_step r u)) \<and>
    calm c' \<and> \<not> c64_drives c' \<and> c64_got c' = c64_got c @ 0xfd # command \<and> host_got c' = host_got c @ bytes)"
proof -
  let ?hs = "host_receive (length bytes)" and ?cs = "concat (map c64_write bytes) @ [CInput, CWait]"
  from command_lockstep [OF assms(1,2), of command "HInput # HStrobe # ?hs" "COutput # ?cs"] obtain c1 where
    c1: "calm c1" "host_drives c1" "\<not> c64_drives c1" "c64_got c1 = c64_got c @ 0xfd # command" "host_got c1 = host_got c"
      "lockstep (c, host_fetch command (length bytes), c64_fetch (length command) bytes) (c1, HInput # HStrobe # ?hs, CWait # COutput # ?cs)"
    unfolding host_fetch_def c64_fetch_def by auto
  let ?c = "c1\<lparr>host_drives := False, strobed := False, c64_drives := True\<rparr>"
  obtain hs where hs: "?hs = hs" "hs = [] \<or> hd hs = HWait" by (cases bytes) (auto simp: host_receive_def)
  have "only_steps 4 (c1, HInput # HStrobe # hs, CWait # COutput # ?cs) = Some (?c, hs, ?cs)"
    using c1(1-3) hs(2) by (cases hs) (auto simp: eval_nat_numeral only_step_def clash_def calm_def)
  then have turn: "lockstep (c1, HInput # HStrobe # ?hs, CWait # COutput # ?cs) (?c, ?hs, ?cs)"
    unfolding hs(1) lockstep_def by blast
  have "calm ?c" "\<not> host_drives ?c" "c64_drives ?c" using c1(1) by (simp_all add: calm_def)
  from receive_lockstep [OF this, of bytes "[CWait]"] obtain c2 where c2: "calm c2" "\<not> host_drives c2"
    "host_got c2 = host_got c @ bytes" "c64_got c2 = c64_got c @ 0xfd # command" "lockstep (?c, ?hs, ?cs) (c2, [], [CInput, CWait])"
    using c1(4,5) by auto
  let ?z = "c2\<lparr>c64_drives := False\<rparr>"
  have "only_steps 1 (c2, [], [CInput, CWait]) = Some (?z, [], [CWait])"
    using c2(2) by (simp add: only_step_def clash_def)
  then have "lockstep (c2, [], [CInput, CWait]) (?z, [], [CWait])" unfolding lockstep_def by blast
  with lockstep_trans [OF c1(6) lockstep_trans [OF turn c2(5)]] have
    run: "lockstep (c, host_fetch command (length bytes), c64_fetch (length command) bytes) (?z, [], [CWait])"
    by (rule lockstep_trans)
  have "\<forall>u. \<not> cable_step (?z, [], [CWait]) u" "\<not> clash (?z, [], [CWait])" "calm ?z"
    using c2(1,2) by (auto simp: cable_step_iff clash_def calm_def)
  with lockstep_reach [OF assms(3) run] c2(3,4) show ?thesis by (intro conjI exI [of _ ?z]) auto
qed

theorem cable_fetch_witness:
  "\<exists>c'. lockstep (rest, host_fetch [4, 0x37, 0, 0x20, 0xd0] (length [14 :: uchar]), c64_fetch (length [4, 0x37, 0, 0x20, 0xd0 :: uchar]) [14])
      (c', [], [CWait]) \<and> host_got c' = [14]"
  using cable_fetch [of rest "[4, 0x37, 0, 0x20, 0xd0]" "[14]", OF _ _ rtranclp.rtrancl_refl]
  by (auto simp: calm_def rest_def)

text \<open>
  Only the way back has no acknowledgement: the server makes its port an input when it has seen the
  last strobe, and a host that began its next request before that would drive the lines against it.
\<close>

theorem hasty_request_clashes:
  "\<exists>r. cable_step\<^sup>*\<^sup>* (rest, host_fetch [4, 0x37, 0, 0x20, 0xd0] 1 @ host_ping, c64_fetch 5 [14]) r \<and> clash r"
proof -
  let ?s = "(rest, host_fetch [4, 0x37, 0, 0x20, 0xd0] 1 @ host_ping, c64_fetch 5 [14])"
  have reach: "only_steps n s = Some t \<Longrightarrow> cable_step\<^sup>*\<^sup>* s t" for n s t
    by (induction n arbitrary: s) (auto simp: bind_eq_Some_conv dest!: only_stepD intro: converse_rtranclp_into_rtranclp)
  have "map_option (\<lambda>(c, hs, cs). (c64_drives c, hs, cs)) (only_steps 47 ?s) = Some (True, host_ping, [CWait, CInput, CWait])"
    by code_simp
  then obtain c where c: "only_steps 47 ?s = Some (c, host_ping, [CWait, CInput, CWait])" "c64_drives c" by auto
  have "cable_step (c, host_ping, [CWait, CInput, CWait]) (c\<lparr>host_drives := True\<rparr>, host_send [0xfd], [CWait, CInput, CWait])"
    unfolding host_ping_def by (rule cable_step.host) simp
  with reach [OF c(1)] have "cable_step\<^sup>*\<^sup>* ?s (c\<lparr>host_drives := True\<rparr>, host_send [0xfd], [CWait, CInput, CWait])"
    by (rule rtranclp.rtrancl_into_rtrancl)
  moreover have "clash (c\<lparr>host_drives := True\<rparr>, host_send [0xfd], [CWait, CInput, CWait])" using c(2) by (simp add: clash_def)
  ultimately show ?thesis by blast
qed

end
