(* ===== verification/Cable_Link.thy ===== *)
theory Cable_Link
  imports Cable Server_Control
begin

text \<open>
  The programs of \<open>Cable\<close> are those of the code: the conversation that the library holds in a load
  and in a save is, act by act, the host's program, and read from the other end the server's.
\<close>

fun host_acts :: "bus_event \<Rightarrow> host_act list" where
  "host_acts (Sent b) = [HWrite b, HStrobe, HWait]"
| "host_acts Ready = [HInput, HStrobe]"
| "host_acts (Got b) = [HWait, HRead, HStrobe]"

fun c64_acts :: "bus_event \<Rightarrow> c64_act list" where
  "c64_acts (Sent b) = c64_read"
| "c64_acts Ready = [CWait, COutput]"
| "c64_acts (Got b) = c64_write b"

lemma acts_sent [simp]:
  "concat (map (host_acts \<circ> Sent) bs) = host_send bs" "concat (map (c64_acts \<circ> Sent) bs) = c64_reads (length bs)"
  by (induction bs) (simp_all add: host_send_def c64_reads_def c64_read_def)

lemma acts_got [simp]:
  "concat (map (host_acts \<circ> Got) bs) = host_receive (length bs)" "concat (map (c64_acts \<circ> Got) bs) = concat (map c64_write bs)"
  by (induction bs) (simp_all add: host_receive_def)

lemma quiet_acts [simp]:
  "filter (\<lambda>a. a \<noteq> HOutput) (host_send bs) = host_send bs" "filter (\<lambda>a. a \<noteq> HOutput) (host_receive n) = host_receive n"
proof -
  show "filter (\<lambda>a. a \<noteq> HOutput) (host_send bs) = host_send bs" by (induction bs) (simp_all add: host_send_def)
  show "filter (\<lambda>a. a \<noteq> HOutput) (host_receive n) = host_receive n" by (induction n) (simp_all add: host_receive_def)
qed

lemma sends: "host_send (a # as) = host_send [a] @ host_send as" "host_send (as @ bs) = host_send as @ host_send bs"
  "c64_reads (Suc n) = c64_read @ c64_reads n" "c64_reads (m + n) = c64_reads m @ c64_reads n"
  by (simp_all add: host_send_def c64_reads_def replicate_add)

lemma store_acts:
  "concat (map host_acts (map Sent (0xfd # command @ bytes))) = filter (\<lambda>a. a \<noteq> HOutput) (host_store command bytes)"
  "concat (map c64_acts (map Sent (0xfd # command @ bytes))) @ [CWait] = c64_store (length command + length bytes)"
  by (simp_all add: host_store_def host_ping_def c64_store_def sends(2-4) host_send_def [of "[_]"] sends(1) [of "0xfd" command] c64_read_def)

lemma fetch_acts:
  "concat (map host_acts (map Sent (0xfd # command) @ Ready # map Got bytes)) =
     filter (\<lambda>a. a \<noteq> HOutput) (host_fetch command (length bytes))"
  "concat (map c64_acts (map Sent (0xfd # command) @ Ready # map Got bytes)) @ [CInput, CWait] = c64_fetch (length command) bytes"
  by (simp_all add: host_fetch_def host_ping_def c64_fetch_def sends(3) host_send_def [of "[_]"] c64_read_def)

text \<open>So a load and a save of the library are instances of \<open>host_store\<close> and \<open>host_fetch\<close>.\<close>

theorem load_is_store:
  assumes "xlink_load (libxlink_driver sy) c b a bytes s = Some (True, s')" "drv_backend s = BParport"
  shows "concat (map host_acts (said s s')) =
    filter (\<lambda>x. x \<noteq> HOutput) (host_store (Command_load # header c b a (length bytes)) bytes)"
proof -
  have "said s s' = map Sent (0xfd # (Command_load # header c b a (length bytes)) @ bytes)"
    using ppb.load_says [OF assms(1)] assms(2) by (simp add: said_def pp_port_def range_header)
  then show ?thesis by (simp only: store_acts)
qed

theorem save_is_fetch:
  assumes "xlink_save (libxlink_driver sy) c b a n s = Some ((True, bytes), s')" "drv_backend s = BParport"
  shows "concat (map host_acts (said s s')) =
    filter (\<lambda>x. x \<noteq> HOutput) (host_fetch (Command_save # header c b a n) n)"
proof -
  have "said s s' = map Sent (0xfd # Command_save # header c b a n) @ Ready # map Got bytes" "length bytes = n"
    using ppb.save_says [OF assms(1)] assms(2) by (simp_all add: said_def pp_port_def range_header)
  then show ?thesis by (simp only: fetch_acts)
qed

end
