(* ===== verification/Spec2Isabelle.thy ===== *)
theory Spec2Isabelle
  imports Testsuite Client_Context Making_Room Driver_Props Live Serial_Link Usb_Link Make_Server_Laws Build_Tools_Laws
    Client_Link Bootstrap_Link Cable_Link
begin

text \<open>
  A verification development for xlink, the data transfer tool for the Commodore C64 and C128.

  The program. A command line client (client.c) turns words into commands; a command works out a
  range of addresses (range.c), moves the server on the Commodore out of the way when the range
  would hit it, and calls the library (xlink.c). The library opens a driver (driver/driver.c),
  pings, sends a command of a few bytes and then data, or turns the lines round and receives.
  The driver is a table of functions with four back ends: the parallel port (driver/parport.c)
  and the shared memory port of an emulator (driver/shm.c) move single bytes with a strobe and an
  acknowledge line; the usb adapter (driver/usb.c) and the serial adapter (driver/serial.c) are
  sent requests, which their firmware (driver/at90usb162/xlink.c, driver/servant64/xlink.c with
  the interrupt driven uart.c) carries out on the same lines. On the C64 a server (server64.asm with
  the macros of server.h) hangs in the interrupt and carries out the commands; bootstrap.asm and
  loader.asm bring it there. At build time five tools under
  tools/ make the relocatable server, the patched kernals, a BASIC loader and the help texts.

  Theories and sources.
    Prelude: types, rewrite collections, shared lemmas; the byte macros of util.h.
    Clib: what the program uses of the C library on strings (strtol, strstr, printf and others).
    Range_Ops: range.c. Testsuite: testsuite.c, the program's own tests run on the model.
    Util: util.c (string lists, logger, stop watch, chunked). Machine: machine.c.
    Environment: the global state of the library, error.h, and the outside world.
    Protocol: driver/protocol.h and the nine byte command frame.
    Handshake: the byte loops that parport.c and shm.c share. Parport, Shm, Serial, Usb: the four
    back ends. Driver: driver.c. Driver_Props: which back end and which device it uses.
    Bus: the conversation of the byte ports. Wire: what the adapter back ends put on their wires.
    Xlink: xlink.c. Xlink_Laws: results and errors, and what each request does to a wire.
    Xlink_Bus: the requests on the bus. Live: which of them always return. Frames: what they leave alone.
    Cmdline, Relocation, Client, Client_Main: client.c. Client_Props: its properties.
    Client_Frames, Client_Context: the settings and the logger contexts of the client. Making_Room:
    what holds when it lets a command go ahead.
    Ack_Poll: the wait loop of both firmwares. Servant64, Servant64_Laws: the serial firmware.
    Ring, Uart, Uart_Laws, Uart_Queue, Uart_Props: uart.c. At90usb162, At90_Laws: the usb firmware
    with its descriptors. Serial_Link: host, line and serial firmware put together.
    Usb_Link: host, control pipe and usb firmware put together.
    Make_Server, Make_Server_Laws: tools/make-server.c and the functions that it prints.
    Mos6510: the 6510 and the memory of the C64, an instruction a definition. Server64: server64.asm
    and server.h. Server64_Laws, Server64_Commands: its loops and commands for any host.
    Server_Host: its commands for a host that strobes a given conversation. Server_Link,
    Server_Control: the library and the server together. Client_Link: the client and the server.
    Bootstrap64, Bootstrap_Laws, Bootstrap_Link: bootstrap.asm and loader.asm.
    Cable, Cable_Link: the lines between both, with the steps of the two sides in any order.
    Build_Tools, Build_Tools_Laws: make-kernal.c, make-bootstrap.c, make-help.c, make-code.c.

  State and effects. The global and static variables of the library are the fields of the record
  \<open>xlink\<close>; functions take it and return it. The operating system, libusb, ppdev, the tty and the
  shared memory segment are functions over an arbitrary world, gathered in \<open>sys\<close>; what the
  program does to devices is also appended to \<open>trace\<close>, from which \<open>pp_bus\<close> and \<open>shm_bus\<close> read the
  conversation on the data lines, and \<open>tty_out\<close> and \<open>usb_out\<close> the bytes that left the host. The client has a second such record,
  \<open>client_env\<close>: files, getopt_long, rand and the generated functions. The firmwares keep their
  registers in records (\<open>mcu\<close>, \<open>at90\<close>, \<open>uart0\<close>) and look at pins, timer and lines through the
  records \<open>board\<close> and \<open>usb_board\<close>. The interrupt handlers of uart.c and its main program are a step
  relation, \<open>uart_step\<close>, with an interrupt possible between any two accesses to shared memory and a
  label for what each step does to the lines; \<open>uart_run\<close> are its runs from the initialisation.
  The server on the C64 is a composition of instructions on the record \<open>cpu\<close>: registers, memory, the
  processor port that banks it, the ports of the CIA; ROMs, other chips and pins are functions of
  the record \<open>c64_board\<close>, and \<open>talk\<close> and \<open>flips\<close> record what it sees and says on the lines. Its own code
  and the return addresses of its subroutines are not in that memory.

  Results. An operation that fails returns False as in the code, with the error code and message
  in the state. \<open>None\<close> stands for a run that has no result: a loop that never ends (the loops that
  wait for hardware are partial functions), or undefined behaviour of C, such as a call through
  an unset pointer or an access outside an array. No loop of the code is modelled with fuel. (The
  reference list \<open>chunk_sizes\<close> has the size plus one, which is enough as every turn takes at least
  one byte off the size: \<open>chunk_sizes_from_fuel\<close>.) Integers that wrap in the code are words of that width;
  the C int fields of ranges and commands are \<open>int\<close>, as the values stay far from 32 bits.

  What is shown. Ranges and command line: overlap is exact, moving clamps, texts and commands
  round trip, the words are cut into commands without loss (Range_Ops, Cmdline). Placing the
  server: the search ends and finds a place that the data does not touch, if there is one
  (Relocation), and a command that goes ahead spares the server where it is or where it was moved
  (Making_Room). Client: a load puts the ping, the
  command for the range and the bytes of the file on the bus; what a save takes off the bus, a
  load of its file puts back to the same place (Client_Props); a command runs under its own name
  in the logger and leaves the stack of contexts as it was (Client_Context). Library: loads
  and saves of at least one byte, peeks, pokes, jumps and runs
  report success exactly when the error code does (Xlink_Laws; pings and empty transfers fail
  with the code of success); a successful request has held
  a fixed conversation, in which each byte sent and each byte taken has one strobe in the right
  direction of the lines, over the parallel port as over the shared memory port (Xlink_Bus); and
  while time passes ten of the functions, the reset and what calls it apart, return over these
  ports whatever the other side does (Live). Driver: the back end is the one that the device calls for, and
  no device is opened but the one that is named (Driver_Props). Back ends: success means that all bytes went
  out, failure that a prefix did (Bus, Wire). Firmware: frames are decoded to the command that was framed, the bytes taken are the
  bytes strobed, the counts answered, and timed transfers end (Servant64_Laws, At90_Laws). Uart:
  under every interleaving no byte is doubled, reordered or made up, and none is lost while
  there is room (the 128th byte that waits is); each step does to two bounded queues what its label
  says (Uart_Props). The serial path as a whole, for a line that does
  not overrun the receive buffer: a send that reports success has put all of the data on the
  lines of the Commodore, though its last byte may not have been acknowledged (Serial_Link). The usb path, for a control pipe
  that keeps what usb promises (\<open>usb_pipe\<close>): a receive that reports success got just the bytes that
  the firmware read from the lines, each with its strobe; a send has put out the data but for at most one packet at the end of a chunk (Usb_Link). Both ends: for
  every request that succeeds over the parallel port, the server that is called with what the host
  strobed ends its interrupt, with the bytes of a load in the C64's memory, the bytes of a save
  equal to what its processor reads, control at the address of a jump, of injected code or of a
  new server, and the description of an identification its own (Server_Link, Server_Control); a
  program file is in memory after a load, and a range saved from one C64 and loaded into another
  arrives unchanged (Client_Link); without a server, the bootstrap program takes the first load
  (Bootstrap_Link), and the loader puts the server into its place (Bootstrap_Laws). On the cable
  between them, under every interleaving, a request goes in lockstep: the two never drive the
  lines together, and each byte arrives once and in order (Cable); the conversations of the
  library are such requests (Cable_Link). Tools: the
  printed server function relocates as the assembler would, the printed kernal patch writes
  exactly its ranges, the BASIC lines hold the program (Make_Server_Laws, Build_Tools_Laws).
  Several theorems state what the code does where that is not what it should do: the byte
  counted as received after a timeout, the endless wait for other time limits, the silent ping,
  the references with a carry that the server generator gets wrong, the empty range that the
  server waits on for ever, the interrupt vector that it does not restore.

  Interfaces. \<open>byte_port\<close> and \<open>byte_source\<close> (Handshake, by the two byte ports), \<open>chunk_callback\<close>
  (Util, by the usb callbacks), \<open>driver_laws\<close>, \<open>wire_driver\<close> and its extension \<open>answer_driver\<close>
  (Xlink_Laws, by the driver), \<open>live_port\<close> and \<open>live_driver\<close> (Live, by both), \<open>ack_poll\<close> and
  \<open>timed_ack_poll\<close> (Ack_Poll, by both firmwares), \<open>bounded_queue\<close> and \<open>dropping_queue\<close> (Uart_Queue, by
  the two buffers), \<open>serial_line\<close> (Serial_Link, by the uart), \<open>strobe_line\<close> (Server64_Laws, what the
  server relies on of its host; by the host of Server_Host, however slowly it strobes).

  Not modelled. The LUFA usb stack (vendored; its endpoint functions are parameters), the server
  for the C128 and the kernals patched with a server, the interrupt flag of the 6510, the branches for Windows and macOS, UART1 to UART3 of
  uart.c (not compiled for the chip of the Makefile), the watchdog of the firmwares, the emulator
  patch, packaging and hardware files. Memory management is left out: allocation succeeds.
\<close>

end
